(* ===== verification/Prelude.thy ===== *)
theory Prelude
  imports Main "HOL-Library.AList"
begin

text \<open>
  Shared vocabulary of the development: the model's types for time and for the
  JSON-shaped values the proxy passes around (cache payloads, records sent to the
  tagging client), Python's truthiness on them, the collections of rewrite rules
  the component theories fill, and generic lemmas on association lists and
  options that several components use.
\<close>

section \<open>Rule collections\<close>

named_theorems py_simps "evaluation rules of the modelled Python primitives"
named_theorems inv_simps "unfoldings of the invariants of the components"

section \<open>Time\<close>

text \<open>
  Both \<open>datetime.now()\<close> (cache timestamps) and \<open>time.time()\<close> (session
  activity) are read as an integer number of microseconds since the epoch,
  the resolution of Python's \<open>datetime\<close> and \<open>timedelta\<close>.
\<close>

type_synonym instant = int

definition seconds :: "int \<Rightarrow> int" where
  "seconds n = n * 1000000"

lemma seconds_nonneg [simp]: "0 \<le> n \<Longrightarrow> 0 \<le> seconds n"
  by (simp add: seconds_def)

section \<open>JSON values\<close>

text \<open>
  The values the code stores in the cache and returns to the HTTP layer are
  JSON-serialisable Python values. A Python \<open>dict\<close> keeps insertion order,
  so an object is an association list.
\<close>

datatype json =
    JNull
  | JBool bool
  | JInt int
  | JStr string
  | JArr "json list"
  | JObj "(string \<times> json) list"

text \<open>Python truthiness (\<open>if x:\<close>) of such a value.\<close>

fun py_truthy :: "json \<Rightarrow> bool" where
  "py_truthy JNull = False"
| "py_truthy (JBool b) = b"
| "py_truthy (JInt i) = (i \<noteq> 0)"
| "py_truthy (JStr s) = (s \<noteq> [])"
| "py_truthy (JArr xs) = (xs \<noteq> [])"
| "py_truthy (JObj ps) = (ps \<noteq> [])"

text \<open>\<open>key in d\<close> and \<open>d.get(key, default)\<close> on a JSON object.\<close>

fun json_has_key :: "string \<Rightarrow> json \<Rightarrow> bool" where
  "json_has_key k (JObj ps) = (k \<in> fst ` set ps)"
| "json_has_key k _ = False"

fun json_get :: "string \<Rightarrow> json \<Rightarrow> json \<Rightarrow> json" where
  "json_get k d (JObj ps) = (case map_of ps k of Some v \<Rightarrow> v | None \<Rightarrow> d)"
| "json_get k d _ = d"

definition err_obj :: "string \<Rightarrow> json" where
  "err_obj msg = JObj [(''error'', JStr msg)]"

lemma err_obj_has_error [simp]: "json_has_key ''error'' (err_obj m)"
  by (simp add: err_obj_def)

lemma err_obj_truthy [simp]: "py_truthy (err_obj m)"
  by (simp add: err_obj_def)

section \<open>Exceptions\<close>

text \<open>
  The exceptions the modelled code can raise. A navigation or browser failure is
  an exception of the automation engine with its message; \<open>KeyError\<close>,
  \<open>AttributeError\<close>, \<open>IndexError\<close> and \<open>TypeError\<close> are Python's own;
  \<open>SelectorSyntaxError\<close> is the CSS selector engine's rejection of a selector. \<open>exc_str\<close> is \<open>str(e)\<close>,
  which the orchestrator puts into its error object.
\<close>

datatype exc =
    KeyError string
  | AttributeError string
  | IndexError string
  | TypeError string
  | EngineError string
  | SelectorSyntaxError string

fun exc_str :: "exc \<Rightarrow> string" where
  "exc_str (KeyError k) = CHR 0x27 # k @ [CHR 0x27]"
| "exc_str (AttributeError m) = m"
| "exc_str (IndexError m) = m"
| "exc_str (TypeError m) = m"
| "exc_str (EngineError m) = m"
| "exc_str (SelectorSyntaxError m) = m"

section \<open>Association lists\<close>

text \<open>
  Lemmas on \<open>AList.update\<close> and \<open>AList.delete\<close> that the cache and the
  orchestrator share.
\<close>

lemma distinct_update_keys [simp]:
  "distinct (map fst ps) \<Longrightarrow> distinct (map fst (AList.update k v ps))"
  by (simp add: distinct_update)

lemma distinct_delete_keys [simp]:
  "distinct (map fst ps) \<Longrightarrow> distinct (map fst (AList.delete k ps))"
  by (simp add: distinct_delete)

lemma map_of_delete_self [simp]: "map_of (AList.delete k ps) k = None"
  by (simp add: delete_conv)

lemma map_of_update_self [simp]: "map_of (AList.update k v ps) k = Some v"
  by (simp add: update_conv)

lemma map_of_update_other [simp]: "k' \<noteq> k \<Longrightarrow> map_of (AList.update k v ps) k' = map_of ps k'"
  by (simp add: update_conv)

lemma map_of_filter_distinct:
  "distinct (map fst ps) \<Longrightarrow>
   map_of (filter P ps) k =
     (case map_of ps k of Some v \<Rightarrow> if P (k, v) then Some v else None | None \<Rightarrow> None)"
  by (induction ps) (auto split: option.splits simp: map_of_eq_None_iff)

end
