(* ===== verification/Cache.thy ===== *)
theory Cache
  imports Prelude
begin

text \<open>
  The cache store of \<open>src/cache_ma.py\<close>: a \<open>shelve\<close> file mapping a cache key to
  a dictionary \<open>{"timestamp": ..., "data": ...}\<close>. The shelf is modelled as the
  association list of its items (key, entry), in the shelf's iteration order;
  every function takes the current time \<open>now\<close> that \<open>datetime.now()\<close> returns.
  The abstract view \<open>cache_view\<close> is the map of the entries that are still
  live; the lemmas show that the concrete operations implement the map
  operations on that view, that the store keeps one entry per key, and what
  each operation does on each branch.
\<close>

section \<open>State and operations\<close>

record cache_entry =
  timestamp :: instant
  data :: json

type_synonym cache = "(string \<times> cache_entry) list"

definition DAYS_TO_EXPIRE :: int where
  "DAYS_TO_EXPIRE = 15"

text \<open>\<open>timedelta(days = DAYS_TO_EXPIRE)\<close>.\<close>

definition cache_ttl :: int where
  "cache_ttl = seconds (DAYS_TO_EXPIRE * 86400)"

text \<open>The expiry test \<open>datetime.now() - cache_key_date > timedelta(days = DAYS_TO_EXPIRE)\<close>.\<close>

definition is_expired :: "instant \<Rightarrow> cache_entry \<Rightarrow> bool" where
  "is_expired now item \<longleftrightarrow> now - timestamp item > cache_ttl"

definition save_in_cache :: "instant \<Rightarrow> string \<Rightarrow> json \<Rightarrow> cache \<Rightarrow> cache" where
  "save_in_cache now cache_key cache_key_value c =
     AList.update cache_key \<lparr>timestamp = now, data = cache_key_value\<rparr> c"

definition delete_from_cache :: "string \<Rightarrow> cache \<Rightarrow> cache" where
  "delete_from_cache cache_key c =
     (if cache_key \<in> fst ` set c then AList.delete cache_key c else c)"

text \<open>
  \<open>get_data_from_cache\<close> returns the value (\<open>None\<close> for Python's \<open>None\<close>) and
  the shelf after the call: an expired entry is deleted on the way.
\<close>

definition get_data_from_cache :: "instant \<Rightarrow> string \<Rightarrow> cache \<Rightarrow> json option \<times> cache" where
  "get_data_from_cache now cache_key c =
     (case map_of c cache_key of
        None \<Rightarrow> (None, c)
      | Some item \<Rightarrow>
          if now - timestamp item > cache_ttl
          then (None, delete_from_cache cache_key c)
          else (Some (data item), c))"

text \<open>
  \<open>cleanup_expired_cache\<close> runs two loops: the first collects the keys of the
  expired items, the second deletes them with \<open>del cache[cache_key]\<close>, which
  raises \<open>KeyError\<close> on a key that is not there.
\<close>

primrec collect_expired :: "instant \<Rightarrow> cache \<Rightarrow> string list" where
  "collect_expired now [] = []"
| "collect_expired now (p # ps) =
     (if now - timestamp (snd p) > cache_ttl
      then fst p # collect_expired now ps else collect_expired now ps)"

fun del_keys :: "string list \<Rightarrow> cache \<Rightarrow> exc + cache" where
  "del_keys [] c = Inr c"
| "del_keys (k # ks) c =
     (if k \<in> fst ` set c then del_keys ks (AList.delete k c) else Inl (KeyError k))"

definition cleanup_expired_cache :: "instant \<Rightarrow> cache \<Rightarrow> exc + cache" where
  "cleanup_expired_cache now c = del_keys (collect_expired now c) c"

section \<open>Abstract view and invariant\<close>

text \<open>The logical content of the store at time \<open>now\<close>: expired entries are absent.\<close>

definition cache_view :: "instant \<Rightarrow> cache \<Rightarrow> string \<rightharpoonup> json" where
  "cache_view now c k =
     (case map_of c k of
        None \<Rightarrow> None
      | Some item \<Rightarrow> if is_expired now item then None else Some (data item))"

text \<open>At most one entry per key.\<close>

definition cache_inv :: "cache \<Rightarrow> bool" where
  "cache_inv c \<longleftrightarrow> distinct (map fst c)"

declare cache_inv_def [inv_simps]

section \<open>Lemmas on the operations\<close>

lemma cache_ttl_pos: "0 < cache_ttl"
  by (simp add: cache_ttl_def DAYS_TO_EXPIRE_def seconds_def)

lemma is_expired_iff: "is_expired now item \<longleftrightarrow> cache_ttl < now - timestamp item"
  by (simp add: is_expired_def)

lemma delete_from_cache_eq: "delete_from_cache k c = AList.delete k c"
  by (simp add: delete_from_cache_def)

lemma collect_expired_eq:
  "collect_expired now c = map fst (filter (\<lambda>p. is_expired now (snd p)) c)"
  by (induction c) (simp_all add: is_expired_def)

lemma del_keys_distinct:
  "distinct ks \<Longrightarrow> set ks \<subseteq> fst ` set c \<Longrightarrow>
   del_keys ks c = Inr (filter (\<lambda>p. fst p \<notin> set ks) c)"
proof (induction ks arbitrary: c)
  case Nil
  then show ?case by simp
next
  case (Cons k ks)
  have "set ks \<subseteq> fst ` set (AList.delete k c)"
  proof
    fix x assume "x \<in> set ks"
    with Cons.prems have "x \<noteq> k" and "x \<in> fst ` set c" by auto
    then show "x \<in> fst ` set (AList.delete k c)"
      by (auto simp: AList.delete_eq image_iff)
  qed
  with Cons.prems have "del_keys ks (AList.delete k c) =
      Inr (filter (\<lambda>p. fst p \<notin> set ks) (AList.delete k c))"
    by (intro Cons.IH) auto
  with Cons.prems show ?case
    by (auto simp: AList.delete_eq filter_filter intro!: filter_cong)
qed

lemma distinct_filter_keys:
  "distinct (map fst c) \<Longrightarrow> distinct (map fst (filter P c))"
  by (induction c) auto

lemma cleanup_expired_cache_eq:
  assumes "cache_inv c"
  shows "cleanup_expired_cache now c = Inr (filter (\<lambda>(k, item). \<not> is_expired now item) c)"
proof -
  let ?ks = "map fst (filter (\<lambda>p. is_expired now (snd p)) c)"
  have "distinct ?ks"
    using assms by (simp add: cache_inv_def distinct_filter_keys)
  moreover have "set ?ks \<subseteq> fst ` set c" by auto
  ultimately have "del_keys ?ks c = Inr (filter (\<lambda>p. fst p \<notin> set ?ks) c)"
    by (rule del_keys_distinct)
  moreover have "filter (\<lambda>p. fst p \<notin> set ?ks) c = filter (\<lambda>(k, item). \<not> is_expired now item) c"
  proof (rule filter_cong)
    fix p assume p: "p \<in> set c"
    show "(fst p \<notin> set ?ks) = (case p of (k, item) \<Rightarrow> \<not> is_expired now item)"
      using assms p by (auto simp: cache_inv_def dest: eq_key_imp_eq_value)
  qed simp
  ultimately show ?thesis
    by (simp add: cleanup_expired_cache_def collect_expired_eq)
qed

lemma get_data_from_cache_eq:
  "get_data_from_cache now k c =
     (case map_of c k of
        None \<Rightarrow> (None, c)
      | Some item \<Rightarrow> if is_expired now item then (None, AList.delete k c) else (Some (data item), c))"
  by (simp add: get_data_from_cache_def delete_from_cache_eq is_expired_def split: option.split)

lemma get_data_from_cache_view: "fst (get_data_from_cache now k c) = cache_view now c k"
  by (simp add: get_data_from_cache_eq cache_view_def split: option.splits)

lemma get_data_from_cache_keeps_view: "cache_view now (snd (get_data_from_cache now k c)) = cache_view now c"
  by (auto simp: get_data_from_cache_eq cache_view_def delete_conv fun_eq_iff split: option.splits)

lemma save_in_cache_view:
  "now' - now \<le> cache_ttl \<Longrightarrow>
   cache_view now' (save_in_cache now k v c) = (cache_view now' c)(k \<mapsto> v)"
  by (auto simp: save_in_cache_def cache_view_def is_expired_def update_conv fun_eq_iff)

lemma delete_from_cache_view: "cache_view now (delete_from_cache k c) = (cache_view now c)(k := None)"
  by (auto simp: delete_from_cache_eq cache_view_def delete_conv fun_eq_iff)

lemma cleanup_expired_cache_view:
  "cache_inv c \<Longrightarrow> cleanup_expired_cache now c = Inr c' \<Longrightarrow> cache_view now c' = cache_view now c"
  by (auto simp: cleanup_expired_cache_eq cache_view_def map_of_filter_distinct cache_inv_def
           fun_eq_iff split: option.splits)

lemma cache_inv_save [simp]: "cache_inv c \<Longrightarrow> cache_inv (save_in_cache now k v c)"
  by (simp add: cache_inv_def save_in_cache_def)

lemma cache_inv_delete [simp]: "cache_inv c \<Longrightarrow> cache_inv (delete_from_cache k c)"
  by (simp add: cache_inv_def delete_from_cache_eq)

lemma cache_inv_get [simp]: "cache_inv c \<Longrightarrow> cache_inv (snd (get_data_from_cache now k c))"
  by (simp add: cache_inv_def get_data_from_cache_eq split: option.splits)

lemma cache_inv_cleanup:
  "cache_inv c \<Longrightarrow> cleanup_expired_cache now c = Inr c' \<Longrightarrow> cache_inv c'"
  by (auto simp: cleanup_expired_cache_eq cache_inv_def distinct_filter_keys)

lemmas cache_view_simps = get_data_from_cache_view get_data_from_cache_keeps_view
  delete_from_cache_view

section \<open>Properties of the cache store\<close>

text \<open>
  C1. A value read back within the time-to-live after \<open>save_in_cache\<close> is the
  value saved, and the read leaves the shelf as it was.
\<close>

theorem get_after_save:
  assumes "now' - now \<le> cache_ttl"
  shows "get_data_from_cache now' k (save_in_cache now k v c) = (Some v, save_in_cache now k v c)"
  using assms by (simp add: get_data_from_cache_eq save_in_cache_def is_expired_def)

theorem get_after_save_witness:
  "get_data_from_cache (seconds 60) ''album:u'' (save_in_cache 0 ''album:u'' (JStr ''x'') [])
     = (Some (JStr ''x''), save_in_cache 0 ''album:u'' (JStr ''x'') [])"
proof -
  have "seconds 60 - 0 \<le> cache_ttl" by (simp add: cache_ttl_def DAYS_TO_EXPIRE_def seconds_def)
  then show ?thesis by (rule get_after_save)
qed

text \<open>
  The TTL boundary is inclusive: an entry read exactly \<open>DAYS_TO_EXPIRE\<close>
  days after it was saved is still served (the test is a strict \<open>>\<close>), and one
  microsecond later it is a miss and the entry is deleted.
\<close>

theorem cache_ttl_boundary:
  "get_data_from_cache (t + cache_ttl) k (save_in_cache t k v c) = (Some v, save_in_cache t k v c)
   \<and> get_data_from_cache (t + cache_ttl + 1) k (save_in_cache t k v c) = (None, AList.delete k c)"
  by (simp add: get_data_from_cache_eq save_in_cache_def is_expired_def delete_update_same)

text \<open>
  C2. Reading a key whose entry is older than the time-to-live returns nothing
  and deletes the entry from the shelf; the other entries stay.
\<close>

theorem get_expired_removes:
  assumes "map_of c k = Some item" and "is_expired now item"
  shows "get_data_from_cache now k c = (None, AList.delete k c)
         \<and> map_of (snd (get_data_from_cache now k c)) k = None"
  using assms by (simp add: get_data_from_cache_eq)

theorem get_expired_removes_witness:
  "get_data_from_cache (seconds (16 * 86400)) ''k'' [(''k'', \<lparr>timestamp = 0, data = JNull\<rparr>)]
     = (None, [])"
proof -
  have "is_expired (seconds (16 * 86400)) \<lparr>timestamp = 0, data = JNull\<rparr>"
    by (simp add: is_expired_def cache_ttl_def DAYS_TO_EXPIRE_def seconds_def)
  from get_expired_removes [OF _ this, of "[(''k'', \<lparr>timestamp = 0, data = JNull\<rparr>)]" "''k''"]
  show ?thesis by simp
qed

text \<open>
  C3. The sweep \<open>cleanup_expired_cache\<close> never raises on a shelf with one
  entry per key, and it removes exactly the expired entries, keeping every
  other entry unchanged and in place.
\<close>

theorem cleanup_removes_exactly_expired:
  assumes "cache_inv c"
  shows "\<exists>c'. cleanup_expired_cache now c = Inr c'
           \<and> set c' = {p \<in> set c. \<not> is_expired now (snd p)}
           \<and> c' = filter (\<lambda>p. \<not> is_expired now (snd p)) c"
proof -
  have "cleanup_expired_cache now c = Inr (filter (\<lambda>p. \<not> is_expired now (snd p)) c)"
    using cleanup_expired_cache_eq [OF assms] by (simp add: case_prod_unfold)
  then show ?thesis by auto
qed

theorem cleanup_removes_exactly_expired_witness:
  "cleanup_expired_cache (seconds (20 * 86400))
     [(''old'', \<lparr>timestamp = 0, data = JNull\<rparr>), (''new'', \<lparr>timestamp = seconds (19 * 86400), data = JNull\<rparr>)]
   = Inr [(''new'', \<lparr>timestamp = seconds (19 * 86400), data = JNull\<rparr>)]"
proof -
  let ?c = "[(''old'', \<lparr>timestamp = 0, data = JNull\<rparr>), (''new'', \<lparr>timestamp = seconds (19 * 86400), data = JNull\<rparr>)]"
  have "cache_inv ?c" by (simp add: cache_inv_def)
  from cleanup_removes_exactly_expired [OF this, of "seconds (20 * 86400)"]
  show ?thesis by (simp add: is_expired_def cache_ttl_def DAYS_TO_EXPIRE_def seconds_def)
qed

text \<open>
  Every operation of the store keeps at most one entry per key.
\<close>

theorem cache_ops_preserve_inv:
  assumes "cache_inv c"
  shows "cache_inv (save_in_cache now k v c) \<and> cache_inv (delete_from_cache k c)
         \<and> cache_inv (snd (get_data_from_cache now k c))
         \<and> (\<forall>c'. cleanup_expired_cache now c = Inr c' \<longrightarrow> cache_inv c')"
  using assms by (auto intro: cache_inv_cleanup)

theorem cache_ops_preserve_inv_witness:
  "cache_inv (save_in_cache 0 ''k'' JNull [(''j'', \<lparr>timestamp = 0, data = JNull\<rparr>)])"
  using cache_ops_preserve_inv [of "[(''j'', \<lparr>timestamp = 0, data = JNull\<rparr>)]" 0 "''k''" JNull]
  by (simp add: cache_inv_def)

text \<open>
  C7. Refinement: on the map of live entries, \<open>save_in_cache\<close> is a map update,
  \<open>delete_from_cache\<close> a removal, \<open>get_data_from_cache\<close> a lookup that leaves
  the map unchanged, and \<open>cleanup_expired_cache\<close> leaves the map unchanged.
\<close>

theorem cache_view_refinement:
  assumes "cache_inv c"
  shows "cache_view now (save_in_cache now k v c) = (cache_view now c)(k \<mapsto> v)
         \<and> cache_view now (delete_from_cache k c) = (cache_view now c)(k := None)
         \<and> fst (get_data_from_cache now k c) = cache_view now c k
         \<and> cache_view now (snd (get_data_from_cache now k c)) = cache_view now c
         \<and> (\<forall>c'. cleanup_expired_cache now c = Inr c' \<longrightarrow> cache_view now c' = cache_view now c)"
  using assms cache_ttl_pos
  by (auto simp: cache_view_simps save_in_cache_view cleanup_expired_cache_view)

theorem cache_view_refinement_witness:
  "cache_view 5 (save_in_cache 5 ''k'' JNull []) ''k'' = Some JNull"
  using cache_view_refinement [of "[]" 5 "''k''" JNull] by (simp add: cache_inv_def)

end
