(* ===== verification/Text.thy ===== *)
theory Text
  imports Prelude
begin

text \<open>
  The Python string primitives that \<open>src/proxy_ma.py\<close> calls, on the model's
  strings. A Python \<open>str\<close> is a sequence of code points; the model's
  \<open>string\<close> is a list of \<open>char\<close>, whose values are the code points 0 to 255
  (ASCII and Latin-1, where \<open>of_char\<close> is Python's \<open>ord\<close>). Texts outside
  that range are not modelled. Each definition follows CPython's behaviour on
  that range: \<open>str.isspace\<close> counts the ASCII separators and controls,
  U+0085 and U+00A0 as white space; \<open>\d\<close> of \<open>re\<close> is the ten ASCII digits.
\<close>

section \<open>Character classes\<close>

definition py_isspace :: "char \<Rightarrow> bool" where
  "py_isspace c \<longleftrightarrow>
     (let n = of_char c :: nat in (9 \<le> n \<and> n \<le> 13) \<or> (28 \<le> n \<and> n \<le> 32) \<or> n = 133 \<or> n = 160)"

definition py_isdigit :: "char \<Rightarrow> bool" where
  "py_isdigit c \<longleftrightarrow> (let n = of_char c :: nat in 48 \<le> n \<and> n \<le> 57)"

section \<open>String methods\<close>

text \<open>\<open>s.strip()\<close>: white space removed at both ends.\<close>

definition py_strip :: "string \<Rightarrow> string" where
  "py_strip s = rev (dropWhile py_isspace (rev (dropWhile py_isspace s)))"

text \<open>
  \<open>s.replace(old, new)\<close> for a non-empty \<open>old\<close>: left to right, each
  occurrence replaced and scanning resumed after it, so occurrences never overlap.
  (The code calls it with the month names only.)
\<close>

function py_replace :: "string \<Rightarrow> string \<Rightarrow> string \<Rightarrow> string" where
  "py_replace old new s =
     (if s = [] then []
      else if old \<noteq> [] \<and> take (length old) s = old
      then new @ py_replace old new (drop (length old) s)
      else hd s # py_replace old new (tl s))"
  by pat_completeness auto
termination
  by (relation "measure (\<lambda>(old, new, s). length s)") auto

declare py_replace.simps [simp del]

text \<open>\<open>s.zfill(width)\<close>: zeros after a leading sign up to the width.\<close>

definition py_zfill :: "nat \<Rightarrow> string \<Rightarrow> string" where
  "py_zfill width s =
     (if length s \<ge> width then s
      else case s of
             c # cs \<Rightarrow> if c = CHR ''+'' \<or> c = CHR ''-''
                       then c # replicate (width - length s) CHR ''0'' @ cs
                       else replicate (width - length s) CHR ''0'' @ s
           | [] \<Rightarrow> replicate width CHR ''0'')"

text \<open>\<open>s.lower()\<close> on Latin-1: A-Z and the capitals U+00C0 to U+00DE but U+00D7.\<close>

definition py_lower_char :: "char \<Rightarrow> char" where
  "py_lower_char c =
     (let n = of_char c :: nat in
      if (65 \<le> n \<and> n \<le> 90) \<or> (192 \<le> n \<and> n \<le> 222 \<and> n \<noteq> 215) then char_of (n + 32) else c)"

definition py_lower :: "string \<Rightarrow> string" where
  "py_lower s = map py_lower_char s"

text \<open>\<open>needle in s\<close> on strings: \<open>needle\<close> occurs at some position of \<open>s\<close>.\<close>

fun py_contains :: "string \<Rightarrow> string \<Rightarrow> bool" where
  "py_contains needle [] = (needle = [])"
| "py_contains needle (c # cs) = (take (length needle) (c # cs) = needle \<or> py_contains needle cs)"

text \<open>\<open>sep.join(xs)\<close>.\<close>

fun py_join :: "string \<Rightarrow> string list \<Rightarrow> string" where
  "py_join sep [] = []"
| "py_join sep [x] = x"
| "py_join sep (x # y # xs) = x @ sep @ py_join sep (y # xs)"

text \<open>\<open>contains_unicode\<close>, \<open>src/proxy_ma.py\<close> line 586.\<close>

definition contains_unicode :: "string \<Rightarrow> bool" where
  "contains_unicode text_to_validate \<longleftrightarrow> list_ex (\<lambda>c. of_char c > (127::nat)) text_to_validate"

section \<open>URL quoting\<close>

text \<open>
  \<open>urllib.parse.quote(s)\<close> (\<open>safe='/'\<close>): the UTF-8 bytes of \<open>s\<close>, each
  kept when it is an ASCII letter or digit, one of \<open>_.-~\<close> or \<open>/\<close>, and written
  \<open>%XX\<close> (upper-case hex) otherwise. A code point below 256 has one or two
  UTF-8 bytes.
\<close>

definition url_safe_byte :: "nat \<Rightarrow> bool" where
  "url_safe_byte b \<longleftrightarrow>
     (65 \<le> b \<and> b \<le> 90) \<or> (97 \<le> b \<and> b \<le> 122) \<or> (48 \<le> b \<and> b \<le> 57)
     \<or> b = 95 \<or> b = 46 \<or> b = 45 \<or> b = 126 \<or> b = 47"

definition utf8_encode_char :: "char \<Rightarrow> nat list" where
  "utf8_encode_char c =
     (let n = of_char c :: nat in if n < 128 then [n] else [192 + n div 64, 128 + n mod 64])"

definition hex_digit :: "nat \<Rightarrow> char" where
  "hex_digit d = (if d < 10 then char_of (48 + d) else char_of (55 + d))"

definition quote_byte :: "nat \<Rightarrow> string" where
  "quote_byte b =
     (if url_safe_byte b then [char_of b] else [CHR ''%'', hex_digit (b div 16), hex_digit (b mod 16)])"

definition url_quote :: "string \<Rightarrow> string" where
  "url_quote s = concat (map quote_byte (concat (map utf8_encode_char s)))"

text \<open>
  \<open>urllib.parse.unquote(s)\<close>, which \<open>parse_qs\<close> applies to each value after
  turning \<open>+\<close> into a space: a string without \<open>%\<close> is returned as it is;
  otherwise \<open>%XX\<close> with two hex digits becomes the byte, every other ASCII
  character its own byte, and the bytes are decoded as UTF-8. \<open>None\<close> marks
  what the model leaves out: non-ASCII characters next to escapes and byte
  sequences that decode to the replacement character or to a code point
  above 255.
\<close>

definition hex_value :: "char \<Rightarrow> nat option" where
  "hex_value c =
     (let n = of_char c :: nat in
      if 48 \<le> n \<and> n \<le> 57 then Some (n - 48)
      else if 65 \<le> n \<and> n \<le> 70 then Some (n - 55)
      else if 97 \<le> n \<and> n \<le> 102 then Some (n - 87)
      else None)"

fun unquote_bytes :: "string \<Rightarrow> nat list" where
  "unquote_bytes (c # d1 # d2 # cs) =
     (case (hex_value d1, hex_value d2) of
        (Some h1, Some h2) \<Rightarrow>
          if c = CHR ''%'' then (16 * h1 + h2) # unquote_bytes cs
          else of_char c # unquote_bytes (d1 # d2 # cs)
      | _ \<Rightarrow> of_char c # unquote_bytes (d1 # d2 # cs))"
| "unquote_bytes cs = map of_char cs"

fun utf8_decode :: "nat list \<Rightarrow> string option" where
  "utf8_decode [] = Some []"
| "utf8_decode (b # bs) =
     (if b < 128 then map_option (Cons (char_of b)) (utf8_decode bs)
      else if 194 \<le> b \<and> b \<le> 195 then
        (case bs of
           b2 # bs' \<Rightarrow>
             if 128 \<le> b2 \<and> b2 < 192
             then map_option (Cons (char_of ((b - 192) * 64 + (b2 - 128)))) (utf8_decode bs')
             else None
         | [] \<Rightarrow> None)
      else None)"

definition url_unquote :: "string \<Rightarrow> string option" where
  "url_unquote s =
     (if CHR ''%'' \<notin> set s then Some s
      else if list_all (\<lambda>c. of_char c < (128::nat)) s then utf8_decode (unquote_bytes s)
      else None)"

definition url_unquote_plus :: "string \<Rightarrow> string option" where
  "url_unquote_plus s = url_unquote (map (\<lambda>c. if c = CHR ''+'' then CHR '' '' else c) s)"

text \<open>The characters \<open>url_quote\<close> writes: the safe bytes and \<open>%\<close>.\<close>

definition quote_char :: "char \<Rightarrow> bool" where
  "quote_char c \<longleftrightarrow> url_safe_byte (of_char c) \<or> c = CHR ''%''"

section \<open>Lemmas on quoting\<close>

lemma hex_value_hex_digit [simp]: "d < 16 \<Longrightarrow> hex_value (hex_digit d) = Some d"
  by (auto simp: hex_value_def hex_digit_def Let_def)

lemma hex_digit_ascii: "d < 16 \<Longrightarrow> of_char (hex_digit d) < (128::nat)"
  by (simp add: hex_digit_def)

lemma unquote_bytes_other:
  "c \<noteq> CHR ''%'' \<Longrightarrow> unquote_bytes (c # cs) = of_char c # unquote_bytes cs"
proof (cases cs rule: remdups_adj.cases)
  case 1
  then show ?thesis by simp
next
  case (2 x)
  then show ?thesis by simp
next
  case (3 x y ys)
  assume c: "c \<noteq> CHR ''%''"
  show ?thesis
  proof (cases ys)
    case Nil
    with 3 c show ?thesis by (auto split: option.splits)
  next
    case (Cons z zs)
    with 3 c show ?thesis by (auto split: option.splits)
  qed
qed

lemma unquote_bytes_quote_byte:
  assumes "b < 256"
  shows "unquote_bytes (quote_byte b @ rest) = b # unquote_bytes rest"
proof (cases "url_safe_byte b")
  case True
  have "b \<noteq> 37" using True by (auto simp: url_safe_byte_def)
  have "char_of b \<noteq> CHR ''%''"
  proof
    assume "char_of b = CHR ''%''"
    then have "of_char (char_of b) = (of_char (CHR ''%'') :: nat)" by (rule arg_cong)
    with assms \<open>b \<noteq> 37\<close> show False by simp
  qed
  then show ?thesis using True assms by (simp add: quote_byte_def unquote_bytes_other)
next
  case False
  have "b div 16 < 16" "b mod 16 < 16" using assms by simp_all
  then show ?thesis using False by (simp add: quote_byte_def)
qed

lemma unquote_bytes_quoted:
  "list_all (\<lambda>b. b < 256) bs \<Longrightarrow> unquote_bytes (concat (map quote_byte bs)) = bs"
  by (induction bs) (simp_all add: unquote_bytes_quote_byte)

lemma utf8_encode_char_bytes: "list_all (\<lambda>b. b < 256) (utf8_encode_char c)"
proof -
  have "of_char c < (256::nat)" by (rule nat_of_char_less_256)
  then show ?thesis by (auto simp: utf8_encode_char_def Let_def)
    (use \<open>of_char c < (256::nat)\<close> in linarith)
qed

lemma utf8_decode_encode_char:
  "utf8_decode (utf8_encode_char c @ bs) = map_option (Cons c) (utf8_decode bs)"
proof -
  let ?n = "of_char c :: nat"
  have n: "?n < 256" by (rule nat_of_char_less_256)
  show ?thesis
  proof (cases "?n < 128")
    case True
    then show ?thesis by (simp add: utf8_encode_char_def)
  next
    case False
    then have "2 \<le> ?n div 64" "?n div 64 \<le> 3" using n by linarith+
    moreover have "(?n div 64) * 64 + ?n mod 64 = ?n" by simp
    ultimately show ?thesis using False
      by (simp add: utf8_encode_char_def Let_def)
  qed
qed

lemma utf8_decode_encode: "utf8_decode (concat (map utf8_encode_char s)) = Some s"
  by (induction s) (simp_all add: utf8_decode_encode_char)

lemma quote_byte_ascii: "b < 256 \<Longrightarrow> list_all (\<lambda>c. of_char c < (128::nat)) (quote_byte b)"
  by (auto simp: quote_byte_def url_safe_byte_def hex_digit_def)

lemma url_quote_ascii: "list_all (\<lambda>c. of_char c < (128::nat)) (url_quote s)"
proof -
  have "\<forall>b \<in> set (concat (map utf8_encode_char s)). b < 256"
    using utf8_encode_char_bytes by (auto simp: list_all_iff)
  then show ?thesis
    by (auto simp: url_quote_def list_all_iff dest!: quote_byte_ascii [unfolded list_all_iff])
qed

lemma unquote_bytes_plain:
  "CHR ''%'' \<notin> set t \<Longrightarrow> unquote_bytes t = map of_char t"
  by (induction t) (auto simp: unquote_bytes_other)

lemma utf8_decode_ascii:
  "list_all (\<lambda>c. of_char c < (128::nat)) t \<Longrightarrow> utf8_decode (map of_char t) = Some t"
  by (induction t) auto

lemma url_unquote_quote: "url_unquote (url_quote s) = Some s"
proof -
  let ?bs = "concat (map utf8_encode_char s)"
  have bs: "list_all (\<lambda>b. b < 256) ?bs"
    using utf8_encode_char_bytes by (auto simp: list_all_iff)
  have dec: "utf8_decode (unquote_bytes (url_quote s)) = Some s"
    using bs by (simp add: url_quote_def unquote_bytes_quoted utf8_decode_encode)
  show ?thesis
  proof (cases "CHR ''%'' \<in> set (url_quote s)")
    case True
    with dec url_quote_ascii show ?thesis by (simp add: url_unquote_def)
  next
    case False
    then have "utf8_decode (unquote_bytes (url_quote s)) = Some (url_quote s)"
      using url_quote_ascii by (simp add: unquote_bytes_plain utf8_decode_ascii)
    with dec False show ?thesis by (simp add: url_unquote_def)
  qed
qed

lemma hex_digit_safe: "d < 16 \<Longrightarrow> url_safe_byte (of_char (hex_digit d))"
  by (auto simp: hex_digit_def url_safe_byte_def)

lemma quote_byte_chars: "b < 256 \<Longrightarrow> list_all quote_char (quote_byte b)"
  by (auto simp: quote_byte_def quote_char_def hex_digit_safe)

lemma url_quote_chars: "list_all quote_char (url_quote s)"
proof -
  have "\<forall>b \<in> set (concat (map utf8_encode_char s)). b < 256"
    using utf8_encode_char_bytes by (auto simp: list_all_iff)
  then show ?thesis
    by (auto simp: url_quote_def list_all_iff dest!: quote_byte_chars [unfolded list_all_iff])
qed

lemma quote_char_not [simp]:
  "quote_char c \<Longrightarrow> c \<noteq> CHR ''&'' \<and> c \<noteq> CHR ''='' \<and> c \<noteq> CHR ''#'' \<and> c \<noteq> CHR ''?'' \<and> c \<noteq> CHR ''+''
     \<and> c \<noteq> CHR '':'' \<and> c \<noteq> CHR '';'' \<and> c \<noteq> CHR 0x09 \<and> c \<noteq> CHR 0x0D \<and> c \<noteq> CHR 0x0A"
  by (auto simp: quote_char_def url_safe_byte_def)

lemma quote_byte_nonempty [simp]: "quote_byte b \<noteq> []"
  by (simp add: quote_byte_def)

lemma utf8_encode_char_Cons: "\<exists>b bs. utf8_encode_char c = b # bs"
  by (simp add: utf8_encode_char_def Let_def)

lemma url_quote_nonempty: "s \<noteq> [] \<Longrightarrow> url_quote s \<noteq> []"
proof (cases s)
  case (Cons c cs)
  obtain b bs where "utf8_encode_char c = b # bs" using utf8_encode_char_Cons by blast
  with Cons show ?thesis by (simp add: url_quote_def)
qed simp

lemma url_unquote_plus_quote: "url_unquote_plus (url_quote s) = Some s"
proof -
  have "map (\<lambda>c. if c = CHR ''+'' then CHR '' '' else c) (url_quote s) = url_quote s"
    using url_quote_chars [of s] by (induction "url_quote s") (auto simp: list_all_iff intro!: map_idI)
  then show ?thesis by (simp add: url_unquote_plus_def url_unquote_quote)
qed

lemma url_quote_Nil [simp]: "url_quote [] = []"
  by (simp add: url_quote_def)

lemma url_quote_append: "url_quote (x @ y) = url_quote x @ url_quote y"
  by (simp add: url_quote_def)

lemma url_quote_doubleclick: "url_quote ''doubleclick'' = ''doubleclick''"
  by code_simp

section \<open>Lemmas on string methods\<close>

lemma py_contains_iff: "py_contains w s \<longleftrightarrow> (\<exists>a b. s = a @ w @ b)"
proof (induction s)
  case Nil
  then show ?case by simp
next
  case (Cons c cs)
  have "take (length w) (c # cs) = w \<longleftrightarrow> (\<exists>b. c # cs = w @ b)"
    by (metis append_eq_conv_conj)
  then show ?case using Cons.IH by (auto simp: Cons_eq_append_conv)
qed

lemma py_contains_drop: "py_contains w s \<longleftrightarrow> (\<exists>n \<le> length s. take (length w) (drop n s) = w)"
proof (induction s)
  case Nil
  then show ?case by auto
next
  case (Cons c cs)
  have "(\<exists>n \<le> length (c # cs). take (length w) (drop n (c # cs)) = w) \<longleftrightarrow>
        take (length w) (c # cs) = w \<or> (\<exists>n \<le> length cs. take (length w) (drop n cs) = w)"
  proof
    assume "\<exists>n \<le> length (c # cs). take (length w) (drop n (c # cs)) = w"
    then obtain n where "n \<le> length (c # cs)" "take (length w) (drop n (c # cs)) = w" by blast
    then show "take (length w) (c # cs) = w \<or> (\<exists>n \<le> length cs. take (length w) (drop n cs) = w)"
      by (cases n) auto
  next
    assume "take (length w) (c # cs) = w \<or> (\<exists>n \<le> length cs. take (length w) (drop n cs) = w)"
    then show "\<exists>n \<le> length (c # cs). take (length w) (drop n (c # cs)) = w"
      by (metis Suc_le_mono drop_Suc_Cons drop0 le0 length_Cons)
  qed
  then show ?case using Cons.IH by simp
qed

end
