(* ===== verification/Session.thy ===== *)
theory Session
  imports Text
begin

text \<open>
  The browser session manager of \<open>src/playwright_session.py\<close>: the class
  \<open>PlaywrightSessionManager\<close>, whose class attributes are the process-wide
  session. Objects of the automation engine (the Playwright driver, the browser,
  the browsing context, pages, the monitor thread) are modelled by their
  identities, drawn from a counter \<open>next_handle\<close>, so that "the same session"
  and "a fresh session" can be told apart. An automation call that raises is
  chosen by a fault argument, and a method that raises keeps the attribute
  assignments made before the raise, as Python does. The monitor thread is
  modelled by its loop body after each \<open>time.sleep(60)\<close>; the threads that
  are alive are listed in \<open>running_monitors\<close>. Section \<open>Interleaved runs\<close>
  closes the operations under arbitrary interleaving, as the HTTP requests and
  the monitor threads can interleave.
\<close>

section \<open>State\<close>

type_synonym handle = nat

record pw_session =
  playwright :: "handle option"
  browser :: "handle option"
  browser_context :: "handle option"
  page :: "handle option"
  last_used :: instant
  monitor_thread :: "handle option"
  running_monitors :: "handle list"
  next_handle :: nat

definition inactivity_limit :: int where
  "inactivity_limit = seconds 900"

text \<open>The class body: every attribute \<open>None\<close>, \<open>_last_used = time.time()\<close> at import.\<close>

definition initial_session :: "instant \<Rightarrow> pw_session" where
  "initial_session t0 =
     \<lparr>playwright = None, browser = None, browser_context = None, page = None, last_used = t0,
      monitor_thread = None, running_monitors = [], next_handle = 0\<rparr>"

text \<open>
  Which automation call of \<open>start()\<close> raises: \<open>sync_playwright().start()\<close>,
  \<open>firefox.launch\<close>, \<open>browser.new_context\<close>, the context's configuration
  (\<open>set_default_timeout\<close> and \<open>route\<close>, which create no object), or
  \<open>context.new_page\<close>. \<open>NoFault\<close>: none does.
\<close>

datatype start_fault = NoFault | FailEngine | FailLaunch | FailContext | FailConfigure | FailPage

text \<open>The teardown calls of \<open>close()\<close> that raise (each caught and logged).\<close>

datatype teardown = TdContext | TdBrowser | TdPlaywright


section \<open>Operations\<close>

definition is_active :: "pw_session \<Rightarrow> bool" where
  "is_active s \<longleftrightarrow> playwright s \<noteq> None \<and> browser s \<noteq> None \<and> browser_context s \<noteq> None"

text \<open>\<open>_start_monitor\<close>: a thread is created only when \<open>_monitor_thread\<close> is \<open>None\<close>.\<close>

definition start_monitor :: "pw_session \<Rightarrow> pw_session" where
  "start_monitor s =
     (if monitor_thread s = None
      then s\<lparr>monitor_thread := Some (next_handle s),
             running_monitors := running_monitors s @ [next_handle s],
             next_handle := Suc (next_handle s)\<rparr>
      else s)"

text \<open>
  \<open>start()\<close>: returns \<open>cls._page\<close> (\<open>None\<close> is a possible value) or raises.
  A new session is created only when \<open>_playwright is None\<close>.
\<close>

definition start :: "instant \<Rightarrow> start_fault \<Rightarrow> pw_session \<Rightarrow> (exc + handle option) \<times> pw_session" where
  "start now f s =
     (if playwright s = None then
        (if f = FailEngine then (Inl (EngineError ''sync_playwright().start''), s) else
         let n = next_handle s;
             s1 = s\<lparr>playwright := Some n, next_handle := n + 1\<rparr> in
         if f = FailLaunch then (Inl (EngineError ''firefox.launch''), s1) else
         let s2 = s1\<lparr>browser := Some (n + 1), next_handle := n + 2\<rparr> in
         if f = FailContext then (Inl (EngineError ''new_context''), s2) else
         let s3 = s2\<lparr>browser_context := Some (n + 2), next_handle := n + 3\<rparr> in
         if f = FailConfigure then (Inl (EngineError ''context configuration''), s3) else
         if f = FailPage then (Inl (EngineError ''new_page''), s3) else
         let s4 = start_monitor (s3\<lparr>page := Some (n + 3), next_handle := n + 4\<rparr>) in
         (Inr (page s4), s4\<lparr>last_used := now\<rparr>))
      else (Inr (page s), s\<lparr>last_used := now\<rparr>))"

text \<open>
  \<open>get_page(new)\<close>: \<open>start()\<close> when the session is not active (its result is
  dropped, its exception propagates), then the timestamp, then a new page of
  \<open>cls._context\<close> (\<open>AttributeError\<close> when that is \<open>None\<close>) or the shared page.
\<close>

definition get_page :: "instant \<Rightarrow> start_fault \<Rightarrow> bool \<Rightarrow> pw_session \<Rightarrow> (exc + handle option) \<times> pw_session" where
  "get_page now f new s =
     (let (r, s1) = (if \<not> is_active s then start now f s else (Inr (page s), s)) in
      case r of
        Inl e \<Rightarrow> (Inl e, s1)
      | Inr _ \<Rightarrow>
          let s2 = s1\<lparr>last_used := now\<rparr> in
          if new then
            (case browser_context s2 of
               None \<Rightarrow> (Inl (AttributeError ''new_page''), s2)
             | Some _ \<Rightarrow> (Inr (Some (next_handle s2)), s2\<lparr>next_handle := Suc (next_handle s2)\<rparr>))
          else (Inr (page s2), s2))"

text \<open>
  \<open>close()\<close>: each teardown call runs, in its own \<open>try\<close>, only when its handle
  is set, and a raise is caught and logged; the result is the list of teardown
  calls made, in order, each with whether it raised, and the reset state. The
  monitor thread object is forgotten, not stopped.
\<close>

definition close :: "teardown set \<Rightarrow> pw_session \<Rightarrow> (teardown \<times> bool) list \<times> pw_session" where
  "close fails s =
     ((if browser_context s \<noteq> None then [(TdContext, TdContext \<in> fails)] else [])
      @ (if browser s \<noteq> None then [(TdBrowser, TdBrowser \<in> fails)] else [])
      @ (if playwright s \<noteq> None then [(TdPlaywright, TdPlaywright \<in> fails)] else []),
      s\<lparr>playwright := None, browser := None, browser_context := None, page := None,
        monitor_thread := None\<rparr>)"

text \<open>
  \<open>_handle_route(route, request)\<close>, the rule \<open>start()\<close> installs for every
  request of the context (\<open>"**/*"\<close>): abort images, style sheets and fonts and
  every URL that contains \<open>google-analytics\<close> or \<open>doubleclick\<close>; let the
  rest through.
\<close>

datatype route_action = RouteAbort | RouteContinue

definition handle_route :: "string \<Rightarrow> string \<Rightarrow> route_action" where
  "handle_route url tipo =
     (if tipo \<in> {''image'', ''stylesheet'', ''font''} \<or> py_contains ''google-analytics'' url
         \<or> py_contains ''doubleclick'' url
      then RouteAbort else RouteContinue)"

text \<open>
  One pass of the monitor thread \<open>t\<close>'s loop, after \<open>time.sleep(60)\<close>: when
  the session exists and has been idle longer than the limit, the thread closes
  it and leaves its loop (\<open>break\<close>); otherwise it goes on sleeping.
\<close>

definition monitor_tick :: "instant \<Rightarrow> teardown set \<Rightarrow> handle \<Rightarrow> pw_session \<Rightarrow> pw_session" where
  "monitor_tick now fails t s =
     (if t \<in> set (running_monitors s) \<and> playwright s \<noteq> None \<and> now - last_used s > inactivity_limit
      then (snd (close fails s))\<lparr>running_monitors := remove1 t (running_monitors s)\<rparr>
      else s)"

section \<open>Interleaved runs\<close>

text \<open>
  The events that change the session: a call of \<open>start\<close>, \<open>get_page\<close> or
  \<open>close\<close> from the request handler, and a pass of a monitor thread.
\<close>

datatype session_event =
    EvStart instant start_fault
  | EvGetPage instant start_fault bool
  | EvClose "teardown set"
  | EvTick instant "teardown set" handle

fun session_step :: "session_event \<Rightarrow> pw_session \<Rightarrow> pw_session" where
  "session_step (EvStart now f) s = snd (start now f s)"
| "session_step (EvGetPage now f new) s = snd (get_page now f new s)"
| "session_step (EvClose fails) s = snd (close fails s)"
| "session_step (EvTick now fails t) s = monitor_tick now fails t s"

inductive reachable_session :: "pw_session \<Rightarrow> bool" where
  init: "reachable_session (initial_session t0)"
| step: "reachable_session s \<Longrightarrow> reachable_session (session_step e s)"

fun run_session :: "session_event list \<Rightarrow> pw_session \<Rightarrow> pw_session" where
  "run_session [] s = s"
| "run_session (e # es) s = run_session es (session_step e s)"

section \<open>Invariant\<close>

text \<open>
  What the manager keeps true between its attributes: the handles are set in the
  order \<open>start()\<close> creates them, a monitor thread is recorded only with a page,
  a page always has a running monitor thread, and every identity is below the
  counter.
\<close>

fun below :: "handle option \<Rightarrow> nat \<Rightarrow> bool" where
  "below None n = True"
| "below (Some h) n = (h < n)"

definition session_inv :: "pw_session \<Rightarrow> bool" where
  "session_inv s \<longleftrightarrow>
     (browser s \<noteq> None \<longrightarrow> playwright s \<noteq> None) \<and>
     (browser_context s \<noteq> None \<longrightarrow> browser s \<noteq> None) \<and>
     (page s \<noteq> None \<longrightarrow> browser_context s \<noteq> None) \<and>
     (monitor_thread s \<noteq> None \<longrightarrow> page s \<noteq> None) \<and>
     (page s \<noteq> None \<longrightarrow> (\<exists>t. monitor_thread s = Some t \<and> t \<in> set (running_monitors s))) \<and>
     below (playwright s) (next_handle s) \<and> below (browser s) (next_handle s) \<and>
     below (browser_context s) (next_handle s) \<and> below (page s) (next_handle s) \<and>
     list_all (\<lambda>t. t < next_handle s) (running_monitors s)"

declare session_inv_def [inv_simps]

section \<open>Lemmas\<close>

lemma below_mono: "below h n \<Longrightarrow> n \<le> m \<Longrightarrow> below h m"
  by (cases h) auto

lemma session_inv_initial: "session_inv (initial_session t0)"
  by (simp add: session_inv_def initial_session_def)

lemma session_inv_start:
  assumes "session_inv s" shows "session_inv (snd (start now f s))"
  using assms
  by (cases f) (auto simp: session_inv_def start_def start_monitor_def Let_def list_all_iff
      elim: below_mono)

lemma session_inv_close: "session_inv s \<Longrightarrow> session_inv (snd (close fails s))"
  by (simp add: session_inv_def close_def)

lemma session_inv_get_page:
  assumes "session_inv s" shows "session_inv (snd (get_page now f new s))"
proof -
  obtain r s1 where rs: "(if \<not> is_active s then start now f s else (Inr (page s), s)) = (r, s1)"
    by fastforce
  have "session_inv s1"
    using rs assms session_inv_start [OF assms, of now f] by (auto split: if_splits)
  then show ?thesis
    by (auto simp: get_page_def rs session_inv_def list_all_iff Let_def elim: below_mono
        split: sum.splits option.splits)
qed

lemma session_inv_tick: "session_inv s \<Longrightarrow> session_inv (monitor_tick now fails t s)"
  by (auto simp: monitor_tick_def session_inv_def close_def list_all_iff dest: in_set_remove1)


lemmas session_inv_preserved = session_inv_start session_inv_get_page session_inv_close
  session_inv_tick

lemma session_inv_step: "session_inv s \<Longrightarrow> session_inv (session_step e s)"
  by (cases e) (simp_all add: session_inv_start session_inv_get_page session_inv_close session_inv_tick)

lemma reachable_session_inv: "reachable_session s \<Longrightarrow> session_inv s"
proof (induction rule: reachable_session.induct)
  case (init t0)
  show ?case by (rule session_inv_initial)
next
  case (step s e)
  from step.IH show ?case by (rule session_inv_step)
qed

lemma reachable_run_session: "reachable_session s \<Longrightarrow> reachable_session (run_session es s)"
  by (induction es arbitrary: s) (auto intro: reachable_session.step)

lemma start_Inr_playwright:
  "start now f s = (Inr p, s') \<Longrightarrow> playwright s' \<noteq> None"
  by (auto simp: start_def start_monitor_def Let_def split: if_splits)

lemma start_Inr_page: "start now f s = (Inr p, s') \<Longrightarrow> p = page s'"
  by (auto simp: start_def start_monitor_def Let_def split: if_splits)

lemma get_page_Inr_page: "get_page now f False s = (Inr p, s') \<Longrightarrow> p = page s'"
  by (auto simp: get_page_def Let_def split: prod.splits sum.splits if_splits)

lemma start_live: "playwright s \<noteq> None \<Longrightarrow> start now f s = (Inr (page s), s\<lparr>last_used := now\<rparr>)"
  by (simp add: start_def del: not_None_eq)

lemma close_state:
  "snd (close fails s) = s\<lparr>playwright := None, browser := None, browser_context := None, page := None,
                          monitor_thread := None\<rparr>"
  by (simp add: close_def)

section \<open>Properties of the session manager\<close>

text \<open>
  C4. Calling \<open>start()\<close> again after a successful \<open>start()\<close>, with no
  \<open>close()\<close> between, returns the same page and creates no object: the
  driver, browser, context, page and monitor threads stay the same.
\<close>

theorem start_twice_same_session:
  assumes "start now1 f1 s = (Inr p1, s1)" and "start now2 f2 s1 = (r, s2)"
  shows "r = Inr p1 \<and> playwright s2 = playwright s1 \<and> browser s2 = browser s1
         \<and> browser_context s2 = browser_context s1 \<and> page s2 = page s1
         \<and> running_monitors s2 = running_monitors s1 \<and> next_handle s2 = next_handle s1"
proof -
  have "playwright s1 \<noteq> None" using assms(1) by (rule start_Inr_playwright)
  then have "start now2 f2 s1 = (Inr (page s1), s1\<lparr>last_used := now2\<rparr>)" by (rule start_live)
  moreover have "p1 = page s1"
    using assms(1) by (auto simp: start_def start_monitor_def Let_def split: if_splits)
  ultimately show ?thesis using assms(2) by simp
qed

theorem start_twice_same_session_witness:
  "fst (start 7 NoFault (snd (start 3 NoFault (initial_session 0)))) = Inr (Some 3)"
proof -
  have s1: "start 3 NoFault (initial_session 0) = (Inr (Some 3), snd (start 3 NoFault (initial_session 0)))"
    by (simp add: start_def start_monitor_def initial_session_def)
  obtain r s2 where s2: "start 7 NoFault (snd (start 3 NoFault (initial_session 0))) = (r, s2)"
    by fastforce
  from start_twice_same_session [OF s1 s2] s2 show ?thesis by simp
qed

text \<open>
  C5. After \<open>close()\<close> the session is not active, and a following
  \<open>start()\<close> without faults creates a fresh session: active, with a page,
  and with a driver and page other than those of the closed session.
\<close>

theorem close_then_start_fresh:
  assumes "session_inv s"
  shows "\<not> is_active (snd (close fails s))
         \<and> is_active (snd (start now NoFault (snd (close fails s))))
         \<and> fst (start now NoFault (snd (close fails s))) = Inr (page (snd (start now NoFault (snd (close fails s)))))
         \<and> page (snd (start now NoFault (snd (close fails s)))) \<noteq> None
         \<and> playwright (snd (start now NoFault (snd (close fails s)))) \<noteq> playwright s
         \<and> page (snd (start now NoFault (snd (close fails s)))) \<noteq> page s"
proof -
  have b1: "below (playwright s) (next_handle s)" and b4: "below (page s) (next_handle s)"
    using assms by (simp_all add: session_inv_def)
  then show ?thesis
    by (cases "playwright s"; cases "page s")
       (auto simp: close_def start_def start_monitor_def is_active_def Let_def)
qed

theorem close_then_start_fresh_witness:
  "is_active (snd (start 9 NoFault (snd (close {} (snd (start 1 NoFault (initial_session 0)))))))"
proof -
  have "session_inv (snd (start 1 NoFault (initial_session 0)))"
    by (rule session_inv_start [OF session_inv_initial])
  from close_then_start_fresh [OF this, of "{}" 9] show ?thesis by simp
qed


text \<open>
  C6. In every reachable state with a live page, once the session has been idle
  longer than the 900 s limit, a running monitor thread's next pass closes it,
  with no call from the request handler.
\<close>

theorem idle_session_closed_by_monitor:
  assumes "reachable_session s" and "page s \<noteq> None" and "now - last_used s > inactivity_limit"
  shows "\<exists>t \<in> set (running_monitors s).
           \<not> is_active (monitor_tick now fails t s) \<and> page (monitor_tick now fails t s) = None"
proof -
  have inv: "session_inv s" using assms(1) by (rule reachable_session_inv)
  with assms(2) obtain t where t: "monitor_thread s = Some t" "t \<in> set (running_monitors s)"
    by (auto simp: session_inv_def)
  have "playwright s \<noteq> None" using inv assms(2) by (auto simp: session_inv_def)
  with t assms(3) have "\<not> is_active (monitor_tick now fails t s) \<and> page (monitor_tick now fails t s) = None"
    by (simp add: monitor_tick_def close_def is_active_def)
  with t show ?thesis by blast
qed

theorem idle_session_closed_by_monitor_witness:
  "\<not> is_active (monitor_tick (seconds 1000) {} 4 (snd (start 0 NoFault (initial_session 0))))"
proof -
  let ?s = "snd (start 0 NoFault (initial_session 0))"
  have r: "reachable_session ?s"
    using reachable_session.step [OF reachable_session.init, of "EvStart 0 NoFault" 0] by simp
  have p: "page ?s \<noteq> None" and i: "seconds 1000 - last_used ?s > inactivity_limit"
    and rm: "running_monitors ?s = [4]"
    by (simp_all add: start_def start_monitor_def initial_session_def inactivity_limit_def seconds_def)
  from idle_session_closed_by_monitor [OF r p i, of "{}"] rm show ?thesis by simp
qed


text \<open>
  C9. In every state reachable by interleaving the manager's methods and the
  monitor passes, the handles are set in creation order (browser only with a
  driver, context only with a browser) and a set page means an active session
  with a monitor thread.
\<close>

theorem reachable_handles_ordered:
  assumes "reachable_session s"
  shows "(browser s \<noteq> None \<longrightarrow> playwright s \<noteq> None)
         \<and> (browser_context s \<noteq> None \<longrightarrow> browser s \<noteq> None)
         \<and> (page s \<noteq> None \<longrightarrow> is_active s \<and> monitor_thread s \<noteq> None)"
  using reachable_session_inv [OF assms] by (auto simp: session_inv_def is_active_def)

theorem reachable_handles_ordered_witness:
  "is_active (snd (start 0 NoFault (initial_session 0)))"
proof -
  let ?s = "snd (start 0 NoFault (initial_session 0))"
  have r: "reachable_session ?s"
    using reachable_session.step [OF reachable_session.init, of "EvStart 0 NoFault" 0] by simp
  have "page ?s \<noteq> None" by (simp add: start_def start_monitor_def initial_session_def)
  with reachable_handles_ordered [OF r] show ?thesis by simp
qed

lemma start_fail_launch:
  "playwright s = None \<Longrightarrow>
   start now FailLaunch s =
     (Inl (EngineError ''firefox.launch''), s\<lparr>playwright := Some (next_handle s), next_handle := Suc (next_handle s)\<rparr>)"
  by (simp add: start_def Let_def)

text \<open>
  C10. A \<open>start()\<close> whose browser launch raises leaves a partial session: the
  driver is set, the session is not active, and later \<open>start()\<close> and
  \<open>get_page()\<close> calls reuse it and hand out \<open>None\<close> as the page (or
  raise \<open>AttributeError\<close> for a new page) without starting a monitor.
\<close>

theorem failed_launch_partial_session:
  assumes "session_inv s" and "playwright s = None"
  shows "\<not> is_active (snd (start now FailLaunch s)) \<and> playwright (snd (start now FailLaunch s)) \<noteq> None
         \<and> fst (start now' f (snd (start now FailLaunch s))) = Inr None
         \<and> fst (get_page now' f False (snd (start now FailLaunch s))) = Inr None
         \<and> fst (get_page now' f True (snd (start now FailLaunch s))) = Inl (AttributeError ''new_page'')
         \<and> running_monitors (snd (start now' f (snd (start now FailLaunch s)))) = running_monitors s"
proof -
  have "browser s = None" "browser_context s = None" "page s = None"
    using assms by (auto simp: session_inv_def)
  with assms(2) show ?thesis
    by (simp add: start_fail_launch start_live get_page_def is_active_def del: not_None_eq)
qed

theorem failed_launch_partial_session_witness:
  "fst (get_page 5 NoFault False (snd (start 0 FailLaunch (initial_session 0)))) = Inr None"
  using failed_launch_partial_session [OF session_inv_initial, of 0 0 5 NoFault]
  by (simp add: initial_session_def)

text \<open>
  C11. \<open>close()\<close> forgets the monitor thread without stopping it: from any
  consistent session with a monitor thread \<open>t\<close>, a \<open>close()\<close> and a new
  \<open>start()\<close> give an active session with a second monitor thread while
  \<open>t\<close> still runs, and once the new session has been idle past the limit
  the pass of the old thread \<open>t\<close> closes it.
\<close>

theorem restart_after_close_leaks_monitor:
  assumes "session_inv s" and "monitor_thread s = Some t"
    and "s2 = snd (start now NoFault (snd (close fails s)))" and "now' - now > inactivity_limit"
  shows "is_active s2 \<and> t \<in> set (running_monitors s2)
         \<and> (\<exists>t'. monitor_thread s2 = Some t' \<and> t' \<noteq> t \<and> t' \<in> set (running_monitors s2))
         \<and> \<not> is_active (monitor_tick now' fails' t s2) \<and> page (monitor_tick now' fails' t s2) = None"
proof -
  have "t \<in> set (running_monitors s)" and "t < next_handle s"
    using assms(1,2) by (auto simp: session_inv_def list_all_iff)
  then show ?thesis
    using assms(3,4)
    by (simp add: start_def start_monitor_def close_def monitor_tick_def is_active_def Let_def)
qed

theorem restart_after_close_leaks_monitor_witness:
  "\<not> is_active (monitor_tick (seconds 1000) {} 4
       (snd (start (seconds 1) NoFault (snd (close {} (snd (start 0 NoFault (initial_session 0))))))))"
proof -
  let ?s = "snd (start 0 NoFault (initial_session 0))"
  have "session_inv ?s" by (rule session_inv_start [OF session_inv_initial])
  moreover have "monitor_thread ?s = Some 4" by (simp add: start_def start_monitor_def initial_session_def)
  moreover have "seconds 1000 - seconds 1 > inactivity_limit" by (simp add: inactivity_limit_def seconds_def)
  ultimately show ?thesis using restart_after_close_leaks_monitor by blast
qed

end
