(* ===== verification/Regex.thy ===== *)
theory Regex
  imports Text
begin

text \<open>
  The regular expressions of \<open>src/proxy_ma.py\<close> are run by Python's \<open>re\<close>, a
  backtracking matcher: at a position it tries the alternatives of the pattern in
  a fixed priority order (greedy repetitions longest first, lazy ones shortest
  first, the left branch of an alternative first) and takes the first that
  matches the whole pattern. A pattern is modelled by the list of all its
  matches at the start of a string, in that priority order, each with the value
  its groups capture and the rest of the input; \<open>rx_match\<close> takes the first,
  as \<open>re.match\<close> does. \<open>rx_search\<close> and \<open>rx_sub\<close> are \<open>re.search\<close> and
  \<open>re.sub\<close> (with a constant replacement) over it. The combinators cover the
  syntax the code uses: literals, character classes repeated \<open>{m,n}\<close> greedily
  or lazily, optional parts, alternatives of literals, groups repeated
  \<open>{m,}\<close>, and the end of the input.
\<close>

section \<open>Patterns\<close>

type_synonym 'a rx = "string \<Rightarrow> ('a \<times> string) list"

definition rx_ret :: "'a \<Rightarrow> 'a rx" where
  "rx_ret a s = [(a, s)]"

definition rx_then :: "'a rx \<Rightarrow> ('a \<Rightarrow> 'b rx) \<Rightarrow> 'b rx" where
  "rx_then p q s = concat (map (\<lambda>(a, r). q a r) (p s))"

definition rx_alt :: "'a rx \<Rightarrow> 'a rx \<Rightarrow> 'a rx" where
  "rx_alt p q s = p s @ q s"

text \<open>\<open>(...)?\<close>: greedy, so the part is tried before its absence.\<close>

definition rx_opt :: "'a rx \<Rightarrow> 'a option rx" where
  "rx_opt p s = map (\<lambda>(a, r). (Some a, r)) (p s) @ [(None, s)]"

definition rx_lit :: "string \<Rightarrow> string rx" where
  "rx_lit w s = (if take (length w) s = w then [(w, drop (length w) s)] else [])"

text \<open>
  A character class repeated \<open>{m,n}\<close> (\<open>n = None\<close> for no upper bound):
  greedy, longest run first; and lazy (\<open>*?\<close>), shortest first.
\<close>

definition rx_rep :: "(char \<Rightarrow> bool) \<Rightarrow> nat \<Rightarrow> nat option \<Rightarrow> string rx" where
  "rx_rep P m n s =
     (let w = takeWhile P s;
          hi = (case n of None \<Rightarrow> length w | Some k \<Rightarrow> min k (length w))
      in map (\<lambda>k. (take k s, drop k s)) (rev [m..<Suc hi]))"

definition rx_rep_lazy :: "(char \<Rightarrow> bool) \<Rightarrow> nat \<Rightarrow> nat option \<Rightarrow> string rx" where
  "rx_rep_lazy P m n s =
     (let w = takeWhile P s;
          hi = (case n of None \<Rightarrow> length w | Some k \<Rightarrow> min k (length w))
      in map (\<lambda>k. (take k s, drop k s)) [m..<Suc hi])"

definition rx_eos :: "unit rx" where
  "rx_eos s = (if s = [] then [((), [])] else [])"

text \<open>
  A group repeated greedily any number of times: one more iteration is tried
  before stopping. An iteration that consumes nothing ends the repetition, as
  in \<open>re\<close>.
\<close>

function rx_star :: "'a rx \<Rightarrow> 'a list rx" where
  "rx_star p s =
     concat (map (\<lambda>(a, r). map (\<lambda>(as, r'). (a # as, r')) (rx_star p r))
                 (filter (\<lambda>(a, r). length r < length s) (p s)))
     @ [([], s)]"
  by pat_completeness auto
termination
  by (relation "measure (\<lambda>(p, s). length s)") auto

declare rx_star.simps [simp del]

text \<open>A group repeated \<open>{m,}\<close>.\<close>

definition rx_star_min :: "nat \<Rightarrow> 'a rx \<Rightarrow> 'a list rx" where
  "rx_star_min m p s = filter (\<lambda>(as, r). m \<le> length as) (rx_star p s)"

section \<open>Matching, searching, substituting\<close>

text \<open>\<open>re.match\<close>: the first match at the start of the string.\<close>

definition rx_match :: "'a rx \<Rightarrow> string \<Rightarrow> ('a \<times> string) option" where
  "rx_match p s = (case p s of [] \<Rightarrow> None | x # _ \<Rightarrow> Some x)"

text \<open>\<open>re.search\<close>: the first match at the leftmost position that has one.\<close>

fun rx_search :: "'a rx \<Rightarrow> string \<Rightarrow> 'a option" where
  "rx_search p [] = map_option fst (rx_match p [])"
| "rx_search p (c # cs) =
     (case rx_match p (c # cs) of Some (a, _) \<Rightarrow> Some a | None \<Rightarrow> rx_search p cs)"

text \<open>
  \<open>re.sub(pattern, repl, s)\<close> with a constant \<open>repl\<close>: left to right, each match
  replaced and scanning resumed after it; an empty match is replaced and the
  next character copied.
\<close>

function rx_sub :: "'a rx \<Rightarrow> string \<Rightarrow> string \<Rightarrow> string" where
  "rx_sub p repl s =
     (case rx_match p s of
        None \<Rightarrow> (case s of [] \<Rightarrow> [] | c # cs \<Rightarrow> c # rx_sub p repl cs)
      | Some (_, r) \<Rightarrow>
          if length r < length s then repl @ rx_sub p repl r
          else (case s of [] \<Rightarrow> repl | c # cs \<Rightarrow> repl @ c # rx_sub p repl cs))"
  by pat_completeness auto
termination
  by (relation "measure (\<lambda>(p, repl, s). length s)") auto

declare rx_sub.simps [simp del]

section \<open>Lemmas on patterns\<close>

lemma rx_then_set [simp]: "x \<in> set (rx_then p q s) \<longleftrightarrow> (\<exists>a r. (a, r) \<in> set (p s) \<and> x \<in> set (q a r))"
  by (auto simp: rx_then_def)

lemma rx_ret_set [simp]: "x \<in> set (rx_ret a s) \<longleftrightarrow> x = (a, s)"
  by (simp add: rx_ret_def)

lemma rx_alt_set [simp]: "x \<in> set (rx_alt p q s) \<longleftrightarrow> x \<in> set (p s) \<or> x \<in> set (q s)"
  by (simp add: rx_alt_def)

lemma rx_opt_set [simp]:
  "(b, r) \<in> set (rx_opt p s) \<longleftrightarrow> (\<exists>a. b = Some a \<and> (a, r) \<in> set (p s)) \<or> (b = None \<and> r = s)"
  by (auto simp: rx_opt_def)

lemma rx_lit_set [simp]: "(w', r) \<in> set (rx_lit w s) \<longleftrightarrow> w' = w \<and> s = w @ r"
  by (auto simp: rx_lit_def) (metis append_take_drop_id)

lemma takeWhile_prefix_length:
  "list_all P w \<Longrightarrow> s = w @ r \<Longrightarrow> length w \<le> length (takeWhile P s)"
  by (induction w arbitrary: s) (auto simp: list_all_iff)

lemma rx_rep_set_index:
  "x \<in> set (rx_rep P m n s) \<longleftrightarrow>
     (\<exists>k. m \<le> k \<and> k \<le> length (takeWhile P s) \<and> (case n of None \<Rightarrow> True | Some j \<Rightarrow> k \<le> j)
          \<and> x = (take k s, drop k s))"
  by (auto simp: rx_rep_def Let_def image_iff less_Suc_eq_le simp del: upt_Suc split: option.splits)

lemma list_all_take_takeWhile: "k \<le> length (takeWhile P s) \<Longrightarrow> list_all P (take k s)"
proof (induction s arbitrary: k)
  case Nil
  then show ?case by simp
next
  case (Cons c cs)
  then show ?case by (cases k) (auto split: if_splits)
qed
  
lemma rx_rep_set [simp]:
  "(w, r) \<in> set (rx_rep P m n s) \<longleftrightarrow>
     s = w @ r \<and> list_all P w \<and> m \<le> length w \<and> (case n of None \<Rightarrow> True | Some k \<Rightarrow> length w \<le> k)"
proof
  assume "(w, r) \<in> set (rx_rep P m n s)"
  then obtain k where k: "m \<le> k" "k \<le> length (takeWhile P s)"
      "case n of None \<Rightarrow> True | Some j \<Rightarrow> k \<le> j" and w: "w = take k s" "r = drop k s"
    unfolding rx_rep_set_index by blast
  have "k \<le> length s" using k(2) length_takeWhile_le order_trans by blast
  with k w list_all_take_takeWhile [OF k(2)] show "s = w @ r \<and> list_all P w \<and> m \<le> length w
      \<and> (case n of None \<Rightarrow> True | Some k \<Rightarrow> length w \<le> k)"
    by (auto split: option.splits)
next
  assume a: "s = w @ r \<and> list_all P w \<and> m \<le> length w \<and> (case n of None \<Rightarrow> True | Some k \<Rightarrow> length w \<le> k)"
  then have "length w \<le> length (takeWhile P s)" by (blast intro: takeWhile_prefix_length)
  with a show "(w, r) \<in> set (rx_rep P m n s)"
    unfolding rx_rep_set_index by (intro exI [of _ "length w"]) auto
qed

lemma rx_match_Some: "rx_match p s = Some x \<Longrightarrow> x \<in> set (p s)"
  by (auto simp: rx_match_def split: list.splits)

lemma rx_match_None [simp]: "rx_match p s = None \<longleftrightarrow> p s = []"
  by (simp add: rx_match_def split: list.splits)

lemma all_drop_Cons:
  "(\<forall>n \<le> length (c # cs). P (drop n (c # cs))) \<longleftrightarrow> P (c # cs) \<and> (\<forall>n \<le> length cs. P (drop n cs))"
proof
  assume a: "\<forall>n \<le> length (c # cs). P (drop n (c # cs))"
  have "P (drop 0 (c # cs))" using a by blast
  moreover have "P (drop n cs)" if "n \<le> length cs" for n
    using a that by (metis Suc_le_mono drop_Suc_Cons length_Cons)
  ultimately show "P (c # cs) \<and> (\<forall>n \<le> length cs. P (drop n cs))" by simp
next
  assume a: "P (c # cs) \<and> (\<forall>n \<le> length cs. P (drop n cs))"
  show "\<forall>n \<le> length (c # cs). P (drop n (c # cs))"
  proof (intro allI impI)
    fix n assume "n \<le> length (c # cs)"
    with a show "P (drop n (c # cs))" by (cases n) auto
  qed
qed

lemma rx_search_None:
  "rx_search p s = None \<longleftrightarrow> (\<forall>n \<le> length s. p (drop n s) = [])"
proof (induction s)
  case Nil
  then show ?case by (simp add: rx_match_def split: list.splits)
next
  case (Cons c cs)
  then show ?case
    by (simp only: all_drop_Cons [where P = "\<lambda>x. p x = []"]) (auto simp: rx_match_def split: option.splits list.splits)
qed

lemma rx_search_Some:
  "rx_search p s = Some a \<Longrightarrow>
   \<exists>n r. n \<le> length s \<and> rx_match p (drop n s) = Some (a, r) \<and> (\<forall>k < n. p (drop k s) = [])"
proof (induction s)
  case Nil
  then show ?case by auto
next
  case (Cons c cs)
  show ?case
  proof (cases "rx_match p (c # cs)")
    case (Some x)
    with Cons.prems show ?thesis by (intro exI [of _ 0]) (auto split: prod.splits)
  next
    case None
    with Cons.prems have "rx_search p cs = Some a" by simp
    then obtain n r where "n \<le> length cs" "rx_match p (drop n cs) = Some (a, r)"
        "\<forall>k < n. p (drop k cs) = []"
      using Cons.IH by blast
    with None show ?thesis
      by (intro exI [of _ "Suc n"] exI [of _ r]) (auto simp: less_Suc_eq_0_disj)
  qed
qed

lemma rx_search_match: "rx_search p s = Some a \<Longrightarrow> \<exists>n r. n \<le> length s \<and> (a, r) \<in> set (p (drop n s))"
  by (blast dest: rx_search_Some rx_match_Some)

lemma rx_search_lit: "rx_search (rx_lit w) s = None \<longleftrightarrow> \<not> py_contains w s"
  by (simp add: rx_search_None py_contains_drop rx_lit_def) blast

lemma rx_search_then_lit:
  "\<not> py_contains w s \<Longrightarrow> rx_search (rx_then (rx_lit w) q) s = None"
  by (simp add: rx_search_None py_contains_drop rx_then_def rx_lit_def)

end
