(* ===== verification/Extractors.thy ===== *)
theory Extractors
  imports Regex
begin

text \<open>
  The extraction pipeline of \<open>src/proxy_ma.py\<close>: the pure transforms from the
  site's markup and AJAX payloads to the records sent to the tagging client.
  Each regular expression of the code is a pattern of theory \<open>Regex\<close>, named
  after its use and written in the order of its syntax; the transforms call
  them through \<open>rx_search\<close>, \<open>rx_match\<close> and \<open>rx_sub\<close> as the code calls
  \<open>re.search\<close>, \<open>re.match\<close> and \<open>re.sub\<close>.
\<close>

section \<open>Patterns of the code\<close>

abbreviation rx_digits :: "nat \<Rightarrow> nat option \<Rightarrow> string rx" where
  "rx_digits m n \<equiv> rx_rep py_isdigit m n"

abbreviation rx_spaces :: "nat \<Rightarrow> string rx" where
  "rx_spaces m \<equiv> rx_rep py_isspace m None"

text \<open>\<open>(\d{2})\s+(\d{1,2})(?:st|nd|rd|th)?,?\s*(\d{4})\<close>, line 570.\<close>

definition rx_full_date :: "(string \<times> string \<times> string) rx" where
  "rx_full_date =
     rx_then (rx_digits 2 (Some 2)) (\<lambda>mm.
     rx_then (rx_spaces 1) (\<lambda>_.
     rx_then (rx_digits 1 (Some 2)) (\<lambda>dd.
     rx_then (rx_opt (rx_alt (rx_lit ''st'') (rx_alt (rx_lit ''nd'') (rx_alt (rx_lit ''rd'') (rx_lit ''th''))))) (\<lambda>_.
     rx_then (rx_opt (rx_lit '','')) (\<lambda>_.
     rx_then (rx_spaces 0) (\<lambda>_.
     rx_then (rx_digits 4 (Some 4)) (\<lambda>yyyy.
     rx_ret (mm, dd, yyyy))))))))"

text \<open>\<open>(\d{2}),?\s*(\d{4})\<close>, line 575.\<close>

definition rx_month_year :: "(string \<times> string) rx" where
  "rx_month_year =
     rx_then (rx_digits 2 (Some 2)) (\<lambda>mm.
     rx_then (rx_opt (rx_lit '','')) (\<lambda>_.
     rx_then (rx_spaces 0) (\<lambda>_.
     rx_then (rx_digits 4 (Some 4)) (\<lambda>yyyy.
     rx_ret (mm, yyyy)))))"

text \<open>
  \<open>(\d{4})$\<close>, the pattern of line 580 after its \<open>^\<close>: \<open>re.search\<close> with a
  leading \<open>^\<close> only matches at the start, as \<open>rx_match\<close> does. \<open>$\<close> matches at
  the end or before a final newline.
\<close>

definition rx_dollar :: "unit rx" where
  "rx_dollar s = (if s = [] \<or> s = [CHR ''\<newline>''] then [((), s)] else [])"

definition rx_year_only :: "string rx" where
  "rx_year_only = rx_then (rx_digits 4 (Some 4)) (\<lambda>yyyy. rx_then rx_dollar (\<lambda>_. rx_ret yyyy))"

section \<open>Dates\<close>

text \<open>The \<open>months\<close> dictionary of \<open>format_date\<close>, in its insertion order.\<close>

definition months :: "(string \<times> string) list" where
  "months =
     [(''January'', ''01''), (''February'', ''02''), (''March'', ''03''), (''April'', ''04''),
      (''May'', ''05''), (''June'', ''06''), (''July'', ''07''), (''August'', ''08''),
      (''September'', ''09''), (''October'', ''10''), (''November'', ''11''), (''December'', ''12'')]"

definition replace_months :: "string \<Rightarrow> string" where
  "replace_months s = fold (\<lambda>(month, number) acc. py_replace month number acc) months s"

definition format_date :: "string \<Rightarrow> string" where
  "format_date release_date_raw =
     (let s = replace_months (py_strip release_date_raw) in
      case rx_search rx_full_date s of
        Some (mm, dd, yyyy) \<Rightarrow> yyyy @ ''-'' @ mm @ ''-'' @ py_zfill 2 dd
      | None \<Rightarrow>
          (case rx_search rx_month_year s of
             Some (mm, yyyy) \<Rightarrow> yyyy @ ''-'' @ mm @ ''-01''
           | None \<Rightarrow>
               (case rx_match rx_year_only s of
                  Some (yyyy, _) \<Rightarrow> yyyy @ ''-01-01''
                | None \<Rightarrow> [])))"

section \<open>Search results\<close>

text \<open>\<open><.*?>\<close>, line 144: a tag, lazily up to the first \<open>>\<close> on the same line.\<close>

definition rx_tag :: "string rx" where
  "rx_tag =
     rx_then (rx_lit ''<'') (\<lambda>_.
     rx_then (rx_rep_lazy (\<lambda>c. c \<noteq> CHR ''\<newline>'') 0 None) (\<lambda>_.
     rx_lit ''>''))"

text \<open>\<open>href="([^"]+)">([^<]+)\<close>, lines 147 and 331.\<close>

definition rx_href :: "(string \<times> string) rx" where
  "rx_href =
     rx_then (rx_lit ''href=\"'') (\<lambda>_.
     rx_then (rx_rep (\<lambda>c. c \<noteq> CHR ''\"'') 1 None) (\<lambda>url.
     rx_then (rx_lit ''\">'') (\<lambda>_.
     rx_then (rx_rep (\<lambda>c. c \<noteq> CHR ''<'') 1 None) (\<lambda>text.
     rx_ret (url, text)))))"

text \<open>\<open><!--\s*(\d{4}-\d{2}-\d{2})\s*-->\<close>, line 153.\<close>

definition rx_date_comment :: "string rx" where
  "rx_date_comment =
     rx_then (rx_lit ''<!--'') (\<lambda>_.
     rx_then (rx_spaces 0) (\<lambda>_.
     rx_then (rx_digits 4 (Some 4)) (\<lambda>y.
     rx_then (rx_lit ''-'') (\<lambda>_.
     rx_then (rx_digits 2 (Some 2)) (\<lambda>m.
     rx_then (rx_lit ''-'') (\<lambda>_.
     rx_then (rx_digits 2 (Some 2)) (\<lambda>d.
     rx_then (rx_spaces 0) (\<lambda>_.
     rx_then (rx_lit ''-->'') (\<lambda>_.
     rx_ret (y @ ''-'' @ m @ ''-'' @ d))))))))))"

text \<open>
  \<open>f"http://localhost:{PORT}/<route>?url={quote(url)}"\<close>: the link that sends
  the tagging client back through the proxy; \<open>PORT = 5000\<close> as the f-string
  renders it.
\<close>

definition PORT :: string where
  "PORT = ''5000''"

definition proxy_link :: "string \<Rightarrow> string \<Rightarrow> string" where
  "proxy_link route u = ''http://localhost:'' @ PORT @ ''/'' @ route @ ''?url='' @ url_quote u"

text \<open>
  Cells of an AJAX row: \<open>row[i]\<close> raises \<open>IndexError\<close> past the end; \<open>re\<close>
  functions raise \<open>TypeError\<close> on a cell that is not a string, \<open>.strip()\<close>
  raises \<open>AttributeError\<close>.
\<close>

definition py_index :: "json list \<Rightarrow> nat \<Rightarrow> exc + json" where
  "py_index cells i = (if i < length cells then Inr (cells ! i) else Inl (IndexError ''list index out of range''))"

fun cell_text :: "json \<Rightarrow> exc + string" where
  "cell_text (JStr s) = Inr s"
| "cell_text _ = Inl (TypeError ''expected string or bytes-like object'')"

fun cell_strip :: "json \<Rightarrow> exc + string" where
  "cell_strip (JStr s) = Inr (py_strip s)"
| "cell_strip _ = Inl (AttributeError ''strip'')"

definition cell :: "(json \<Rightarrow> exc + 'a) \<Rightarrow> json list \<Rightarrow> nat \<Rightarrow> exc + 'a" where
  "cell f cells i = (case py_index cells i of Inl e \<Rightarrow> Inl e | Inr v \<Rightarrow> f v)"

text \<open>The body of the loop of \<open>search_albums\<close> (lines 143-162) for a row of four or more cells.\<close>

definition album_row :: "string \<Rightarrow> json list \<Rightarrow> exc + json" where
  "album_row route row =
     (case cell cell_text row 0 of Inl e \<Rightarrow> Inl e | Inr artist_html \<Rightarrow>
      case cell cell_text row 1 of Inl e \<Rightarrow> Inl e | Inr album_html \<Rightarrow>
      case cell cell_strip row 2 of Inl e \<Rightarrow> Inl e | Inr release_type \<Rightarrow>
      case cell cell_text row 3 of Inl e \<Rightarrow> Inl e | Inr release_date_raw \<Rightarrow>
      let artist_text = py_strip (rx_sub rx_tag [] artist_html);
          (album_url, album_title) =
            (case rx_search rx_href album_html of Some m \<Rightarrow> m | None \<Rightarrow> ([], []));
          release_year =
            (case rx_search rx_date_comment release_date_raw of
               Some d \<Rightarrow> d | None \<Rightarrow> py_strip release_date_raw)
      in Inr (JObj [(''artist'', JStr artist_text), (''album'', JStr album_title),
                    (''metal_archives_album_url'', JStr (proxy_link route album_url)),
                    (''metal_archives_type'', JStr release_type), (''year'', JStr release_year)]))"

text \<open>
  The loop over \<open>response_data["aaData"]\<close> of \<open>search_albums\<close> (route
  \<open>album\<close>) and \<open>search_albums_with_info\<close> (route \<open>album_full\<close>, lines
  461-484): rows of fewer than four cells are skipped, the first exception ends
  the loop. A row that is not a list is a \<open>TypeError\<close> (the site sends lists).
\<close>

fun album_rows :: "string \<Rightarrow> json list \<Rightarrow> exc + json list" where
  "album_rows route [] = Inr []"
| "album_rows route (JArr row # rows) =
     (if length row < 4 then album_rows route rows
      else case album_row route row of
             Inl e \<Rightarrow> Inl e
           | Inr r \<Rightarrow> (case album_rows route rows of Inl e \<Rightarrow> Inl e | Inr rs \<Rightarrow> Inr (r # rs)))"
| "album_rows route (_ # rows) = Inl (TypeError ''object of this type has no len()'')"

text \<open>The loop of \<open>search_artists\<close> (lines 326-343): no length check.\<close>

definition artist_row :: "json list \<Rightarrow> exc + json" where
  "artist_row row =
     (case cell cell_text row 0 of Inl e \<Rightarrow> Inl e | Inr artist_html \<Rightarrow>
      let (artist_url, artist_name) =
            (case rx_search rx_href artist_html of Some m \<Rightarrow> m | None \<Rightarrow> ([], [])) in
      case cell cell_strip row 1 of Inl e \<Rightarrow> Inl e | Inr artist_genres \<Rightarrow>
      case cell cell_strip row 2 of Inl e \<Rightarrow> Inl e | Inr artist_country \<Rightarrow>
      Inr (JObj [(''artist'', JStr artist_name), (''artist_genres'', JStr artist_genres),
                 (''metal_archives_artist_url'', JStr (proxy_link ''artist_info'' artist_url)),
                 (''country'', JStr artist_country)]))"

fun artist_rows :: "json list \<Rightarrow> exc + json list" where
  "artist_rows [] = Inr []"
| "artist_rows (JArr row # rows) =
     (case artist_row row of
        Inl e \<Rightarrow> Inl e
      | Inr r \<Rightarrow> (case artist_rows rows of Inl e \<Rightarrow> Inl e | Inr rs \<Rightarrow> Inr (r # rs)))"
| "artist_rows (_ # rows) = Inl (TypeError ''object is not subscriptable'')"

section \<open>Output shape\<close>

fun is_jstr :: "json \<Rightarrow> bool" where
  "is_jstr (JStr _) = True"
| "is_jstr _ = False"

definition iso_date_shape :: "string \<Rightarrow> bool" where
  "iso_date_shape d \<longleftrightarrow>
     length d = 10 \<and> d ! 4 = CHR ''-'' \<and> d ! 7 = CHR ''-''
     \<and> list_all py_isdigit (take 4 d) \<and> list_all py_isdigit (take 2 (drop 5 d))
     \<and> list_all py_isdigit (drop 8 d)"

section \<open>Lemmas on the date patterns\<close>

lemma rx_full_date_set:
  assumes "((mm, dd, yyyy), r) \<in> set (rx_full_date s)"
  shows "length mm = 2 \<and> list_all py_isdigit mm \<and> 1 \<le> length dd \<and> length dd \<le> 2
         \<and> list_all py_isdigit dd \<and> length yyyy = 4 \<and> list_all py_isdigit yyyy
         \<and> length r + 8 \<le> length s"
  using assms by (auto simp: rx_full_date_def)

lemma rx_month_year_set:
  assumes "((mm, yyyy), r) \<in> set (rx_month_year s)"
  shows "length mm = 2 \<and> list_all py_isdigit mm \<and> length yyyy = 4 \<and> list_all py_isdigit yyyy
         \<and> length r + 6 \<le> length s"
  using assms by (auto simp: rx_month_year_def)

lemma rx_year_only_set:
  assumes "(yyyy, r) \<in> set (rx_year_only s)"
  shows "length yyyy = 4 \<and> list_all py_isdigit yyyy"
  using assms by (auto simp: rx_year_only_def rx_dollar_def split: if_splits)

lemma py_zfill_two_digits:
  assumes "1 \<le> length dd" "length dd \<le> 2" "list_all py_isdigit dd"
  shows "length (py_zfill 2 dd) = 2 \<and> list_all py_isdigit (py_zfill 2 dd)"
proof (cases "length dd = 2")
  case True
  then show ?thesis using assms by (simp add: py_zfill_def)
next
  case False
  with assms have "length dd = 1" by simp
  with assms(3) obtain c where dd: "dd = [c]" "py_isdigit c"
    by (auto simp: length_Suc_conv)
  have "c \<noteq> CHR ''+'' \<and> c \<noteq> CHR ''-''" using dd(2) by (auto simp: py_isdigit_def)
  with dd show ?thesis by (simp add: py_zfill_def py_isdigit_def)
qed

lemma py_replace_absent:
  "old \<noteq> [] \<Longrightarrow> hd old \<notin> set s \<Longrightarrow> py_replace old new s = s"
proof (induction old new s rule: py_replace.induct)
  case (1 old new s)
  show ?case
  proof (cases s)
    case Nil
    then show ?thesis by (simp add: py_replace.simps)
  next
    case (Cons c cs)
    have "take (length old) s \<noteq> old"
      using "1.prems" Cons by (cases old) auto
    with "1.IH"(2) "1.prems" Cons show ?thesis
      by (subst py_replace.simps) auto
  qed
qed

lemma fold_replace_id:
  "(\<And>m n. (m, n) \<in> set ms \<Longrightarrow> py_replace m n s = s) \<Longrightarrow>
   fold (\<lambda>(m, n) acc. py_replace m n acc) ms s = s"
  by (induction ms) auto

lemma dropWhile_none: "list_all (\<lambda>c. \<not> P c) s \<Longrightarrow> dropWhile P s = s"
  by (induction s) auto

lemma replace_months_digits: "list_all py_isdigit s \<Longrightarrow> replace_months s = s"
proof -
  assume d: "list_all py_isdigit s"
  have "py_replace month number s = s" if "(month, number) \<in> set months" for month number
  proof (rule py_replace_absent)
    show "month \<noteq> []" using that by (auto simp: months_def)
    have "\<not> py_isdigit (hd month)" using that by (auto simp: months_def py_isdigit_def)
    with d show "hd month \<notin> set s" by (auto simp: list_all_iff)
  qed
  then show ?thesis
    unfolding replace_months_def by (intro fold_replace_id) auto
qed

lemma py_strip_digits: "list_all py_isdigit s \<Longrightarrow> py_strip s = s"
proof -
  assume d: "list_all py_isdigit s"
  have "list_all (\<lambda>c. \<not> py_isspace c) s"
    using d by (auto simp: list_all_iff py_isdigit_def py_isspace_def Let_def)
  then show ?thesis by (simp add: py_strip_def dropWhile_none list_all_rev)
qed

lemma rx_search_too_short:
  assumes "\<And>s a r. (a, r) \<in> set (p s) \<Longrightarrow> length r + k \<le> length s" and "length s < k"
  shows "rx_search p s = None"
proof -
  have "p (drop n s) = []" if "n \<le> length s" for n
  proof (rule ccontr)
    assume "p (drop n s) \<noteq> []"
    then obtain a r where "(a, r) \<in> set (p (drop n s))" by (metis list.set_intros(1) neq_Nil_conv surj_pair)
    from assms(1) [OF this] assms(2) show False by simp
  qed
  then show ?thesis by (simp add: rx_search_None)
qed

section \<open>Properties of the date normaliser\<close>

text \<open>
  \<open>format_date\<close> on the spec's examples: a full date, a month and year,
  a bare year and an unparseable text. It does not check ranges: a month or
  day out of range passes through unchanged.
\<close>

theorem format_date_examples:
  "format_date ''July 23rd, 2002'' = ''2002-07-23''
   \<and> format_date ''July, 2002'' = ''2002-07-01''
   \<and> format_date ''2002'' = ''2002-01-01''
   \<and> format_date ''sometime'' = []
   \<and> format_date '' June 6th, 2000 '' = ''2000-06-06''
   \<and> format_date ''99 99th, 2002'' = ''2002-99-99''"
  by code_simp

lemma format_date_iso_or_empty: "format_date s = [] \<or> iso_date_shape (format_date s)"
proof -
  let ?s = "replace_months (py_strip s)"
  show ?thesis
  proof (cases "rx_search rx_full_date ?s")
    case (Some x)
    obtain mm dd yyyy where x: "x = (mm, dd, yyyy)" by (cases x) auto
    with Some have "rx_search rx_full_date ?s = Some (mm, dd, yyyy)" by simp
    then obtain n r where "((mm, dd, yyyy), r) \<in> set (rx_full_date (drop n ?s))"
      by (blast dest: rx_search_match)
    then have f: "length mm = 2 \<and> list_all py_isdigit mm \<and> 1 \<le> length dd \<and> length dd \<le> 2
         \<and> list_all py_isdigit dd \<and> length yyyy = 4 \<and> list_all py_isdigit yyyy"
      by (blast dest: rx_full_date_set)
    then have z: "length (py_zfill 2 dd) = 2 \<and> list_all py_isdigit (py_zfill 2 dd)"
      by (intro py_zfill_two_digits) auto
    have "format_date s = yyyy @ ''-'' @ mm @ ''-'' @ py_zfill 2 dd"
      using Some x by (simp add: format_date_def)
    with f z show ?thesis
      by (auto simp: iso_date_shape_def nth_append)
  next
    case None
    show ?thesis
    proof (cases "rx_search rx_month_year ?s")
      case (Some x)
      obtain mm yyyy where x: "x = (mm, yyyy)" by (cases x) auto
      with Some have "rx_search rx_month_year ?s = Some (mm, yyyy)" by simp
      then obtain n r where "((mm, yyyy), r) \<in> set (rx_month_year (drop n ?s))"
        by (blast dest: rx_search_match)
      then have f: "length mm = 2 \<and> list_all py_isdigit mm \<and> length yyyy = 4 \<and> list_all py_isdigit yyyy"
        by (blast dest: rx_month_year_set)
      have "format_date s = yyyy @ ''-'' @ mm @ ''-01''"
        using None Some x by (simp add: format_date_def)
      with f show ?thesis
        by (auto simp: iso_date_shape_def nth_append py_isdigit_def)
    next
      case None2: None
      show ?thesis
      proof (cases "rx_match rx_year_only ?s")
        case (Some x)
        obtain yyyy r where x: "x = (yyyy, r)" by (cases x) auto
        then have f: "length yyyy = 4 \<and> list_all py_isdigit yyyy"
          using Some by (blast dest: rx_match_Some rx_year_only_set)
        have "format_date s = yyyy @ ''-01-01''"
          using None None2 Some x by (simp add: format_date_def)
        with f show ?thesis
          by (auto simp: iso_date_shape_def nth_append py_isdigit_def)
      next
        case None3: None
        then have "format_date s = []"
          using None None2 by (simp add: format_date_def rx_match_def)
        then show ?thesis by simp
      qed
    qed
  qed
qed

text \<open>
  C32. Whatever the input, \<open>format_date\<close> returns the empty string or a string
  of the shape \<open>YYYY-MM-DD\<close>: ten characters, dashes at positions 4 and 7,
  digits elsewhere.
\<close>

theorem format_date_shape: "format_date s = [] \<or> iso_date_shape (format_date s)"
  by (rule format_date_iso_or_empty)


text \<open>
  Every bare four-digit year \<open>YYYY\<close> is normalised to \<open>YYYY-01-01\<close>: the
  two earlier patterns cannot match four characters, and the third does.
\<close>

theorem format_date_year:
  assumes "length y = 4" and "list_all py_isdigit y"
  shows "format_date y = y @ ''-01-01''"
proof -
  have s: "replace_months (py_strip y) = y"
    using assms(2) by (simp add: py_strip_digits replace_months_digits)
  have "rx_search rx_full_date y = None"
    by (rule rx_search_too_short [where k = 8]) (use assms(1) rx_full_date_set in auto)
  moreover have "rx_search rx_month_year y = None"
    by (rule rx_search_too_short [where k = 6]) (use assms(1) rx_month_year_set in auto)
  moreover have tw: "takeWhile py_isdigit y = y"
    using assms(2) by (simp add: takeWhile_eq_all_conv list_all_iff)
  moreover have "rx_year_only y = [(y, [])]"
  proof -
    have "length (takeWhile py_isdigit y) = 4" by (metis tw assms(1))
    then show ?thesis
      by (simp add: rx_year_only_def rx_rep_def Let_def rx_then_def rx_ret_def rx_dollar_def
          tw del: takeWhile_eq_all_conv)
  qed
  ultimately show ?thesis
    by (simp add: format_date_def s rx_match_def)
qed

theorem format_date_year_witness: "format_date ''1999'' = ''1999-01-01''"
  using format_date_year [of "''1999''"] by (simp add: py_isdigit_def)

section \<open>Lemmas on the search rows\<close>

lemma album_rows_Inr:
  "album_rows route rows = Inr out \<Longrightarrow>
   \<exists>cellss. rows = map JArr cellss \<and> map Inr out = map (album_row route) (filter (\<lambda>c. 4 \<le> length c) cellss)"
proof (induction route rows arbitrary: out rule: album_rows.induct)
  case (1 route)
  then show ?case by simp
next
  case (2 route row rows)
  show ?case
  proof (cases "length row < 4")
    case True
    with "2.prems" have "album_rows route rows = Inr out" by simp
    with "2.IH"(1) True obtain cs where "rows = map JArr cs"
        "map Inr out = map (album_row route) (filter (\<lambda>c. 4 \<le> length c) cs)" by blast
    with True show ?thesis by (intro exI [of _ "row # cs"]) simp
  next
    case False
    with "2.prems" obtain r rs where r: "album_row route row = Inr r" "album_rows route rows = Inr rs"
        "out = r # rs"
      by (auto split: sum.splits)
    with "2.IH"(2) False obtain cs where "rows = map JArr cs"
        "map Inr rs = map (album_row route) (filter (\<lambda>c. 4 \<le> length c) cs)" by blast
    with r False show ?thesis by (intro exI [of _ "row # cs"]) simp
  qed
qed auto

lemma album_row_strings:
  "4 \<le> length row \<Longrightarrow> list_all is_jstr (take 4 row) \<Longrightarrow> \<exists>r. album_row route row = Inr r"
proof -
  assume l: "4 \<le> length row" and s: "list_all is_jstr (take 4 row)"
  obtain a b c d rest where row: "row = a # b # c # d # rest"
    using l by (auto simp: numeral_eq_Suc Suc_le_length_iff)
  with s obtain a' b' c' d' where "a = JStr a'" "b = JStr b'" "c = JStr c'" "d = JStr d'"
    by (cases a; cases b; cases c; cases d) auto
  then have "cell cell_text row 0 = Inr a'" "cell cell_text row 1 = Inr b'"
    "cell cell_strip row 2 = Inr (py_strip c')" "cell cell_text row 3 = Inr d'"
    using row by (simp_all add: cell_def py_index_def)
  then show ?thesis
    unfolding album_row_def by (simp add: Let_def case_prod_beta)
qed

section \<open>Properties of the search rows\<close>

text \<open>
  C33. An album cell whose markup has no double-quoted \<open>href="\<close> gives an
  empty album title and a proxy link with an empty \<open>url\<close>, whatever else it
  holds: the pattern \<open>href="([^"]+)">([^<]+)\<close> of line 147 accepts double
  quotes only, so a single-quoted link, as in the spec's example, is lost.
\<close>

theorem album_row_needs_double_quotes:
  assumes "\<not> py_contains ''href=\"'' album_html"
  shows "\<exists>ps. album_row route (JStr artist_html # JStr album_html # JStr t # JStr d # rest) = Inr (JObj ps)
           \<and> map_of ps ''album'' = Some (JStr [])
           \<and> map_of ps ''metal_archives_album_url'' = Some (JStr (''http://localhost:5000/'' @ route @ ''?url=''))"
proof -
  have "rx_search rx_href album_html = None"
    unfolding rx_href_def by (rule rx_search_then_lit [OF assms])
  then show ?thesis
    by (simp add: album_row_def cell_def py_index_def Let_def proxy_link_def PORT_def)
qed

theorem album_row_needs_double_quotes_witness:
  "\<exists>ps. album_row ''album'' [JStr ''<a href='x'>Band</a>'', JStr ''<a href='y'>Album</a>'', JStr ''Full-length'',
           JStr ''<!-- 2002-07-23 -->Jul 2002''] = Inr (JObj ps)
      \<and> map_of ps ''album'' = Some (JStr [])
      \<and> map_of ps ''metal_archives_album_url'' = Some (JStr (''http://localhost:5000/album?url=''))"
proof -
  have "\<not> py_contains ''href=\"'' ''<a href='y'>Album</a>''" by code_simp
  from album_row_needs_double_quotes [OF this, of "''album''" "''<a href='x'>Band</a>''" "''Full-length''"
      "''<!-- 2002-07-23 -->Jul 2002''" "[]"]
  show ?thesis by simp
qed

text \<open>
  On rows whose first four cells are strings, the album-search loop never
  raises; it yields exactly one record per row of four or more cells, in the
  upstream order, and skips the shorter rows.
\<close>

theorem album_rows_skip_short:
  assumes "\<forall>c \<in> set cellss. 4 \<le> length c \<longrightarrow> list_all is_jstr (take 4 c)"
  shows "\<exists>out. album_rows route (map JArr cellss) = Inr out
           \<and> map Inr out = map (album_row route) (filter (\<lambda>c. 4 \<le> length c) cellss)"
proof -
  have "\<exists>out. album_rows route (map JArr cellss) = Inr out"
    using assms
  proof (induction cellss)
    case Nil
    then show ?case by simp
  next
    case (Cons c cs)
    then obtain rs where rs: "album_rows route (map JArr cs) = Inr rs" by auto
    show ?case
    proof (cases "length c < 4")
      case True
      with rs show ?thesis by simp
    next
      case False
      with Cons.prems obtain r where "album_row route c = Inr r"
        using album_row_strings by fastforce
      with rs False show ?thesis by simp
    qed
  qed
  then obtain out where o: "album_rows route (map JArr cellss) = Inr out" by blast
  from album_rows_Inr [OF o] obtain cs where "map JArr cellss = map JArr cs"
      "map Inr out = map (album_row route) (filter (\<lambda>c. 4 \<le> length c) cs)" by blast
  moreover have "cs = cellss" using calculation(1) by (simp add: inj_map_eq_map inj_on_def)
  ultimately show ?thesis using o by auto
qed

theorem album_rows_skip_short_witness:
  "\<exists>out. album_rows ''album'' (map JArr [[JStr ''x''], [JStr ''a'', JStr ''b'', JStr ''c'', JStr ''d'']]) = Inr out
     \<and> length out = 1"
proof -
  have "\<forall>c \<in> set [[JStr ''x''], [JStr ''a'', JStr ''b'', JStr ''c'', JStr ''d'']].
          4 \<le> length c \<longrightarrow> list_all is_jstr (take 4 c)" by simp
  from album_rows_skip_short [OF this, of "''album''"] obtain out where
    "album_rows ''album'' (map JArr [[JStr ''x''], [JStr ''a'', JStr ''b'', JStr ''c'', JStr ''d'']]) = Inr out"
    "map Inr out = map (album_row ''album'') (filter (\<lambda>c. 4 \<le> length c)
       [[JStr ''x''], [JStr ''a'', JStr ''b'', JStr ''c'', JStr ''d'']])"
    by blast
  note o = this
  from o(2) have "length out = length (filter (\<lambda>c. 4 \<le> length c)
      [[JStr ''x''], [JStr ''a'', JStr ''b'', JStr ''c'', JStr ''d'']])"
    by (metis length_map)
  then have "length out = 1" by simp
  with o(1) show ?thesis by blast
qed

text \<open>
  C34. The artist-search loop has no length check: a row of fewer than three
  string cells raises \<open>IndexError\<close>, which ends the whole search.
\<close>

theorem artist_rows_short_row_raises:
  assumes "length row < 3" and "list_all is_jstr row"
  shows "artist_rows (JArr row # rows) = Inl (IndexError ''list index out of range'')"
proof -
  consider "row = []" | a where "row = [a]" | a b where "row = [a, b]"
    using assms(1) by (cases row rule: remdups_adj.cases) (auto simp: numeral_eq_Suc)
  then show ?thesis
  proof cases
    case 1
    then show ?thesis by (simp add: artist_row_def cell_def py_index_def)
  next
    case (2 a)
    with assms(2) obtain a' where "a = JStr a'" by (cases a) auto
    with 2 have "cell cell_text row 0 = Inr a'" "cell cell_strip row 1 = Inl (IndexError ''list index out of range'')"
      by (simp_all add: cell_def py_index_def)
    then show ?thesis by (simp add: artist_row_def Let_def case_prod_beta)
  next
    case (3 a b)
    with assms(2) obtain a' b' where "a = JStr a'" "b = JStr b'" by (cases a; cases b) auto
    with 3 have "cell cell_text row 0 = Inr a'" "cell cell_strip row 1 = Inr (py_strip b')"
      "cell cell_strip row 2 = Inl (IndexError ''list index out of range'')"
      by (simp_all add: cell_def py_index_def)
    then show ?thesis by (simp add: artist_row_def Let_def case_prod_beta)
  qed
qed

theorem artist_rows_short_row_raises_witness:
  "artist_rows [JArr [JStr ''<a href=\"u\">B</a>'']] = Inl (IndexError ''list index out of range'')"
  using artist_rows_short_row_raises [of "[JStr ''<a href=\"u\">B</a>'']" "[]"] by simp

end
