(* ===== verification/Pages.thy ===== *)
theory Pages
  imports Extractors
begin

text \<open>
  The transforms of \<open>src/proxy_ma.py\<close> from a fetched detail page to the record
  sent to the tagging client: the track table and the record of \<open>get_album\<close>
  (lines 198-254), the liner notes of \<open>extract_addtional_info\<close> (lines
  589-613) and the record of \<open>get_artist_info\<close> (lines 379-398). The parsed
  document is modelled by what the code's BeautifulSoup queries return on it:
  the text and attributes of the first element a selector finds, the rows of
  the track table with their cells, the paragraphs of the notes panel as
  sequences of text strings and line breaks, and the band page's \<open>dt\<close>
  labels with the text of the \<open>dd\<close> that follows each. HTML parsing and CSS
  matching themselves are not modelled.
\<close>

section \<open>Track table\<close>

text \<open>
  A \<open>td\<close> cell: its \<open>.text\<close>, its \<open>class\<close> attribute as the list BeautifulSoup
  gives, and its markup \<open>str(td)\<close>. A row of \<open>table.table_lyrics tr\<close>: its
  markup \<open>str(row)\<close> and the cells \<open>row.find_all("td")\<close>.
\<close>

record lyrics_cell =
  td_text :: string
  td_classes :: "string list"
  td_html :: string

record lyrics_row =
  tr_html :: string
  tr_cells :: "lyrics_cell list"

text \<open>\<open>Disc\s+(\d+)\<close>, line 215.\<close>

definition rx_disc :: "string rx" where
  "rx_disc = rx_then (rx_lit ''Disc'') (\<lambda>_. rx_then (rx_spaces 1) (\<lambda>_. rx_digits 1 None))"

text \<open>The track record of a \<open>wrapWords\<close> row from its second, third and fourth cells (lines 219-233).\<close>

definition track_record :: "string \<Rightarrow> lyrics_cell \<Rightarrow> lyrics_cell \<Rightarrow> lyrics_cell \<Rightarrow> json" where
  "track_record disc_number c1 c2 c3 =
     JObj [(''discnumber'', JStr disc_number),
           (''track'', JStr (py_strip (td_text c1))),
           (''bonus'', JStr (if ''bonus'' \<in> set (td_classes c1) then ''1'' else [])),
           (''length'', JStr (py_strip (td_text c2))),
           (''instrumental'',
              JStr (if py_contains ''<em>instrumental</em>'' (py_lower (td_html c3)) then ''1'' else []))]"

text \<open>
  The loop of \<open>extract_tracks\<close> with the current \<open>disc_number\<close>: a \<open>discRow\<close>
  row sets it when its markup has \<open>Disc N\<close>; otherwise a \<open>wrapWords\<close> row of
  four or more cells gives a track; other rows are skipped.
\<close>

fun tracks_from :: "string \<Rightarrow> lyrics_row list \<Rightarrow> json list" where
  "tracks_from disc_number [] = []"
| "tracks_from disc_number (row # rows) =
     (let html = tr_html row in
      if py_contains ''discRow'' html then
        (case rx_search rx_disc html of
           Some d \<Rightarrow> tracks_from d rows
         | None \<Rightarrow> tracks_from disc_number rows)
      else if py_contains ''wrapWords'' html then
        (let cols = tr_cells row in
         if 4 \<le> length cols
         then track_record disc_number (cols ! 1) (cols ! 2) (cols ! 3) # tracks_from disc_number rows
         else tracks_from disc_number rows)
      else tracks_from disc_number rows)"

definition extract_tracks :: "lyrics_row list \<Rightarrow> json list" where
  "extract_tracks rows = tracks_from ''1'' rows"

section \<open>Liner notes\<close>

text \<open>
  A child string of a paragraph of the notes panel, after the loop of line 599
  has unwrapped its \<open>i\<close>, \<open>b\<close>, \<open>a\<close> and \<open>td\<close> tags: a text string, or a
  \<open>br\<close>, which line 597 replaces with the string \<open>"\r\n"\<close>.
\<close>

datatype frag = FText string | FBr

definition CRLF :: string where
  "CRLF = [CHR 0x0D, CHR 0x0A]"

fun frag_str :: "frag \<Rightarrow> string" where
  "frag_str (FText t) = t"
| "frag_str FBr = CRLF"

text \<open>\<open>p.get_text(separator="", strip=True)\<close>: every string stripped, empty ones dropped, the rest joined.\<close>

definition p_text :: "frag list \<Rightarrow> string" where
  "p_text p = concat (filter (\<lambda>t. t \<noteq> []) (map (\<lambda>f. py_strip (frag_str f)) p))"

text \<open>Lines 602-608: the paragraph's text, with a line break after the two section labels.\<close>

definition note_block :: "frag list \<Rightarrow> string" where
  "note_block p =
     (let t = p_text p in
      if py_lower (py_strip t) \<in> {''recording information:'', ''title translation:''} then t @ CRLF else t)"

text \<open>\<open>(\r?\n){3,}\<close> and \<open>[^\S\r\n]{2,}\<close>, lines 611 and 612.\<close>

definition rx_newlines3 :: "string list rx" where
  "rx_newlines3 = rx_star_min 3 (rx_then (rx_opt (rx_lit [CHR 0x0D])) (\<lambda>_. rx_lit [CHR 0x0A]))"

definition rx_blanks2 :: "string rx" where
  "rx_blanks2 = rx_rep (\<lambda>c. py_isspace c \<and> c \<noteq> CHR 0x0D \<and> c \<noteq> CHR 0x0A) 2 None"

text \<open>
  \<open>extract_addtional_info\<close>: \<open>None\<close> when the notes panel is absent; the
  blocks of the non-empty paragraphs joined by a blank line, runs of line
  breaks and of blanks collapsed, the whole stripped.
\<close>

definition extract_addtional_info :: "frag list list option \<Rightarrow> string" where
  "extract_addtional_info container =
     (case container of
        None \<Rightarrow> []
      | Some ps \<Rightarrow>
          let test_blocks = filter (\<lambda>t. t \<noteq> []) (map note_block ps);
              final_text = py_join (CRLF @ CRLF) test_blocks;
              final_text = rx_sub rx_newlines3 (CRLF @ CRLF) final_text;
              final_text = rx_sub rx_blanks2 '' '' final_text
          in py_strip final_text)"

section \<open>Album page\<close>

text \<open>
  The album page as the code queries it: for each selector the \<open>.text\<close> of
  the first element \<open>select_one\<close> finds, for each selector and attribute the
  attribute of that element when it has it, the rows of the track table and the
  paragraphs of the notes panel.
\<close>

record album_doc =
  sel_text :: "(string \<times> string) list"
  sel_attr :: "((string \<times> string) \<times> string) list"
  lyrics_rows :: "lyrics_row list"
  notes_panel :: "frag list list option"

text \<open>The local helpers \<open>get_text\<close> and \<open>get_attr\<close> of \<open>get_album\<close> (lines 200-206).\<close>

definition get_text :: "album_doc \<Rightarrow> string \<Rightarrow> string" where
  "get_text d selector = (case map_of (sel_text d) selector of Some t \<Rightarrow> py_strip t | None \<Rightarrow> [])"

definition get_attr :: "album_doc \<Rightarrow> string \<Rightarrow> string \<Rightarrow> string" where
  "get_attr d selector attr = (case map_of (sel_attr d) (selector, attr) of Some v \<Rightarrow> py_strip v | None \<Rightarrow> [])"

text \<open>
  \<open>a or b\<close> on strings, evaluating \<open>b\<close> only when \<open>a\<close> is empty; \<open>b\<close> may raise.
\<close>

definition py_or :: "string \<Rightarrow> (unit \<Rightarrow> exc + string) \<Rightarrow> exc + string" where
  "py_or a b = (if a \<noteq> [] then Inr a else b ())"

text \<open>
  The fallback selector of line 236, \<open>dt:has-text('Release date:') + dd\<close>:
  \<open>:has-text\<close> is a pseudo-class of Playwright's selector engine, not of
  the CSS engine behind BeautifulSoup's \<open>select_one\<close>, which rejects it with
  a \<open>SelectorSyntaxError\<close> whatever the document.
\<close>

definition get_text_has_text :: "album_doc \<Rightarrow> exc + string" where
  "get_text_has_text d =
     Inl (SelectorSyntaxError
            (CHR 0x27 # '':has-text'' @ CHR 0x27 # '' was detected as a pseudo-class and is either unsupported or invalid.''))"

text \<open>\<open>\d{4}\<close> and \<open>\(avg\.\s*([\d\.]+)%\)\<close>, lines 246 and 251.\<close>

definition rx_year4 :: "string rx" where
  "rx_year4 = rx_digits 4 (Some 4)"

definition rx_rating :: "string rx" where
  "rx_rating =
     rx_then (rx_lit ''(avg.'') (\<lambda>_.
     rx_then (rx_spaces 0) (\<lambda>_.
     rx_then (rx_rep (\<lambda>c. py_isdigit c \<or> c = CHR ''.'') 1 None) (\<lambda>r.
     rx_then (rx_lit ''%)'') (\<lambda>_.
     rx_ret r))))"

text \<open>
  The \<open>result\<close> dictionary of \<open>get_album\<close> (lines 239-254) for the page
  at \<open>url\<close>, once \<open>release_date_raw\<close> has been read (line 236).
\<close>

definition album_record :: "string \<Rightarrow> album_doc \<Rightarrow> string \<Rightarrow> json" where
  "album_record url d release_date_raw =
     (let reviews = get_text d ''dt:-soup-contains('Reviews:') + dd'' in
      JObj
       [(''metal_archives_album_url'', JStr url),
        (''metal_archives_band_url'', JStr (get_attr d ''h2.band_name a'' ''href'')),
        (''coverurl'', JStr (get_attr d ''div.album_img a'' ''href'')),
        (''album'', JStr (let a = get_text d ''h1.album_name'' in
                          if a \<noteq> [] then a else get_text d ''h1.album_name.noCaps'')),
        (''artist'', JStr (let a = get_text d ''h2.band_name a'' in
                           if a \<noteq> [] then a else get_text d ''h2.band_name.noCaps a'')),
        (''metal_archives_type'', JStr (get_text d ''dt:-soup-contains('Type:') + dd'')),
        (''year'', JStr (case rx_search rx_year4 release_date_raw of Some y \<Rightarrow> y | None \<Rightarrow> [])),
        (''metal_archives_date'', JStr (format_date release_date_raw)),
        (''catalog'', JStr (get_text d ''dt:-soup-contains('Catalog ID:') + dd'')),
        (''metal_archives_edition'', JStr (get_text d ''dt:-soup-contains('Version desc.:') + dd'')),
        (''publisher'', JStr (get_text d ''dt:-soup-contains('Label:') + dd'')),
        (''metal_archives_rating'',
           JStr (case rx_search rx_rating reviews of Some r \<Rightarrow> r @ ''%'' | None \<Rightarrow> [])),
        (''metal_archives_info'', JStr (extract_addtional_info (notes_panel d))),
        (''tracks'', JArr (extract_tracks (lyrics_rows d)))])"

text \<open>Lines 236-254: the release date, whose fallback selector raises, then the record.\<close>

definition album_result :: "string \<Rightarrow> album_doc \<Rightarrow> exc + json" where
  "album_result url d =
     (case py_or (get_text d ''dt:-soup-contains('Release date:') + dd'') (\<lambda>_. get_text_has_text d) of
        Inl e \<Rightarrow> Inl e
      | Inr release_date_raw \<Rightarrow> Inr (album_record url d release_date_raw))"

section \<open>Band page\<close>

text \<open>
  The band page as \<open>get_dd_text\<close> queries it: its \<open>dt\<close> elements in document
  order, each with its \<open>.string\<close> (\<open>None\<close> when the element has more than one
  child) and the \<open>.text\<close> of its next sibling \<open>dd\<close>, if any.
\<close>

type_synonym band_doc = "(string option \<times> string option) list"

text \<open>
  \<open>get_dd_text(label)\<close>, lines 385-388: the first \<open>dt\<close> whose string matches
  \<open>re.compile(label)\<close> (each label of the code is a literal pattern).
\<close>

definition get_dd_text :: "band_doc \<Rightarrow> string \<Rightarrow> string" where
  "get_dd_text d label =
     (case find (\<lambda>(s, _). case s of Some str \<Rightarrow> rx_search (rx_lit label) str \<noteq> None | None \<Rightarrow> False) d of
        Some (_, Some dd) \<Rightarrow> py_strip dd
      | _ \<Rightarrow> [])"

definition artist_result :: "string \<Rightarrow> band_doc \<Rightarrow> json" where
  "artist_result url d =
     JObj [(''metal_archives_band_url'', JStr url),
           (''country'', JStr (get_dd_text d ''Country of origin:'')),
           (''metal_archives_location'', JStr (get_dd_text d ''Location:'')),
           (''metal_archives_status'', JStr (get_dd_text d ''Status:'')),
           (''metal_archives_formation_year'', JStr (get_dd_text d ''Formed in:'')),
           (''genre'', JStr (get_dd_text d ''Genre:'')),
           (''metal_archives_lyrical_themes'', JStr (get_dd_text d ''Themes:''))]"

section \<open>Row classes of the track table\<close>

text \<open>
  The classes of rows \<open>extract_tracks\<close> tells apart, the track a row yields
  under a disc number, and the disc number in force after a sequence of rows.
\<close>

definition is_disc_row :: "lyrics_row \<Rightarrow> bool" where
  "is_disc_row r \<longleftrightarrow> py_contains ''discRow'' (tr_html r)"

definition is_track_row :: "lyrics_row \<Rightarrow> bool" where
  "is_track_row r \<longleftrightarrow>
     \<not> is_disc_row r \<and> py_contains ''wrapWords'' (tr_html r) \<and> 4 \<le> length (tr_cells r)"

definition row_track :: "string \<Rightarrow> lyrics_row \<Rightarrow> json" where
  "row_track d r = track_record d (tr_cells r ! 1) (tr_cells r ! 2) (tr_cells r ! 3)"

fun disc_after :: "string \<Rightarrow> lyrics_row list \<Rightarrow> string" where
  "disc_after d [] = d"
| "disc_after d (r # rs) =
     disc_after (if is_disc_row r then (case rx_search rx_disc (tr_html r) of Some n \<Rightarrow> n | None \<Rightarrow> d) else d) rs"

text \<open>
  A stateless reference for the track loop: each track row, in table order,
  gives its track under the disc number in force after the rows before it.
\<close>

definition tracks_ref :: "lyrics_row list \<Rightarrow> json list" where
  "tracks_ref rows =
     [row_track (disc_after ''1'' (take i rows)) (rows ! i). i \<leftarrow> [0..<length rows], is_track_row (rows ! i)]"

section \<open>Lemmas on the track table\<close>

lemma tracks_from_Cons:
  "tracks_from d (r # rs) =
     (if is_disc_row r then tracks_from (case rx_search rx_disc (tr_html r) of Some n \<Rightarrow> n | None \<Rightarrow> d) rs
      else if is_track_row r then row_track d r # tracks_from d rs
      else tracks_from d rs)"
  by (simp add: is_disc_row_def is_track_row_def row_track_def Let_def split: option.split)

declare tracks_from.simps(2) [simp del]

lemma tracks_from_append:
  "tracks_from d (xs @ ys) = tracks_from d xs @ tracks_from (disc_after d xs) ys"
  by (induction xs arbitrary: d) (simp_all add: tracks_from_Cons)

lemma tracks_from_no_disc:
  "list_all (\<lambda>r. \<not> is_disc_row r) rows \<Longrightarrow>
   tracks_from d rows = map (row_track d) (filter is_track_row rows)"
  by (induction rows) (simp_all add: tracks_from_Cons)

lemma is_track_row_not_disc: "is_track_row r \<Longrightarrow> \<not> is_disc_row r"
  by (simp add: is_track_row_def)

lemma tracks_from_length: "length (tracks_from d rows) = length (filter is_track_row rows)"
  by (induction rows arbitrary: d) (auto simp: tracks_from_Cons dest: is_track_row_not_disc)

lemma tracks_from_positional:
  "tracks_from d rows =
     [row_track (disc_after d (take i rows)) (rows ! i). i \<leftarrow> [0..<length rows], is_track_row (rows ! i)]"
proof (induction rows rule: rev_induct)
  case Nil
  then show ?case by simp
next
  case (snoc x xs)
  have "[row_track (disc_after d (take i (xs @ [x]))) ((xs @ [x]) ! i). i \<leftarrow> [0..<length xs], is_track_row ((xs @ [x]) ! i)]
        = [row_track (disc_after d (take i xs)) (xs ! i). i \<leftarrow> [0..<length xs], is_track_row (xs ! i)]"
    by (rule arg_cong [where f = concat], rule map_cong) (simp_all add: nth_append)
  then show ?case using snoc.IH
    by (simp add: tracks_from_append tracks_from_Cons is_track_row_not_disc)
qed

section \<open>Lemmas on the liner notes\<close>

lemma py_strip_CRLF [simp]: "py_strip CRLF = []"
  by (simp add: py_strip_def CRLF_def py_isspace_def)

lemma p_text_drop_br: "p_text (filter (\<lambda>f. f \<noteq> FBr) p) = p_text p"
  by (induction p rule: list.induct) (auto simp: p_text_def elim: frag_str.elims)

lemma note_block_drop_br: "note_block (filter (\<lambda>f. f \<noteq> FBr) p) = note_block p"
  by (simp add: note_block_def p_text_drop_br)

section \<open>Lemmas on the records\<close>

lemma rx_year4_found:
  "rx_search rx_year4 s = Some y \<Longrightarrow> length y = 4 \<and> list_all py_isdigit y"
  by (auto simp: rx_year4_def dest!: rx_search_match)

lemma album_result_Inr:
  "album_result url d = Inr r \<longleftrightarrow>
     get_text d ''dt:-soup-contains('Release date:') + dd'' \<noteq> []
     \<and> r = album_record url d (get_text d ''dt:-soup-contains('Release date:') + dd'')"
  by (auto simp: album_result_def py_or_def get_text_has_text_def)

lemma find_first_label:
  assumes "list_all (\<lambda>(s, _). \<forall>t. s = Some t \<longrightarrow> \<not> py_contains label t) pre"
    and "py_contains label str"
  shows "find (\<lambda>(s, _). case s of Some str \<Rightarrow> rx_search (rx_lit label) str \<noteq> None | None \<Rightarrow> False)
           (pre @ (Some str, dd) # post) = Some (Some str, dd)"
  using assms by (induction pre) (auto simp: rx_search_lit split: option.splits)

section \<open>Properties of the track table\<close>

text \<open>
  C27. A disc header row with \<open>Disc N\<close> sets the disc number of every track
  that follows it up to the next header: the tracks before it are those of the
  rows before it, and the rows after it give, in their order, one track per
  track row, each with disc number \<open>N\<close>.
\<close>

theorem disc_header_numbers_following_tracks:
  assumes "is_disc_row h" and "rx_search rx_disc (tr_html h) = Some n"
    and "list_all (\<lambda>r. \<not> is_disc_row r) post"
  shows "extract_tracks (pre @ h # post) = extract_tracks pre @ map (row_track n) (filter is_track_row post)"
  using assms by (simp add: extract_tracks_def tracks_from_append tracks_from_Cons tracks_from_no_disc)

theorem disc_header_numbers_following_tracks_witness:
  "extract_tracks
     [\<lparr>tr_html = ''<tr class=\"discRow\"><td>Disc 2</td></tr>'', tr_cells = []\<rparr>,
      \<lparr>tr_html = ''<tr><td class=\"wrapWords\">'',
       tr_cells = [\<lparr>td_text = ''1.'', td_classes = [], td_html = []\<rparr>,
                   \<lparr>td_text = '' Intro '', td_classes = [], td_html = []\<rparr>,
                   \<lparr>td_text = ''03:12'', td_classes = [], td_html = []\<rparr>,
                   \<lparr>td_text = [], td_classes = [], td_html = ''<td><em>Instrumental</em></td>''\<rparr>]\<rparr>]
   = [JObj [(''discnumber'', JStr ''2''), (''track'', JStr ''Intro''), (''bonus'', JStr []),
            (''length'', JStr ''03:12''), (''instrumental'', JStr ''1'')]]"
proof -
  let ?h = "\<lparr>tr_html = ''<tr class=\"discRow\"><td>Disc 2</td></tr>'', tr_cells = []\<rparr> :: lyrics_row"
  let ?post = "[\<lparr>tr_html = ''<tr><td class=\"wrapWords\">'',
       tr_cells = [\<lparr>td_text = ''1.'', td_classes = [], td_html = []\<rparr>,
                   \<lparr>td_text = '' Intro '', td_classes = [], td_html = []\<rparr>,
                   \<lparr>td_text = ''03:12'', td_classes = [], td_html = []\<rparr>,
                   \<lparr>td_text = [], td_classes = [], td_html = ''<td><em>Instrumental</em></td>''\<rparr>]\<rparr>]
     :: lyrics_row list"
  have "is_disc_row ?h" by (simp add: is_disc_row_def)
  moreover have "rx_search rx_disc (tr_html ?h) = Some ''2''" by code_simp
  moreover have "list_all (\<lambda>r. \<not> is_disc_row r) ?post" by (simp add: is_disc_row_def)
  ultimately have "extract_tracks ([] @ ?h # ?post) =
      extract_tracks [] @ map (row_track ''2'') (filter is_track_row ?post)"
    by (rule disc_header_numbers_following_tracks)
  then show ?thesis
    by (simp add: extract_tracks_def is_track_row_def is_disc_row_def row_track_def track_record_def) code_simp
qed

text \<open>
  \<open>extract_tracks\<close> yields exactly one track per track row: a row that is
  not a disc header, whose markup has \<open>wrapWords\<close> and which has four cells or
  more.
\<close>

theorem extract_tracks_count: "length (extract_tracks rows) = length (filter is_track_row rows)"
  by (simp add: extract_tracks_def tracks_from_length)

text \<open>
  C28. Equivalence of the track loop with its stateless reference: the loop of
  \<open>extract_tracks\<close>, which carries the current disc number from row to row,
  gives exactly the tracks of \<open>tracks_ref\<close>, one per track row in table order,
  each under the disc number set by the last \<open>Disc N\<close> header before it
  (\<open>"1"\<close> before any header).
\<close>

theorem extract_tracks_reference: "extract_tracks rows = tracks_ref rows"
  by (simp add: extract_tracks_def tracks_ref_def tracks_from_positional)

section \<open>Properties of the liner notes\<close>

text \<open>
  C30. The line breaks of a paragraph of the liner notes never reach the
  output: \<open>get_text(strip=True)\<close> strips the \<open>"\r\n"\<close> strings that replace the
  \<open>br\<close> tags down to nothing and drops them, so the notes are the same as those
  of the paragraphs with every \<open>br\<close> removed (and the texts around a \<open>br\<close> are
  glued together).
\<close>

theorem notes_line_breaks_lost:
  "extract_addtional_info (map_option (map (filter (\<lambda>f. f \<noteq> FBr))) container) = extract_addtional_info container"
  by (simp add: extract_addtional_info_def note_block_drop_br comp_def split: option.split)

section \<open>Properties of the album and band records\<close>

text \<open>
  C29. An album page whose \<open>Release date:\<close> entry is missing or empty makes
  \<open>get_album\<close>'s extraction raise: the fallback selector is evaluated and the
  CSS engine rejects its \<open>:has-text\<close> pseudo-class.
\<close>

theorem album_without_release_date_fails:
  assumes "get_text d ''dt:-soup-contains('Release date:') + dd'' = []"
  shows "\<exists>m. album_result url d = Inl (SelectorSyntaxError m)"
  using assms by (simp add: album_result_def py_or_def get_text_has_text_def)

theorem album_without_release_date_fails_witness:
  "\<exists>m. album_result ''https://www.metal-archives.com/albums/B/A/1''
          \<lparr>sel_text = [(''h1.album_name'', ''A'')], sel_attr = [], lyrics_rows = [], notes_panel = None\<rparr>
        = Inl (SelectorSyntaxError m)"
  by (rule album_without_release_date_fails) (simp add: get_text_def)

text \<open>
  The album record has the fourteen fields of the code in their order,
  every field but \<open>tracks\<close> a string; its \<open>year\<close> is empty or four digits and
  its \<open>metal_archives_date\<close> empty or of the shape \<open>YYYY-MM-DD\<close>.
\<close>

theorem album_record_shape:
  "\<exists>ps. album_record url d raw = JObj ps
     \<and> map fst ps = [''metal_archives_album_url'', ''metal_archives_band_url'', ''coverurl'', ''album'',
                     ''artist'', ''metal_archives_type'', ''year'', ''metal_archives_date'', ''catalog'',
                     ''metal_archives_edition'', ''publisher'', ''metal_archives_rating'',
                     ''metal_archives_info'', ''tracks'']
     \<and> list_all (\<lambda>(k, v). k = ''tracks'' \<or> is_jstr v) ps
     \<and> (\<exists>y. map_of ps ''year'' = Some (JStr y) \<and> (y = [] \<or> length y = 4 \<and> list_all py_isdigit y))
     \<and> (\<exists>dt. map_of ps ''metal_archives_date'' = Some (JStr dt) \<and> (dt = [] \<or> iso_date_shape dt))"
proof -
  have y: "(case rx_search rx_year4 raw of Some y \<Rightarrow> y | None \<Rightarrow> []) = [] \<or>
      length (case rx_search rx_year4 raw of Some y \<Rightarrow> y | None \<Rightarrow> []) = 4 \<and>
      list_all py_isdigit (case rx_search rx_year4 raw of Some y \<Rightarrow> y | None \<Rightarrow> [])"
    by (auto split: option.split dest: rx_year4_found)
  show ?thesis
    using y format_date_iso_or_empty [of raw] by (simp add: album_record_def Let_def)
qed

text \<open>
  A band field is read from the first \<open>dt\<close> whose string contains the
  label: the stripped text of the \<open>dd\<close> after it, or the empty string when no
  \<open>dd\<close> follows it, whatever later \<open>dt\<close> elements hold.
\<close>

theorem band_field_first_dt:
  assumes "list_all (\<lambda>(s, _). \<forall>t. s = Some t \<longrightarrow> \<not> py_contains label t) pre"
    and "py_contains label str"
  shows "get_dd_text (pre @ (Some str, dd) # post) label = (case dd of Some t \<Rightarrow> py_strip t | None \<Rightarrow> [])"
  using find_first_label [OF assms] by (simp add: get_dd_text_def split: option.split)

theorem band_field_first_dt_witness:
  "get_dd_text [(Some ''Status:'', Some '' Active ''), (Some ''Country of origin:'', None),
                (Some ''Country of origin:'', Some ''Norway'')] ''Country of origin:'' = []"
proof -
  have "get_dd_text ([(Some ''Status:'', Some '' Active '')] @ (Some ''Country of origin:'', None)
          # [(Some ''Country of origin:'', Some ''Norway'')]) ''Country of origin:''
        = (case None of Some t \<Rightarrow> py_strip t | None \<Rightarrow> [])"
    by (rule band_field_first_dt) simp_all
  then show ?thesis by simp
qed

end
