(* ===== verification/Orchestrator.thy ===== *)
theory Orchestrator
  imports Cache Session Pages
begin

text \<open>
  The fetch orchestrator of \<open>src/proxy_ma.py\<close>: the six public operations
  \<open>search_albums\<close>, \<open>get_album\<close>, \<open>search_artists\<close>, \<open>get_artist_info\<close>,
  \<open>search_albums_with_info\<close> and \<open>get_album_with_artist_info\<close>. Each one
  threads the two pieces of process state it touches, the shelf of theory
  \<open>Cache\<close> and the class attributes of theory \<open>Session\<close>, and returns the
  JSON value the HTTP layer sends. What the site and the browser deliver is a
  parameter \<open>web\<close>: for each URL, what navigating to it gives (the captured AJAX
  payload, or the parsed album or band page) or the exception \<open>page.goto\<close>
  raises. A request carries the time it runs at, the automation call that fails
  if the session has to be started, and the teardown calls of \<open>close()\<close> that
  fail. Every \<open>try ... except Exception\<close> of the code is a branch that closes
  the session and returns \<open>{"error": str(e)}\<close>, keeping the shelf as it was
  when the exception was raised.
\<close>

section \<open>State and environment\<close>

record proxy_state =
  shelf :: cache
  session :: pw_session

text \<open>
  \<open>ajax_capture u\<close>: the dictionary \<open>response_data\<close> after \<open>page.goto(u)\<close> and
  the three-second wait, i.e. the merge of the JSON bodies of the matching
  responses (\<open>JObj []\<close> when none arrived), or the exception of the navigation.
\<close>

record web =
  ajax_capture :: "string \<Rightarrow> exc + json"
  album_page :: "string \<Rightarrow> exc + album_doc"
  band_page :: "string \<Rightarrow> exc + band_doc"

record req_env =
  req_now :: instant
  req_fault :: start_fault
  req_teardown :: "teardown set"

section \<open>Messages and query strings\<close>

definition quoted :: "string \<Rightarrow> string" where
  "quoted w = CHR 0x27 # w @ [CHR 0x27]"

definition msg_missing_values :: string where
  "msg_missing_values = ''Missing required values: '' @ quoted ''artist'' @ '' or '' @ quoted ''album''"

definition msg_missing_artist :: string where
  "msg_missing_artist = ''Missing required value: '' @ quoted ''artist''"

definition msg_no_capture :: string where
  "msg_no_capture = ''Couldn'' @ CHR 0x27 # ''t capture AJAX response''"

definition msg_no_artist_url :: string where
  "msg_no_artist_url = ''Artist'' @ CHR 0x27 # ''s URL not found on album'' @ CHR 0x27 # ''s data''"

text \<open>\<open>AttributeError\<close> of a method called on \<open>None\<close>.\<close>

definition none_attr :: "string \<Rightarrow> exc" where
  "none_attr m = AttributeError (quoted ''NoneType'' @ '' object has no attribute '' @ quoted m)"

definition ALBUMS_URL :: string where
  "ALBUMS_URL = ''https://www.metal-archives.com/search/ajax-advanced/searching/albums/''"

definition ALBUMS_QUERY :: string where
  "ALBUMS_QUERY = ''?releaseYearFrom=0001&releaseYearTo=9999&sEcho=1&iColumns=4&exactBandMatch=1''"

definition BANDS_URL :: string where
  "BANDS_URL = ''https://www.metal-archives.com/search/ajax-advanced/searching/bands/''"

definition BANDS_QUERY :: string where
  "BANDS_QUERY =
     ''?genre=&country=&yearCreationFrom=&yearCreationTo=&bandNotes=&status=&themes=&location=''
     @ ''&bandLabelName=&sEcho=1&iColumns=3&sColumns=&iDisplayStart=0&iDisplayLength=200&exactBandMatch=1''"

text \<open>
  The query string of the two album searches (lines 102-110 and 422-430):
  \<open>None\<close> for the early return when both names are empty.
\<close>

definition album_query :: "string \<Rightarrow> string \<Rightarrow> string option" where
  "album_query artist album =
     (if artist \<noteq> [] \<and> album \<noteq> []
      then Some (ALBUMS_QUERY @ ''&bandName='' @ url_quote artist @ ''&releaseTitle='' @ url_quote album)
      else if artist \<noteq> [] then Some (ALBUMS_QUERY @ ''&bandName='' @ url_quote artist)
      else if album \<noteq> [] then Some (ALBUMS_QUERY @ ''&releaseTitle='' @ url_quote album)
      else None)"

section \<open>Shared steps\<close>

text \<open>
  \<open>if cached: return cached\<close> after \<open>get_data_from_cache(cache_key)\<close>: the hit
  with the shelf after the lookup (which may have deleted an expired entry), or
  the miss with that shelf.
\<close>

definition cache_lookup :: "instant \<Rightarrow> string \<Rightarrow> cache \<Rightarrow> json option \<times> cache" where
  "cache_lookup now cache_key c =
     (case get_data_from_cache now cache_key c of
        (Some v, c1) \<Rightarrow> (if py_truthy v then Some v else None, c1)
      | (None, c1) \<Rightarrow> (None, c1))"

text \<open>The \<open>except Exception as e\<close> branch: \<open>close()\<close>, then the error object.\<close>

definition fail :: "req_env \<Rightarrow> exc \<Rightarrow> cache \<Rightarrow> pw_session \<Rightarrow> json \<times> proxy_state" where
  "fail env e c s =
     (err_obj (exc_str e), \<lparr>shelf = c, session = snd (close (req_teardown env) s)\<rparr>)"

text \<open>\<open>for row in response_data["aaData"]\<close>: the site sends a list of rows.\<close>

fun aa_rows :: "json \<Rightarrow> exc + json list" where
  "aa_rows (JArr rows) = Inr rows"
| "aa_rows _ = Inl (TypeError ''aaData is not a list'')"

text \<open>
  The body shared by the three AJAX searches after their query check (lines
  111-176, 297-357 and 432-498): cache lookup outside the \<open>try\<close>; then
  \<open>start()\<close>, the listener and the navigation; the soft error when no
  payload with \<open>aaData\<close> was captured (no \<open>close()\<close> on that path); the row
  loop; the write of \<open>{"results": results}\<close>.
\<close>

definition ajax_search ::
  "web \<Rightarrow> req_env \<Rightarrow> string \<Rightarrow> string \<Rightarrow> (json list \<Rightarrow> exc + json list) \<Rightarrow> proxy_state
   \<Rightarrow> json \<times> proxy_state" where
  "ajax_search w env full_url cache_key rows_loop st =
     (let now = req_now env in
      case cache_lookup now cache_key (shelf st) of
        (Some v, c1) \<Rightarrow> (v, st\<lparr>shelf := c1\<rparr>)
      | (None, c1) \<Rightarrow>
          (case start now (req_fault env) (session st) of
             (Inl e, s1) \<Rightarrow> fail env e c1 s1
           | (Inr None, s1) \<Rightarrow> fail env (none_attr ''on'') c1 s1
           | (Inr (Some _), s1) \<Rightarrow>
               (case ajax_capture w full_url of
                  Inl e \<Rightarrow> fail env e c1 s1
                | Inr response_data \<Rightarrow>
                    if \<not> py_truthy response_data \<or> \<not> json_has_key ''aaData'' response_data
                    then (err_obj msg_no_capture, \<lparr>shelf = c1, session = s1\<rparr>)
                    else
                      (case aa_rows (json_get ''aaData'' JNull response_data) of
                         Inl e \<Rightarrow> fail env e c1 s1
                       | Inr rows \<Rightarrow>
                           (case rows_loop rows of
                              Inl e \<Rightarrow> fail env e c1 s1
                            | Inr results \<Rightarrow>
                                let v = JObj [(''results'', JArr results)] in
                                (v, \<lparr>shelf = save_in_cache now cache_key v c1, session = s1\<rparr>))))))"

text \<open>
  The body shared by \<open>get_album\<close> and \<open>get_artist_info\<close> (lines 178-287 and
  359-418), all inside the \<open>try\<close>: the sweep, the cache lookup, \<open>get_page()\<close>,
  the navigation and extraction (\<open>fetch\<close>), the write of the record.
\<close>

definition page_fetch ::
  "req_env \<Rightarrow> string \<Rightarrow> (unit \<Rightarrow> exc + json) \<Rightarrow> proxy_state \<Rightarrow> json \<times> proxy_state" where
  "page_fetch env cache_key fetch st =
     (let now = req_now env in
      case cleanup_expired_cache now (shelf st) of
        Inl e \<Rightarrow> fail env e (shelf st) (session st)
      | Inr c0 \<Rightarrow>
          (case cache_lookup now cache_key c0 of
             (Some v, c1) \<Rightarrow> (v, \<lparr>shelf = c1, session = session st\<rparr>)
           | (None, c1) \<Rightarrow>
               (case get_page now (req_fault env) False (session st) of
                  (Inl e, s1) \<Rightarrow> fail env e c1 s1
                | (Inr None, s1) \<Rightarrow> fail env (none_attr ''goto'') c1 s1
                | (Inr (Some _), s1) \<Rightarrow>
                    (case fetch () of
                       Inl e \<Rightarrow> fail env e c1 s1
                     | Inr result \<Rightarrow>
                         (result, \<lparr>shelf = save_in_cache now cache_key result c1, session = s1\<rparr>)))))"

section \<open>Operations\<close>

definition search_albums :: "web \<Rightarrow> req_env \<Rightarrow> string \<Rightarrow> string \<Rightarrow> proxy_state \<Rightarrow> json \<times> proxy_state" where
  "search_albums w env artist album st =
     (case album_query artist album of
        None \<Rightarrow> (err_obj msg_missing_values, st)
      | Some q \<Rightarrow>
          ajax_search w env (ALBUMS_URL @ q) (''search:'' @ artist @ ''|'' @ album) (album_rows ''album'') st)"

definition get_album :: "web \<Rightarrow> req_env \<Rightarrow> string \<Rightarrow> proxy_state \<Rightarrow> json \<times> proxy_state" where
  "get_album w env url st =
     page_fetch env (''album:'' @ url)
       (\<lambda>_. case album_page w url of Inl e \<Rightarrow> Inl e | Inr d \<Rightarrow> album_result url d) st"

definition search_artists :: "web \<Rightarrow> req_env \<Rightarrow> string \<Rightarrow> proxy_state \<Rightarrow> json \<times> proxy_state" where
  "search_artists w env artist st =
     (if artist = [] then (err_obj msg_missing_artist, st)
      else ajax_search w env (BANDS_URL @ BANDS_QUERY @ ''&bandName='' @ url_quote artist)
             (''search:'' @ artist @ ''|info'') artist_rows st)"

definition get_artist_info :: "web \<Rightarrow> req_env \<Rightarrow> string \<Rightarrow> proxy_state \<Rightarrow> json \<times> proxy_state" where
  "get_artist_info w env url st =
     page_fetch env (''band:'' @ url)
       (\<lambda>_. case band_page w url of Inl e \<Rightarrow> Inl e | Inr d \<Rightarrow> Inr (artist_result url d)) st"

definition search_albums_with_info ::
  "web \<Rightarrow> req_env \<Rightarrow> string \<Rightarrow> string \<Rightarrow> proxy_state \<Rightarrow> json \<times> proxy_state" where
  "search_albums_with_info w env artist album st =
     (case album_query artist album of
        None \<Rightarrow> (err_obj msg_missing_values, st)
      | Some q \<Rightarrow>
          ajax_search w env (ALBUMS_URL @ q) (''search_full:'' @ artist @ ''|'' @ album)
            (album_rows ''album_full'') st)"

text \<open>
  \<open>get_album_with_artist_info\<close> (lines 500-556): the sweep and the lookup of
  the composite key, then \<open>get_album\<close>, whose error is returned as it is; the
  band URL of the album data (a string in every album record); then
  \<open>get_artist_info\<close>, whose error is returned as it is; then the composite is
  written. A band URL that is not a string would make \<open>page.goto\<close> raise
  inside \<open>get_artist_info\<close>; the model returns that error directly.
\<close>

definition get_album_with_artist_info ::
  "web \<Rightarrow> req_env \<Rightarrow> string \<Rightarrow> proxy_state \<Rightarrow> json \<times> proxy_state" where
  "get_album_with_artist_info w env url st =
     (let now = req_now env; cache_key = ''album_with_artist:'' @ url in
      case cleanup_expired_cache now (shelf st) of
        Inl e \<Rightarrow> fail env e (shelf st) (session st)
      | Inr c0 \<Rightarrow>
          (case cache_lookup now cache_key c0 of
             (Some v, c1) \<Rightarrow> (v, \<lparr>shelf = c1, session = session st\<rparr>)
           | (None, c1) \<Rightarrow>
               let (album_data, st2) = get_album w env url \<lparr>shelf = c1, session = session st\<rparr> in
               if json_has_key ''error'' album_data then (album_data, st2)
               else
                 (case json_get ''metal_archives_band_url'' (JStr []) album_data of
                    JStr artist_url \<Rightarrow>
                      if artist_url = [] then (err_obj msg_no_artist_url, st2) else
                      let (artist_data, st3) = get_artist_info w env artist_url st2 in
                      if json_has_key ''error'' artist_data then (artist_data, st3)
                      else
                        let result = JObj [(''metal_archives_album_url'', JStr url),
                                           (''metal_archives_artist_url'', JStr artist_url),
                                           (''album_data'', album_data), (''artist_data'', artist_data)] in
                        (result, st3\<lparr>shelf := save_in_cache now cache_key result (shelf st3)\<rparr>)
                  | v \<Rightarrow>
                      if py_truthy v then fail env (TypeError ''url must be a string'') (shelf st2) (session st2)
                      else (err_obj msg_no_artist_url, st2))))"

section \<open>Operations as commands\<close>

text \<open>The six operations as the commands the HTTP layer issues.\<close>

datatype operation =
    SearchAlbums string string
  | SearchArtists string
  | SearchAlbumsFull string string
  | GetAlbum string
  | GetAlbumFull string
  | GetArtistInfo string

fun run_operation :: "web \<Rightarrow> req_env \<Rightarrow> operation \<Rightarrow> proxy_state \<Rightarrow> json \<times> proxy_state" where
  "run_operation w env (SearchAlbums a b) st = search_albums w env a b st"
| "run_operation w env (SearchArtists a) st = search_artists w env a st"
| "run_operation w env (SearchAlbumsFull a b) st = search_albums_with_info w env a b st"
| "run_operation w env (GetAlbum u) st = get_album w env u st"
| "run_operation w env (GetAlbumFull u) st = get_album_with_artist_info w env u st"
| "run_operation w env (GetArtistInfo u) st = get_artist_info w env u st"

text \<open>The cache key each operation reads first, when its parameters pass the early checks.\<close>

fun operation_key :: "operation \<Rightarrow> string option" where
  "operation_key (SearchAlbums a b) = map_option (\<lambda>_. ''search:'' @ a @ ''|'' @ b) (album_query a b)"
| "operation_key (SearchArtists a) = (if a = [] then None else Some (''search:'' @ a @ ''|info''))"
| "operation_key (SearchAlbumsFull a b) = map_option (\<lambda>_. ''search_full:'' @ a @ ''|'' @ b) (album_query a b)"
| "operation_key (GetAlbum u) = Some (''album:'' @ u)"
| "operation_key (GetAlbumFull u) = Some (''album_with_artist:'' @ u)"
| "operation_key (GetArtistInfo u) = Some (''band:'' @ u)"

section \<open>Invariant and views\<close>

text \<open>
  The invariant of the process state: the shelf keeps one entry per key
  (\<open>cache_inv\<close> of theory \<open>Cache\<close>) and the session attributes are
  consistent (\<open>session_inv\<close> of theory \<open>Session\<close>).
\<close>

definition proxy_inv :: "proxy_state \<Rightarrow> bool" where
  "proxy_inv st \<longleftrightarrow> cache_inv (shelf st) \<and> session_inv (session st)"

text \<open>
  What one call does to the live content of the shelf at the request time: it
  leaves it as it was, returning an error object or the live value under the
  key, or it writes under the key the value it returns, which is not an error
  object. \<open>view_step_at\<close> is the same seen at the key alone.
\<close>

definition view_step :: "instant \<Rightarrow> string \<Rightarrow> json \<Rightarrow> cache \<Rightarrow> cache \<Rightarrow> bool" where
  "view_step now k v c c' \<longleftrightarrow>
     (cache_view now c' = cache_view now c \<and> (json_has_key ''error'' v \<or> cache_view now c k = Some v \<and> py_truthy v))
     \<or> (cache_view now c' = (cache_view now c)(k \<mapsto> v) \<and> py_truthy v \<and> \<not> json_has_key ''error'' v)"

definition view_step_at :: "instant \<Rightarrow> string \<Rightarrow> json \<Rightarrow> cache \<Rightarrow> cache \<Rightarrow> bool" where
  "view_step_at now k v c c' \<longleftrightarrow>
     (cache_view now c' k = cache_view now c k \<and> (json_has_key ''error'' v \<or> cache_view now c k = Some v \<and> py_truthy v))
     \<or> (cache_view now c' k = Some v \<and> py_truthy v \<and> \<not> json_has_key ''error'' v)"

section \<open>Concrete runs\<close>

text \<open>
  Fixtures of the concrete runs: a site that answers every navigation with an
  exception, a search endpoint that sends the given rows, a request at time
  \<open>t\<close> with no automation fault, and the state at start-up with an empty
  shelf.
\<close>

abbreviation offline_web :: web where
  "offline_web \<equiv> \<lparr>ajax_capture = \<lambda>_. Inl (EngineError ''offline''), album_page = \<lambda>_. Inl (EngineError ''offline''),
                   band_page = \<lambda>_. Inl (EngineError ''offline'')\<rparr>"

abbreviation env_at :: "instant \<Rightarrow> req_env" where
  "env_at t \<equiv> \<lparr>req_now = t, req_fault = NoFault, req_teardown = {}\<rparr>"

abbreviation results_web :: "json list \<Rightarrow> web" where
  "results_web rows \<equiv> \<lparr>ajax_capture = \<lambda>_. Inr (JObj [(''aaData'', JArr rows)]),
                          album_page = \<lambda>_. Inl (EngineError ''offline''), band_page = \<lambda>_. Inl (EngineError ''offline'')\<rparr>"

abbreviation idle_state :: proxy_state where
  "idle_state \<equiv> \<lparr>shelf = [], session = initial_session 0\<rparr>"

section \<open>Lemmas on the shared steps and the operations\<close>

lemma proxy_state_shelf_update [simp]: "st\<lparr>shelf := c\<rparr> = \<lparr>shelf = c, session = session st\<rparr>"
  by (cases st) simp

lemma cache_lookup_eq:
  "cache_lookup now k c =
     ((case cache_view now c k of Some v \<Rightarrow> if py_truthy v then Some v else None | None \<Rightarrow> None),
      snd (get_data_from_cache now k c))"
proof -
  obtain r c1 where g: "get_data_from_cache now k c = (r, c1)" by fastforce
  then have "r = cache_view now c k" using get_data_from_cache_view [of now k c] by simp
  with g show ?thesis by (auto simp: cache_lookup_def split: option.split)
qed

lemma cache_lookup_view [simp]: "cache_view now (snd (cache_lookup now k c)) = cache_view now c"
  by (simp add: cache_lookup_eq get_data_from_cache_keeps_view)

lemma cache_lookup_inv [simp]: "cache_inv c \<Longrightarrow> cache_inv (snd (cache_lookup now k c))"
  by (simp add: cache_lookup_eq)

lemma cache_lookup_Some:
  "fst (cache_lookup now k c) = Some v \<longleftrightarrow> cache_view now c k = Some v \<and> py_truthy v"
  by (auto simp: cache_lookup_eq split: option.split)

lemma cache_lookup_hit:
  "cache_view now c k = Some v \<Longrightarrow> py_truthy v \<Longrightarrow> cache_lookup now k c = (Some v, snd (get_data_from_cache now k c))"
  by (simp add: cache_lookup_eq)

lemma cache_lookup_miss:
  "cache_view now c k = None \<Longrightarrow> cache_lookup now k c = (None, snd (get_data_from_cache now k c))"
  by (simp add: cache_lookup_eq)

lemma cache_lookup_inv_dest: "cache_lookup now k c = (h, c1) \<Longrightarrow> cache_inv c \<Longrightarrow> cache_inv c1"
  using cache_lookup_inv [of c now k] by simp

lemma cleanup_ok:
  assumes "cache_inv c"
  obtains c0 where "cleanup_expired_cache now c = Inr c0" "cache_view now c0 = cache_view now c" "cache_inv c0"
  using assms cleanup_expired_cache_eq [OF assms, of now] cleanup_expired_cache_view cache_inv_cleanup
  by blast

lemma close_inactive: "\<not> is_active (snd (close fails s)) \<and> page (snd (close fails s)) = None"
  by (simp add: close_def is_active_def)

lemma fail_shelf [simp]: "shelf (snd (fail env e c s)) = c"
  by (simp add: fail_def)

lemma fail_error [simp]: "json_has_key ''error'' (fst (fail env e c s))"
  by (simp add: fail_def)

lemma fail_session_inv [simp]: "session_inv s \<Longrightarrow> session_inv (session (snd (fail env e c s)))"
  by (simp add: fail_def session_inv_close)

lemma err_obj_error_key [simp]: "json_has_key ''error'' (err_obj m)"
  by (simp add: err_obj_def)

lemma save_view_now [simp]: "cache_view now (save_in_cache now k v c) = (cache_view now c)(k \<mapsto> v)"
  by (rule save_in_cache_view) (simp add: cache_ttl_pos less_imp_le)

lemma ajax_search_miss:
  assumes "cache_lookup (req_now env) k (shelf st) = (None, c1)"
    and "ajax_search w env u k loop st = (v, st')"
  shows "(shelf st' = c1 \<and> json_has_key ''error'' v)
         \<or> (shelf st' = save_in_cache (req_now env) k v c1 \<and> py_truthy v \<and> \<not> json_has_key ''error'' v)"
  using assms
  by (auto simp: ajax_search_def Let_def fail_def split: prod.splits option.splits sum.splits if_splits)

lemma ajax_search_hit:
  assumes "cache_lookup (req_now env) k (shelf st) = (Some x, c1)"
  shows "ajax_search w env u k loop st = (x, st\<lparr>shelf := c1\<rparr>)"
  using assms by (simp add: ajax_search_def)

lemma ajax_search_view:
  assumes "ajax_search w env u k loop st = (v, st')"
  shows "view_step (req_now env) k v (shelf st) (shelf st')"
proof -
  obtain h c1 where lk: "cache_lookup (req_now env) k (shelf st) = (h, c1)" by fastforce
  have c1: "cache_view (req_now env) c1 = cache_view (req_now env) (shelf st)"
    using cache_lookup_view [of "req_now env" k "shelf st"] lk by simp
  show ?thesis
  proof (cases h)
    case None
    with lk assms have "(shelf st' = c1 \<and> json_has_key ''error'' v)
         \<or> (shelf st' = save_in_cache (req_now env) k v c1 \<and> py_truthy v \<and> \<not> json_has_key ''error'' v)"
      by (intro ajax_search_miss) simp_all
    with c1 show ?thesis by (auto simp: view_step_def)
  next
    case (Some x)
    with lk assms have "v = x" "shelf st' = c1" by (auto simp: ajax_search_hit)
    moreover have "cache_view (req_now env) (shelf st) k = Some x \<and> py_truthy x"
      using lk Some cache_lookup_Some [of "req_now env" k "shelf st" x] by simp
    ultimately show ?thesis using c1 by (simp add: view_step_def)
  qed
qed

lemma page_fetch_miss:
  assumes "get_page (req_now env) (req_fault env) False (session st) = (r, s1)"
    and "\<And>res. fetch () = Inr res \<Longrightarrow> py_truthy res \<and> \<not> json_has_key ''error'' res"
    and "page_fetch env k fetch st = (v, st')"
    and "cleanup_expired_cache (req_now env) (shelf st) = Inr c0"
    and "cache_lookup (req_now env) k c0 = (None, c1)"
  shows "(shelf st' = c1 \<and> json_has_key ''error'' v)
         \<or> (shelf st' = save_in_cache (req_now env) k v c1 \<and> py_truthy v \<and> \<not> json_has_key ''error'' v)"
  using assms
  by (auto simp: page_fetch_def Let_def fail_def split: prod.splits option.splits sum.splits if_splits)

lemma page_fetch_view:
  assumes "cache_inv (shelf st)"
    and "\<And>res. fetch () = Inr res \<Longrightarrow> py_truthy res \<and> \<not> json_has_key ''error'' res"
    and "page_fetch env k fetch st = (v, st')"
  shows "view_step (req_now env) k v (shelf st) (shelf st')"
proof -
  let ?now = "req_now env"
  obtain c0 where c0: "cleanup_expired_cache ?now (shelf st) = Inr c0"
    "cache_view ?now c0 = cache_view ?now (shelf st)"
    using assms(1) by (rule cleanup_ok)
  obtain h c1 where lk: "cache_lookup ?now k c0 = (h, c1)" by fastforce
  have c1: "cache_view ?now c1 = cache_view ?now (shelf st)"
    using cache_lookup_view [of ?now k c0] lk c0(2) by simp
  show ?thesis
  proof (cases h)
    case None
    obtain r s1 where gp: "get_page ?now (req_fault env) False (session st) = (r, s1)" by fastforce
    from gp assms(2,3) c0(1) lk None
    have "(shelf st' = c1 \<and> json_has_key ''error'' v)
         \<or> (shelf st' = save_in_cache ?now k v c1 \<and> py_truthy v \<and> \<not> json_has_key ''error'' v)"
      by (intro page_fetch_miss) simp_all
    with c1 show ?thesis by (auto simp: view_step_def)
  next
    case (Some x)
    with lk assms(3) c0(1) have "v = x" "shelf st' = c1" by (auto simp: page_fetch_def)
    moreover have "cache_view ?now c0 k = Some x \<and> py_truthy x"
      using lk Some cache_lookup_Some [of ?now k c0 x] by simp
    ultimately show ?thesis using c1 c0(2) by (simp add: view_step_def)
  qed
qed

lemma album_result_ok:
  "album_result url d = Inr res \<Longrightarrow> py_truthy res \<and> \<not> json_has_key ''error'' res"
  by (auto simp: album_result_Inr album_record_def Let_def)

lemma artist_result_ok: "py_truthy (artist_result url d) \<and> \<not> json_has_key ''error'' (artist_result url d)"
  by (simp add: artist_result_def)

lemma get_album_view:
  "cache_inv (shelf st) \<Longrightarrow> get_album w env url st = (v, st') \<Longrightarrow>
   view_step (req_now env) (''album:'' @ url) v (shelf st) (shelf st')"
  unfolding get_album_def
  by (erule page_fetch_view) (auto simp: album_result_ok split: sum.splits)

lemma get_artist_info_view:
  "cache_inv (shelf st) \<Longrightarrow> get_artist_info w env url st = (v, st') \<Longrightarrow>
   view_step (req_now env) (''band:'' @ url) v (shelf st) (shelf st')"
  unfolding get_artist_info_def
  by (erule page_fetch_view) (auto simp: artist_result_ok split: sum.splits)

lemma start_inv_dest: "start now f s = (r, s1) \<Longrightarrow> session_inv s \<Longrightarrow> session_inv s1"
  using session_inv_start [of s now f] by simp

lemma get_page_inv_dest: "get_page now f new s = (r, s1) \<Longrightarrow> session_inv s \<Longrightarrow> session_inv s1"
  using session_inv_get_page [of s now f new] by simp

lemma fail_inv [simp]: "cache_inv c \<Longrightarrow> session_inv s \<Longrightarrow> proxy_inv (snd (fail env e c s))"
  by (simp add: proxy_inv_def)

lemma ajax_search_inv:
  "proxy_inv st \<Longrightarrow> proxy_inv (snd (ajax_search w env u k loop st))"
  unfolding proxy_inv_def ajax_search_def Let_def
  by (auto split: prod.splits option.splits sum.splits if_splits
           dest: start_inv_dest cache_lookup_inv_dest simp: proxy_inv_def)

lemma page_fetch_inv:
  "proxy_inv st \<Longrightarrow> proxy_inv (snd (page_fetch env k fetch st))"
  unfolding proxy_inv_def page_fetch_def Let_def
  by (auto split: prod.splits option.splits sum.splits if_splits
           dest: get_page_inv_dest cache_lookup_inv_dest cache_inv_cleanup simp: proxy_inv_def)

lemma composite_miss:
  assumes "cleanup_expired_cache (req_now env) (shelf st) = Inr c0"
    and "cache_lookup (req_now env) (''album_with_artist:'' @ url) c0 = (None, c1)"
    and "get_album w env url \<lparr>shelf = c1, session = session st\<rparr> = (ad, st2)"
    and "get_album_with_artist_info w env url st = (v, st')"
  shows "(shelf st' = shelf st2 \<and> json_has_key ''error'' v)
         \<or> (\<exists>u artd st3. get_artist_info w env u st2 = (artd, st3)
              \<and> ((shelf st' = shelf st3 \<and> json_has_key ''error'' v)
                 \<or> (shelf st' = save_in_cache (req_now env) (''album_with_artist:'' @ url) v (shelf st3)
                    \<and> py_truthy v \<and> \<not> json_has_key ''error'' v)))"
  using assms
  apply (auto simp: get_album_with_artist_info_def Let_def fail_def
           split: prod.splits option.splits sum.splits if_splits json.splits)
  apply force+
  done

lemma view_step_at_key: "view_step now k v c c' \<Longrightarrow> view_step_at now k v c c'"
  by (auto simp: view_step_def view_step_at_def)

lemma view_step_other: "view_step now k v c c' \<Longrightarrow> k' \<noteq> k \<Longrightarrow> cache_view now c' k' = cache_view now c k'"
  by (auto simp: view_step_def)

lemma get_album_inv: "proxy_inv st \<Longrightarrow> proxy_inv (snd (get_album w env url st))"
  by (simp add: get_album_def page_fetch_inv)

lemma get_artist_info_inv: "proxy_inv st \<Longrightarrow> proxy_inv (snd (get_artist_info w env url st))"
  by (simp add: get_artist_info_def page_fetch_inv)

lemma get_artist_info_inv_dest:
  "get_artist_info w env url st = (v, st') \<Longrightarrow> proxy_inv st \<Longrightarrow> proxy_inv st'"
  using get_artist_info_inv [of st w env url] by simp

lemma proxy_inv_save [simp]:
  "proxy_inv st \<Longrightarrow> proxy_inv \<lparr>shelf = save_in_cache now k v (shelf st), session = session st\<rparr>"
  by (simp add: proxy_inv_def)

lemma proxy_inv_close [simp]:
  "proxy_inv st \<Longrightarrow> proxy_inv \<lparr>shelf = shelf st, session = snd (close fails (session st))\<rparr>"
  by (simp add: proxy_inv_def session_inv_close)

lemma proxy_inv_cache: "proxy_inv st \<Longrightarrow> cache_inv (shelf st)"
  by (simp add: proxy_inv_def)

lemma composite_view:
  assumes inv: "proxy_inv st" and run: "get_album_with_artist_info w env url st = (v, st')"
  shows "view_step_at (req_now env) (''album_with_artist:'' @ url) v (shelf st) (shelf st')"
proof -
  let ?now = "req_now env" and ?k = "''album_with_artist:'' @ url"
  obtain c0 where c0: "cleanup_expired_cache ?now (shelf st) = Inr c0"
    "cache_view ?now c0 = cache_view ?now (shelf st)" "cache_inv c0"
    using inv by (auto simp: proxy_inv_def elim: cleanup_ok)
  obtain h c1 where lk: "cache_lookup ?now ?k c0 = (h, c1)" by fastforce
  have "cache_view ?now c1 = cache_view ?now c0"
    using cache_lookup_view [of ?now ?k c0] unfolding lk by simp
  then have c1: "cache_view ?now c1 = cache_view ?now (shelf st)" "cache_inv c1"
    using cache_lookup_inv_dest [OF lk c0(3)] c0(2) by simp_all
  show ?thesis
  proof (cases h)
    case (Some x)
    with lk run c0(1) have "v = x" "shelf st' = c1"
      by (auto simp: get_album_with_artist_info_def Let_def)
    moreover have "cache_view ?now c0 ?k = Some x \<and> py_truthy x"
      using lk Some cache_lookup_Some [of ?now ?k c0 x] by simp
    ultimately show ?thesis using c1 c0(2) by (simp add: view_step_at_def)
  next
    case None
    let ?st1 = "\<lparr>shelf = c1, session = session st\<rparr>"
    obtain ad st2 where ga: "get_album w env url ?st1 = (ad, st2)" by fastforce
    have inv2: "proxy_inv st2"
      using get_album_inv [of ?st1 w env url] inv c1(2) ga by (simp add: proxy_inv_def)
    have v2: "cache_view ?now (shelf st2) ?k = cache_view ?now c1 ?k"
      using get_album_view [of ?st1 w env url ad st2] c1(2) ga by (auto elim: view_step_other)
    have band: "cache_view ?now (shelf st3) ?k = cache_view ?now (shelf st2) ?k"
      if "get_artist_info w env u st2 = (artd, st3)" for u artd st3
      using get_artist_info_view [OF proxy_inv_cache [OF inv2] that] by (auto elim: view_step_other)
    from composite_miss [OF c0(1) lk [unfolded None] ga run]
    show ?thesis
    proof (elim disjE exE conjE)
      assume "shelf st' = shelf st2" "json_has_key ''error'' v"
      then show ?thesis using v2 c1(1) by (simp add: view_step_at_def)
    next
      fix u artd st3
      assume a: "get_artist_info w env u st2 = (artd, st3)" "shelf st' = shelf st3" "json_has_key ''error'' v"
      then show ?thesis using band [OF a(1)] v2 c1(1) by (simp add: view_step_at_def)
    next
      fix u artd st3
      assume "get_artist_info w env u st2 = (artd, st3)"
        "shelf st' = save_in_cache ?now ?k v (shelf st3)" "py_truthy v" "\<not> json_has_key ''error'' v"
      then show ?thesis by (simp add: view_step_at_def)
    qed
  qed
qed

lemma composite_inv:
  assumes inv: "proxy_inv st"
  shows "proxy_inv (snd (get_album_with_artist_info w env url st))"
proof -
  let ?now = "req_now env" and ?k = "''album_with_artist:'' @ url"
  obtain v st' where run: "get_album_with_artist_info w env url st = (v, st')" by fastforce
  obtain c0 where c0: "cleanup_expired_cache ?now (shelf st) = Inr c0" "cache_inv c0"
    using inv by (auto simp: proxy_inv_def elim: cleanup_ok)
  obtain h c1 where lk: "cache_lookup ?now ?k c0 = (h, c1)" by fastforce
  have c1: "cache_inv c1" using cache_lookup_inv [OF c0(2), of ?now ?k] lk by simp
  have "proxy_inv st'"
  proof (cases h)
    case (Some x)
    with lk run c0(1) have "st' = \<lparr>shelf = c1, session = session st\<rparr>"
      by (auto simp: get_album_with_artist_info_def Let_def)
    with c1 inv show ?thesis by (simp add: proxy_inv_def)
  next
    case None
    let ?st1 = "\<lparr>shelf = c1, session = session st\<rparr>"
    obtain ad st2 where ga: "get_album w env url ?st1 = (ad, st2)" by fastforce
    have inv2: "proxy_inv st2"
      using get_album_inv [of ?st1 w env url] inv c1 ga by (simp add: proxy_inv_def)
    show ?thesis
      using run c0(1) lk None ga inv2 get_artist_info_inv_dest [OF _ inv2]
      by (auto simp: get_album_with_artist_info_def Let_def fail_def split: prod.splits if_splits json.splits)
  qed
  with run show ?thesis by simp
qed

lemma page_fetch_hit:
  assumes "cache_inv (shelf st)" "cache_view (req_now env) (shelf st) k = Some v" "py_truthy v"
  shows "\<exists>c'. page_fetch env k fetch st = (v, \<lparr>shelf = c', session = session st\<rparr>) \<and> cache_view (req_now env) c' = cache_view (req_now env) (shelf st)"
proof -
  obtain c0 where c0: "cleanup_expired_cache (req_now env) (shelf st) = Inr c0"
    "cache_view (req_now env) c0 = cache_view (req_now env) (shelf st)"
    using assms(1) by (rule cleanup_ok)
  show ?thesis
    using c0 assms(2,3) cache_lookup_hit [of "req_now env" c0 k v]
    by (intro exI [of _ "snd (get_data_from_cache (req_now env) k c0)"])
       (simp add: page_fetch_def get_data_from_cache_keeps_view)
qed

lemma ajax_search_hit_view:
  assumes "cache_view (req_now env) (shelf st) k = Some v" "py_truthy v"
  shows "\<exists>c'. ajax_search w env u k loop st = (v, \<lparr>shelf = c', session = session st\<rparr>) \<and> cache_view (req_now env) c' = cache_view (req_now env) (shelf st)"
  using assms cache_lookup_hit [of "req_now env" "shelf st" k v]
  by (intro exI [of _ "snd (get_data_from_cache (req_now env) k (shelf st))"])
     (simp add: ajax_search_hit get_data_from_cache_keeps_view)

lemma composite_hit:
  assumes "cache_inv (shelf st)" "cache_view (req_now env) (shelf st) (''album_with_artist:'' @ url) = Some v" "py_truthy v"
  shows "\<exists>c'. get_album_with_artist_info w env url st = (v, \<lparr>shelf = c', session = session st\<rparr>)
           \<and> cache_view (req_now env) c' = cache_view (req_now env) (shelf st)"
proof -
  obtain c0 where c0: "cleanup_expired_cache (req_now env) (shelf st) = Inr c0"
    "cache_view (req_now env) c0 = cache_view (req_now env) (shelf st)"
    using assms(1) by (rule cleanup_ok)
  show ?thesis
    using c0 assms(2,3) cache_lookup_hit [of "req_now env" c0 "''album_with_artist:'' @ url" v]
    by (intro exI [of _ "snd (get_data_from_cache (req_now env) (''album_with_artist:'' @ url) c0)"])
       (simp add: get_album_with_artist_info_def get_data_from_cache_keeps_view)
qed

lemma operation_hit:
  assumes "proxy_inv st" "operation_key op = Some k" "cache_view (req_now env) (shelf st) k = Some v" "py_truthy v"
  shows "\<exists>c'. run_operation w env op st = (v, \<lparr>shelf = c', session = session st\<rparr>)
           \<and> cache_view (req_now env) c' = cache_view (req_now env) (shelf st)"
  using assms
  by (cases op) (auto simp: search_albums_def search_artists_def search_albums_with_info_def
      get_album_def get_artist_info_def proxy_inv_def ajax_search_hit_view page_fetch_hit composite_hit
      split: option.splits if_splits)

lemma operation_view:
  assumes inv: "proxy_inv st" and key: "operation_key op = Some k" and run: "run_operation w env op st = (v, st')"
  shows "view_step_at (req_now env) k v (shelf st) (shelf st')"
proof (cases op)
  case (SearchAlbums a b)
  with key run show ?thesis
    by (auto simp: search_albums_def intro: view_step_at_key ajax_search_view split: option.splits)
next
  case (SearchArtists a)
  with key run show ?thesis
    by (auto simp: search_artists_def intro: view_step_at_key ajax_search_view split: if_splits)
next
  case (SearchAlbumsFull a b)
  with key run show ?thesis
    by (auto simp: search_albums_with_info_def intro: view_step_at_key ajax_search_view split: option.splits)
next
  case (GetAlbum u)
  with key run get_album_view [OF proxy_inv_cache [OF inv], of w env u v st'] show ?thesis
    by (simp add: view_step_at_key)
next
  case (GetAlbumFull u)
  with key run composite_view [OF inv, of w env u v st'] show ?thesis by simp
next
  case (GetArtistInfo u)
  with key run get_artist_info_view [OF proxy_inv_cache [OF inv], of w env u v st'] show ?thesis
    by (simp add: view_step_at_key)
qed

lemma operation_inv: "proxy_inv st \<Longrightarrow> proxy_inv (snd (run_operation w env op st))"
  by (cases op) (simp_all add: search_albums_def search_artists_def search_albums_with_info_def
      ajax_search_inv get_album_inv get_artist_info_inv composite_inv split: option.split)

lemma operation_stored:
  assumes "proxy_inv st" "operation_key op = Some k" "run_operation w env op st = (v, st')"
    and "\<not> json_has_key ''error'' v"
  shows "cache_view (req_now env) (shelf st') k = Some v \<and> py_truthy v"
  using operation_view [OF assms(1-3)] assms(4) by (auto simp: view_step_at_def)

lemma idle_state_inv: "proxy_inv idle_state"
  by (simp add: proxy_inv_def cache_inv_def session_inv_initial)

section \<open>Properties of the operations\<close>

text \<open>
  C16. On a cache hit every operation returns the cached value at once: the
  session is untouched (no navigation, no start) and the live content of the
  shelf is unchanged.
\<close>

theorem cache_hit_no_session_activity:
  assumes "proxy_inv st" and "operation_key op = Some k"
    and "cache_view (req_now env) (shelf st) k = Some v" and "py_truthy v"
  shows "\<exists>c'. run_operation w env op st = (v, \<lparr>shelf = c', session = session st\<rparr>)
           \<and> cache_view (req_now env) c' = cache_view (req_now env) (shelf st)"
  using assms by (rule operation_hit)

theorem cache_hit_no_session_activity_witness:
  "\<exists>c'. run_operation
          \<lparr>ajax_capture = \<lambda>_. Inl (EngineError ''offline''), album_page = \<lambda>_. Inl (EngineError ''offline''),
           band_page = \<lambda>_. Inl (EngineError ''offline'')\<rparr>
          \<lparr>req_now = 5, req_fault = FailEngine, req_teardown = {}\<rparr>
          (GetAlbum ''u'')
          \<lparr>shelf = [(''album:u'', \<lparr>timestamp = 0, data = JObj [(''album'', JStr ''A'')]\<rparr>)], session = initial_session 0\<rparr>
        = (JObj [(''album'', JStr ''A'')], \<lparr>shelf = c', session = initial_session 0\<rparr>)
        \<and> cache_view 5 c' = cache_view 5 [(''album:u'', \<lparr>timestamp = 0, data = JObj [(''album'', JStr ''A'')]\<rparr>)]"
proof -
  let ?w = "\<lparr>ajax_capture = \<lambda>_. Inl (EngineError ''offline''), album_page = \<lambda>_. Inl (EngineError ''offline''),
           band_page = \<lambda>_. Inl (EngineError ''offline'')\<rparr> :: web"
  let ?env = "\<lparr>req_now = 5, req_fault = FailEngine, req_teardown = {}\<rparr> :: req_env"
  let ?c = "[(''album:u'', \<lparr>timestamp = 0, data = JObj [(''album'', JStr ''A'')]\<rparr>)]"
  let ?st = "\<lparr>shelf = ?c, session = initial_session 0\<rparr>"
  have inv: "proxy_inv ?st" by (simp add: proxy_inv_def cache_inv_def session_inv_initial)
  have key: "operation_key (GetAlbum ''u'') = Some (''album:'' @ ''u'')" by simp
  have hit: "cache_view (req_now ?env) (shelf ?st) (''album:'' @ ''u'') = Some (JObj [(''album'', JStr ''A'')])"
    by (simp add: cache_view_def is_expired_def cache_ttl_def DAYS_TO_EXPIRE_def seconds_def)
  have "py_truthy (JObj [(''album'', JStr ''A'')])" by simp
  from cache_hit_no_session_activity [OF inv key hit this, of ?w] show ?thesis by simp
qed

text \<open>
  A search whose required names are all empty is answered with the
  missing-parameter error, and neither the shelf nor the session changes.
\<close>

theorem missing_parameters_no_effect:
  assumes "operation_key op = None"
  shows "\<exists>m \<in> {msg_missing_values, msg_missing_artist}. run_operation w env op st = (err_obj m, st)"
  using assms
  by (cases op) (auto simp: search_albums_def search_artists_def search_albums_with_info_def split: if_splits)

theorem missing_parameters_no_effect_witness:
  "\<exists>m \<in> {msg_missing_values, msg_missing_artist}.
     run_operation offline_web (env_at 0) (SearchAlbums [] []) idle_state = (err_obj m, idle_state)"
  by (rule missing_parameters_no_effect) (simp add: album_query_def)

text \<open>
  C17. Every result that is not an error object is live in the cache under the
  operation's key when the operation returns.
\<close>

theorem successful_result_cached:
  assumes "proxy_inv st" and "operation_key op = Some k" and "run_operation w env op st = (v, st')"
    and "\<not> json_has_key ''error'' v"
  shows "cache_view (req_now env) (shelf st') k = Some v"
  using operation_stored [OF assms] by simp

theorem successful_result_cached_witness:
  "cache_view 0 (shelf (snd (run_operation (results_web []) (env_at 0) (SearchAlbums ''Burzum'' ''Filosofem'') idle_state)))
     ''search:Burzum|Filosofem'' = Some (JObj [(''results'', JArr [])])"
proof -
  let ?r = "run_operation (results_web []) (env_at 0) (SearchAlbums ''Burzum'' ''Filosofem'') idle_state"
  have v: "fst ?r = JObj [(''results'', JArr [])]" by code_simp
  have key: "operation_key (SearchAlbums ''Burzum'' ''Filosofem'') = Some (''search:Burzum|Filosofem'')"
    by (simp add: album_query_def)
  have run: "?r = (fst ?r, snd ?r)" by simp
  from successful_result_cached [OF idle_state_inv key run] v show ?thesis by simp
qed

text \<open>
  Repeating a successful operation at the same time is answered from the
  cache with the same value, whatever the site and the automation engine do, and
  without touching the session.
\<close>

theorem repeated_request_served_from_cache:
  assumes "proxy_inv st" and "operation_key op = Some k" and "run_operation w env op st = (v, st')"
    and "\<not> json_has_key ''error'' v" and "req_now env' = req_now env"
  shows "\<exists>c'. run_operation w' env' op st' = (v, \<lparr>shelf = c', session = session st'\<rparr>)"
proof -
  have st': "proxy_inv st'" using operation_inv [OF assms(1), of w env op] assms(3) by simp
  have "cache_view (req_now env') (shelf st') k = Some v \<and> py_truthy v"
    using operation_stored [OF assms(1-4)] assms(5) by simp
  then show ?thesis using operation_hit [OF st' assms(2), of env' v w'] by blast
qed

theorem repeated_request_served_from_cache_witness:
  "\<exists>c'. run_operation offline_web (env_at 0) (SearchAlbums ''Burzum'' ''Filosofem'')
          (snd (run_operation (results_web []) (env_at 0) (SearchAlbums ''Burzum'' ''Filosofem'') idle_state))
        = (JObj [(''results'', JArr [])],
           \<lparr>shelf = c', session = session (snd (run_operation (results_web []) (env_at 0)
                                               (SearchAlbums ''Burzum'' ''Filosofem'') idle_state))\<rparr>)"
proof -
  let ?r = "run_operation (results_web []) (env_at 0) (SearchAlbums ''Burzum'' ''Filosofem'') idle_state"
  have v: "fst ?r = JObj [(''results'', JArr [])]" by code_simp
  have key: "operation_key (SearchAlbums ''Burzum'' ''Filosofem'') = Some (''search:Burzum|Filosofem'')"
    by (simp add: album_query_def)
  have run: "?r = (fst ?r, snd ?r)" by simp
  have "\<not> json_has_key ''error'' (fst ?r)" using v by simp
  from repeated_request_served_from_cache [OF idle_state_inv key run this, of "env_at 0" offline_web] v
  show ?thesis by simp
qed

text \<open>
  When the AJAX payload is not captured, an album search returns the soft
  capture error, writes nothing and keeps the session it started, which stays
  active (no teardown).
\<close>

theorem search_capture_failure_no_teardown:
  assumes "proxy_inv st" and "album_query a b = Some q"
    and "cache_view (req_now env) (shelf st) (''search:'' @ a @ ''|'' @ b) = None"
    and "start (req_now env) (req_fault env) (session st) = (Inr (Some p), s1)"
    and "ajax_capture w (ALBUMS_URL @ q) = Inr d" and "\<not> json_has_key ''aaData'' d"
  shows "\<exists>c1. search_albums w env a b st = (err_obj msg_no_capture, \<lparr>shelf = c1, session = s1\<rparr>)
           \<and> cache_view (req_now env) c1 = cache_view (req_now env) (shelf st) \<and> is_active s1"
proof -
  have "session_inv s1" using start_inv_dest [OF assms(4)] assms(1) by (simp add: proxy_inv_def)
  moreover have "page s1 = Some p" using start_Inr_page [OF assms(4)] by simp
  ultimately have "is_active s1" by (auto simp: session_inv_def is_active_def)
  then show ?thesis
    using assms(2-6) cache_lookup_miss [OF assms(3)]
    by (simp add: search_albums_def ajax_search_def get_data_from_cache_keeps_view)
qed

theorem search_capture_failure_no_teardown_witness:
  "\<exists>c1. search_albums \<lparr>ajax_capture = \<lambda>_. Inr (JObj []), album_page = \<lambda>_. Inl (EngineError ''offline''),
                            band_page = \<lambda>_. Inl (EngineError ''offline'')\<rparr>
          (env_at 0) ''Burzum'' [] idle_state
        = (err_obj msg_no_capture, \<lparr>shelf = c1, session = snd (start 0 NoFault (initial_session 0))\<rparr>)
        \<and> cache_view 0 c1 = cache_view 0 [] \<and> is_active (snd (start 0 NoFault (initial_session 0)))"
proof -
  have q: "album_query ''Burzum'' [] = Some (ALBUMS_QUERY @ ''&bandName='' @ url_quote ''Burzum'')"
    by (simp add: album_query_def)
  have v: "cache_view (req_now (env_at 0)) (shelf idle_state) (''search:'' @ ''Burzum'' @ ''|'' @ []) = None"
    by (simp add: cache_view_def)
  have st: "start (req_now (env_at 0)) (req_fault (env_at 0)) (session idle_state)
            = (Inr (Some 3), snd (start 0 NoFault (initial_session 0)))"
    by (simp add: start_def start_monitor_def initial_session_def)
  from search_capture_failure_no_teardown [OF idle_state_inv q v st, of
      "\<lparr>ajax_capture = \<lambda>_. Inr (JObj []), album_page = \<lambda>_. Inl (EngineError ''offline''),
        band_page = \<lambda>_. Inl (EngineError ''offline'')\<rparr>" "JObj []"]
  show ?thesis by simp
qed

text \<open>
  C18. When starting the session or navigating raises during an album search,
  the search returns the exception's message, writes nothing, and the session
  is closed.
\<close>

theorem search_navigation_error_closes_session:
  assumes "album_query a b = Some q"
    and "cache_view (req_now env) (shelf st) (''search:'' @ a @ ''|'' @ b) = None"
    and "start (req_now env) (req_fault env) (session st) = (Inl ex, s1)
         \<or> (start (req_now env) (req_fault env) (session st) = (Inr (Some p), s1) \<and> ajax_capture w (ALBUMS_URL @ q) = Inl ex)"
  shows "\<exists>c1. search_albums w env a b st
                = (err_obj (exc_str ex), \<lparr>shelf = c1, session = snd (close (req_teardown env) s1)\<rparr>)
           \<and> cache_view (req_now env) c1 = cache_view (req_now env) (shelf st)
           \<and> \<not> is_active (snd (close (req_teardown env) s1))"
  using assms cache_lookup_miss [OF assms(2)]
  by (auto simp: search_albums_def ajax_search_def fail_def get_data_from_cache_keeps_view close_inactive)

theorem search_navigation_error_closes_session_witness:
  "\<exists>c1. search_albums offline_web (env_at 0) ''Burzum'' [] idle_state
        = (err_obj ''offline'', \<lparr>shelf = c1, session = snd (close {} (snd (start 0 NoFault (initial_session 0))))\<rparr>)
        \<and> cache_view 0 c1 = cache_view 0 []
        \<and> \<not> is_active (snd (close {} (snd (start 0 NoFault (initial_session 0)))))"
proof -
  have q: "album_query ''Burzum'' [] = Some (ALBUMS_QUERY @ ''&bandName='' @ url_quote ''Burzum'')"
    by (simp add: album_query_def)
  have v: "cache_view (req_now (env_at 0)) (shelf idle_state) (''search:'' @ ''Burzum'' @ ''|'' @ []) = None"
    by (simp add: cache_view_def)
  have st: "start (req_now (env_at 0)) (req_fault (env_at 0)) (session idle_state)
            = (Inr (Some 3), snd (start 0 NoFault (initial_session 0)))
          \<and> ajax_capture offline_web (ALBUMS_URL @ ALBUMS_QUERY @ ''&bandName='' @ url_quote ''Burzum'')
            = Inl (EngineError ''offline'')"
    by (simp add: start_def start_monitor_def initial_session_def)
  from search_navigation_error_closes_session [OF q v disjI2 [OF st]] show ?thesis by simp
qed

text \<open>
  When the navigation to an album page raises, \<open>get_album\<close> returns
  the exception's message, writes nothing, and the session is closed.
\<close>

theorem album_navigation_error_closes_session:
  assumes "proxy_inv st" and "cache_view (req_now env) (shelf st) (''album:'' @ url) = None"
    and "get_page (req_now env) (req_fault env) False (session st) = (Inr (Some p), s1)"
    and "album_page w url = Inl ex"
  shows "\<exists>c1. get_album w env url st
                = (err_obj (exc_str ex), \<lparr>shelf = c1, session = snd (close (req_teardown env) s1)\<rparr>)
           \<and> cache_view (req_now env) c1 = cache_view (req_now env) (shelf st)
           \<and> \<not> is_active (snd (close (req_teardown env) s1))"
proof -
  obtain c0 where c0: "cleanup_expired_cache (req_now env) (shelf st) = Inr c0"
    "cache_view (req_now env) c0 = cache_view (req_now env) (shelf st)"
    using proxy_inv_cache [OF assms(1)] by (rule cleanup_ok)
  have "cache_view (req_now env) c0 (''album:'' @ url) = None" using c0(2) assms(2) by simp
  from cache_lookup_miss [OF this] show ?thesis
    using assms(3,4) c0
    by (simp add: get_album_def page_fetch_def fail_def get_data_from_cache_keeps_view close_inactive)
qed

theorem album_navigation_error_closes_session_witness:
  "\<exists>c1. get_album offline_web (env_at 0) ''u'' idle_state
        = (err_obj ''offline'', \<lparr>shelf = c1, session = snd (close {} (snd (start 0 NoFault (initial_session 0))))\<rparr>)
        \<and> cache_view 0 c1 = cache_view 0 []
        \<and> \<not> is_active (snd (close {} (snd (start 0 NoFault (initial_session 0)))))"
proof -
  have v: "cache_view (req_now (env_at 0)) (shelf idle_state) (''album:'' @ ''u'') = None"
    by (simp add: cache_view_def)
  have gp: "get_page (req_now (env_at 0)) (req_fault (env_at 0)) False (session idle_state)
            = (Inr (Some 3), snd (start 0 NoFault (initial_session 0)))"
    by (simp add: get_page_def is_active_def start_def start_monitor_def initial_session_def)
  from album_navigation_error_closes_session [OF idle_state_inv v gp, of offline_web "EngineError ''offline''"]
  show ?thesis by simp
qed

text \<open>
  C19. When the album-with-artist operation returns an error (its album or band
  sub-fetch failed, or the album has no band URL), no composite entry is written:
  the live content under the composite key is what it was.
\<close>

theorem composite_failure_not_cached:
  assumes "proxy_inv st" and "get_album_with_artist_info w env url st = (v, st')"
    and "json_has_key ''error'' v"
  shows "cache_view (req_now env) (shelf st') (''album_with_artist:'' @ url)
         = cache_view (req_now env) (shelf st) (''album_with_artist:'' @ url)"
  using composite_view [OF assms(1,2)] assms(3) by (auto simp: view_step_at_def)

theorem composite_failure_not_cached_witness:
  "json_has_key ''error''
     (fst (get_album_with_artist_info
       \<lparr>ajax_capture = \<lambda>_. Inl (EngineError ''offline''),
        album_page = \<lambda>_. Inr \<lparr>sel_text = [(''dt:-soup-contains('Release date:') + dd'', ''1993'')],
                               sel_attr = [((''h2.band_name a'', ''href''), ''https://www.metal-archives.com/bands/Burzum/88'')],
                               lyrics_rows = [], notes_panel = None\<rparr>,
        band_page = \<lambda>_. Inl (EngineError ''Timeout 60000ms exceeded'')\<rparr> (env_at 0) ''u'' idle_state))
   \<and> cache_view 0 (shelf (snd (get_album_with_artist_info
       \<lparr>ajax_capture = \<lambda>_. Inl (EngineError ''offline''),
        album_page = \<lambda>_. Inr \<lparr>sel_text = [(''dt:-soup-contains('Release date:') + dd'', ''1993'')],
                               sel_attr = [((''h2.band_name a'', ''href''), ''https://www.metal-archives.com/bands/Burzum/88'')],
                               lyrics_rows = [], notes_panel = None\<rparr>,
        band_page = \<lambda>_. Inl (EngineError ''Timeout 60000ms exceeded'')\<rparr> (env_at 0) ''u'' idle_state)))
       ''album_with_artist:u'' = None"
proof -
  let ?w = "\<lparr>ajax_capture = \<lambda>_. Inl (EngineError ''offline''),
        album_page = \<lambda>_. Inr \<lparr>sel_text = [(''dt:-soup-contains('Release date:') + dd'', ''1993'')],
                               sel_attr = [((''h2.band_name a'', ''href''), ''https://www.metal-archives.com/bands/Burzum/88'')],
                               lyrics_rows = [], notes_panel = None\<rparr>,
        band_page = \<lambda>_. Inl (EngineError ''Timeout 60000ms exceeded'')\<rparr> :: web"
  let ?r = "get_album_with_artist_info ?w (env_at 0) ''u'' idle_state"
  have e: "json_has_key ''error'' (fst ?r)" by code_simp
  have run: "?r = (fst ?r, snd ?r)" by simp
  from composite_failure_not_cached [OF idle_state_inv run e] e show ?thesis by (simp add: cache_view_def)
qed

text \<open>
  C20. An album search for the title \<open>info\<close> and the band search for the same
  name share the cache key \<open>search:<artist>|info\<close>: after a successful album
  search for \<open>(artist, "info")\<close>, the band search for \<open>artist\<close> at the same time
  returns the album search's results, whatever the site would answer.
\<close>

theorem search_key_collision:
  assumes "proxy_inv st" and "artist \<noteq> []"
    and "search_albums w env artist ''info'' st = (v, st1)" and "\<not> json_has_key ''error'' v"
    and "req_now env' = req_now env"
  shows "\<exists>c'. search_artists w' env' artist st1 = (v, \<lparr>shelf = c', session = session st1\<rparr>)"
proof -
  have k1: "operation_key (SearchAlbums artist ''info'') = Some (''search:'' @ artist @ ''|info'')"
    using assms(2) by (simp add: album_query_def)
  have k2: "operation_key (SearchArtists artist) = Some (''search:'' @ artist @ ''|info'')"
    using assms(2) by simp
  have run: "run_operation w env (SearchAlbums artist ''info'') st = (v, st1)" using assms(3) by simp
  have st1: "proxy_inv st1" using operation_inv [OF assms(1), of w env "SearchAlbums artist ''info''"] run by simp
  have "cache_view (req_now env') (shelf st1) (''search:'' @ artist @ ''|info'') = Some v \<and> py_truthy v"
    using operation_stored [OF assms(1) k1 run assms(4)] assms(5) by simp
  then show ?thesis using operation_hit [OF st1 k2, of env' v w'] by auto
qed

theorem search_key_collision_witness:
  "\<exists>c'. search_artists (results_web [JArr [JStr ''<a href=\"https://www.metal-archives.com/bands/Burzum/88\">Burzum</a>'',
                                          JStr ''Black Metal'', JStr ''Norway'']])
          (env_at 0) ''Burzum''
          (snd (search_albums (results_web []) (env_at 0) ''Burzum'' ''info'' idle_state))
        = (JObj [(''results'', JArr [])],
           \<lparr>shelf = c', session = session (snd (search_albums (results_web []) (env_at 0) ''Burzum'' ''info'' idle_state))\<rparr>)"
proof -
  let ?r = "search_albums (results_web []) (env_at 0) ''Burzum'' ''info'' idle_state"
  have v: "fst ?r = JObj [(''results'', JArr [])]" by code_simp
  have run: "?r = (fst ?r, snd ?r)" by simp
  have "\<not> json_has_key ''error'' (fst ?r)" using v by simp
  from search_key_collision [OF idle_state_inv _ run this, of "env_at 0"] v show ?thesis by simp
qed

end
