(* ===== verification/Service.thy ===== *)
theory Service
  imports Orchestrator
begin

text \<open>
  The entry points of \<open>src/proxy_ma.py\<close> around the orchestrator: the request
  handler \<open>MAProxyHandler.do_GET\<close> (lines 45-90), which splits the request
  target with \<open>urllib.parse.urlparse\<close> and \<open>parse_qs\<close> and calls one
  operation, and the start-up check \<open>preload_with_validation\<close> (lines
  623-651). The URL functions follow CPython 3.12's \<open>urllib.parse\<close> on the
  model's strings; a target whose decoding leaves the model (an undecodable
  percent-escape, an IPv6 bracket or a non-ASCII character in a network
  location) is \<open>None\<close>.
  Serialising the reply (\<open>_send_json\<close>) is not modelled.
\<close>

section \<open>Splitting the request target\<close>

text \<open>
  \<open>urlsplit\<close>'s clean-up: leading C0 controls and spaces stripped, tabs and line
  breaks removed everywhere.
\<close>

definition url_clean :: "string \<Rightarrow> string" where
  "url_clean url =
     filter (\<lambda>c. c \<notin> {CHR 0x09, CHR 0x0D, CHR 0x0A}) (dropWhile (\<lambda>c. of_char c \<le> (32::nat)) url)"

definition ascii_alpha :: "char \<Rightarrow> bool" where
  "ascii_alpha c \<longleftrightarrow> (let n = of_char c :: nat in (65 \<le> n \<and> n \<le> 90) \<or> (97 \<le> n \<and> n \<le> 122))"

definition scheme_char :: "char \<Rightarrow> bool" where
  "scheme_char c \<longleftrightarrow> ascii_alpha c \<or> py_isdigit c \<or> c \<in> {CHR ''+'', CHR ''-'', CHR ''.''}"

text \<open>
  The scheme and the rest: \<open>url[:i]\<close> (lower-cased) for the first colon when it
  is a valid scheme, the empty scheme otherwise.
\<close>

definition split_scheme :: "string \<Rightarrow> string \<times> string" where
  "split_scheme url =
     (let i = takeWhile (\<lambda>c. c \<noteq> CHR '':'') url in
      if CHR '':'' \<in> set url \<and> i \<noteq> [] \<and> ascii_alpha (hd i) \<and> list_all scheme_char i
      then (py_lower i, drop (Suc (length i)) url) else ([], url))"

definition uses_params :: "string list" where
  "uses_params = [[], ''ftp'', ''hdl'', ''prospero'', ''http'', ''imap'', ''https'', ''shttp'', ''rtsp'',
                  ''rtsps'', ''rtspu'', ''sip'', ''sips'', ''mms'', ''sftp'', ''tel'']"

text \<open>\<open>_splitnetloc(url, 2)\<close> after \<open>//\<close>: the network location runs up to the first \<open>/\<close>, \<open>?\<close> or \<open>#\<close>.\<close>

definition split_netloc :: "string \<Rightarrow> (string \<times> string) option" where
  "split_netloc url =
     (if take 2 url = ''//'' then
        let netloc = takeWhile (\<lambda>c. c \<notin> {CHR ''/'', CHR ''?'', CHR ''#''}) (drop 2 url) in
        if CHR ''['' \<in> set netloc \<or> CHR '']'' \<in> set netloc \<or> \<not> list_all (\<lambda>c. of_char c < (128::nat)) netloc
        then None
        else Some (netloc, drop (2 + length netloc) url)
      else Some ([], url))"

text \<open>\<open>s.split(sep, 1)\<close> when \<open>sep in s\<close>: the parts before and after the first \<open>sep\<close>.\<close>

definition split_first :: "char \<Rightarrow> string \<Rightarrow> string \<times> string" where
  "split_first c s = (takeWhile (\<lambda>x. x \<noteq> c) s, drop (Suc (length (takeWhile (\<lambda>x. x \<noteq> c) s))) s)"

text \<open>\<open>_splitparams\<close>: the path without the parameters after a \<open>;\<close> in its last segment.\<close>

definition strip_params :: "string \<Rightarrow> string" where
  "strip_params path =
     (let last_seg = rev (takeWhile (\<lambda>c. c \<noteq> CHR ''/'') (rev path)) in
      if CHR ''/'' \<in> set path then
        (if CHR '';'' \<in> set last_seg
         then take (length path - length last_seg + length (takeWhile (\<lambda>c. c \<noteq> CHR '';'') last_seg)) path
         else path)
      else takeWhile (\<lambda>c. c \<noteq> CHR '';'') path)"

text \<open>\<open>urlparse(self.path)\<close>: its \<open>path\<close> and \<open>query\<close> (lines 49 and 51).\<close>

definition url_path_query :: "string \<Rightarrow> (string \<times> string) option" where
  "url_path_query target =
     (let (scheme, url) = split_scheme (url_clean target) in
      case split_netloc url of
        None \<Rightarrow> None
      | Some (_, rest) \<Rightarrow>
          let rest = (if CHR ''#'' \<in> set rest then fst (split_first CHR ''#'' rest) else rest);
              (path, query) = (if CHR ''?'' \<in> set rest then split_first CHR ''?'' rest else (rest, []))
          in Some (if scheme \<in> set uses_params \<and> CHR '';'' \<in> set path then strip_params path else path, query))"

section \<open>Query parameters\<close>

text \<open>\<open>s.split(sep)\<close>.\<close>

fun py_split :: "char \<Rightarrow> string \<Rightarrow> string list" where
  "py_split c [] = [[]]"
| "py_split c (x # xs) =
     (if x = c then [] # py_split c xs
      else (case py_split c xs of w # ws \<Rightarrow> (x # w) # ws | [] \<Rightarrow> [[x]]))"

text \<open>
  \<open>parse_qsl(qs)\<close> with its defaults (\<open>keep_blank_values=False\<close>,
  \<open>separator='&'\<close>): fields without \<open>=\<close> and fields with an empty value are
  dropped, names and values are decoded with \<open>unquote_plus\<close>.
\<close>

fun qs_pairs :: "string list \<Rightarrow> (string \<times> string) list option" where
  "qs_pairs [] = Some []"
| "qs_pairs (name_value # rest) =
     (if name_value = [] \<or> CHR ''='' \<notin> set name_value \<or> snd (split_first CHR ''='' name_value) = []
      then qs_pairs rest
      else
        (case (url_unquote_plus (fst (split_first CHR ''='' name_value)),
               url_unquote_plus (snd (split_first CHR ''='' name_value)), qs_pairs rest) of
           (Some name, Some value, Some r) \<Rightarrow> Some ((name, value) # r)
         | _ \<Rightarrow> None))"

definition parse_qsl :: "string \<Rightarrow> (string \<times> string) list option" where
  "parse_qsl qs = (if qs = [] then Some [] else qs_pairs (py_split CHR ''&'' qs))"

text \<open>\<open>parse_qs(qs).get(name, [""])[0]\<close>: the first value given for \<open>name\<close>.\<close>

definition param :: "(string \<times> string) list \<Rightarrow> string \<Rightarrow> string" where
  "param params name = (case map_of params name of Some v \<Rightarrow> v | None \<Rightarrow> [])"

section \<open>Request handler\<close>

text \<open>What \<open>do_GET\<close> does with a request: call an operation, send a reply of its own, or send nothing.\<close>

datatype get_action = Call operation | Reply json | NoReply

definition msg_missing_url :: string where
  "msg_missing_url = ''Missing parameter: '' @ quoted ''url''"

definition url_route :: "(string \<Rightarrow> operation) \<Rightarrow> string \<Rightarrow> get_action" where
  "url_route op url = (if url = [] then Reply (err_obj msg_missing_url) else Call (op url))"

definition do_GET :: "string \<Rightarrow> get_action option" where
  "do_GET target =
     (case url_path_query target of
        None \<Rightarrow> None
      | Some (path, query) \<Rightarrow>
          (case parse_qsl query of
             None \<Rightarrow> None
           | Some params \<Rightarrow>
               Some (if path = ''/search'' then Call (SearchAlbums (param params ''artist'') (param params ''album''))
                     else if path = ''/search_artist'' then Call (SearchArtists (param params ''artist''))
                     else if path = ''/search_full''
                       then Call (SearchAlbumsFull (param params ''artist'') (param params ''album''))
                     else if path = ''/album'' then url_route GetAlbum (param params ''url'')
                     else if path = ''/album_full'' then url_route GetAlbumFull (param params ''url'')
                     else if path = ''/artist_info'' then url_route GetArtistInfo (param params ''url'')
                     else if path \<noteq> ''/favicon.ico'' then Reply (err_obj ''Invalid Path'')
                     else NoReply)))"

text \<open>
  One request: the reply sent (\<open>None\<close> when nothing is sent) and the state after
  it; \<open>None\<close> when the target is outside the model.
\<close>

definition handle_GET :: "web \<Rightarrow> req_env \<Rightarrow> string \<Rightarrow> proxy_state \<Rightarrow> (json option \<times> proxy_state) option" where
  "handle_GET w env target st =
     (case do_GET target of
        None \<Rightarrow> None
      | Some (Call op) \<Rightarrow> (let (v, st') = run_operation w env op st in Some (Some v, st'))
      | Some (Reply v) \<Rightarrow> Some (Some v, st)
      | Some NoReply \<Rightarrow> Some (None, st))"

section \<open>Start-up check\<close>

text \<open>
  One attempt of \<open>preload_with_validation\<close>: the time it runs at, the
  automation call that fails if the session has to be started, and what the
  home page gives: the exception of the navigation, or its title and whether
  a challenge element (\<open>#cf-spinner\<close>, \<open>form#challenge-form\<close>) is present.
\<close>

record preload_attempt =
  pa_now :: instant
  pa_fault :: start_fault
  pa_nav :: "exc + string \<times> bool"

text \<open>
  The loop from attempt \<open>k\<close> with \<open>n\<close> attempts left: \<open>get_page(new=True)\<close>,
  the navigation, the title and the DOM checks; a failure is caught, and
  either the next attempt runs or \<open>False\<close> is returned. \<open>None\<close> is Python's
  \<open>None\<close>, the value of the function when \<open>retries\<close> is zero.
\<close>

fun preload_from :: "(nat \<Rightarrow> preload_attempt) \<Rightarrow> nat \<Rightarrow> nat \<Rightarrow> pw_session \<Rightarrow> bool option \<times> pw_session" where
  "preload_from A k 0 s = (None, s)"
| "preload_from A k (Suc n) s =
     (let a = A k;
          (r, s1) = get_page (pa_now a) (pa_fault a) True s;
          ok = (case r of
                  Inr (Some _) \<Rightarrow>
                    (case pa_nav a of
                       Inr (page_title, dom_challenge) \<Rightarrow>
                         \<not> (py_contains ''Just a moment'' page_title \<or> py_contains ''Checking your browser'' page_title)
                         \<and> \<not> dom_challenge
                     | Inl _ \<Rightarrow> False)
                | _ \<Rightarrow> False)
      in if ok then (Some True, s1)
         else if n = 0 then (Some False, s1)
         else preload_from A (Suc k) n s1)"

definition preload_with_validation :: "(nat \<Rightarrow> preload_attempt) \<Rightarrow> nat \<Rightarrow> pw_session \<Rightarrow> bool option \<times> pw_session" where
  "preload_with_validation A retries s = preload_from A 1 retries s"

text \<open>\<open>preload_proxy\<close> (lines 615-621), which the start-up code no longer calls: a new page and a navigation, every exception caught.\<close>

definition preload_proxy :: "instant \<Rightarrow> start_fault \<Rightarrow> pw_session \<Rightarrow> pw_session" where
  "preload_proxy now f s = snd (get_page now f True s)"

section \<open>Classes of targets and sessions\<close>

text \<open>
  The letters of the route names; a session whose driver was created but whose
  browsing context was not (a launch or \<open>new_context\<close> that raised); an
  attempt that found the home page without a challenge.
\<close>

definition route_char :: "char \<Rightarrow> bool" where
  "route_char c \<longleftrightarrow> ascii_alpha c \<or> c = CHR ''_''"

definition half_started :: "pw_session \<Rightarrow> bool" where
  "half_started s \<longleftrightarrow> playwright s \<noteq> None \<and> browser_context s = None"

definition clean_home_page :: "preload_attempt \<Rightarrow> bool" where
  "clean_home_page a \<longleftrightarrow>
     (\<exists>t. pa_nav a = Inr (t, False) \<and> \<not> py_contains ''Just a moment'' t \<and> \<not> py_contains ''Checking your browser'' t)"

section \<open>Lemmas on targets, queries and the preload loop\<close>

lemma quote_chars_avoid:
  assumes "list_all quote_char q"
  shows "CHR ''&'' \<notin> set q" "CHR ''='' \<notin> set q" "CHR ''#'' \<notin> set q" "CHR ''?'' \<notin> set q"
    "CHR '':'' \<notin> set q" "CHR '';'' \<notin> set q"
    "filter (\<lambda>c. c \<notin> {CHR 0x09, CHR 0x0D, CHR 0x0A}) q = q"
  using assms by (auto simp: list_all_iff intro!: filter_True dest: quote_char_not)

lemma py_split_no_sep: "c \<notin> set s \<Longrightarrow> py_split c s = [s]"
  by (induction s) auto

lemma py_split_append_sep: "c \<notin> set s \<Longrightarrow> py_split c (s @ c # t) = s # py_split c t"
  by (induction s) auto

lemma takeWhile_upto: "c \<notin> set s \<Longrightarrow> takeWhile (\<lambda>x. x \<noteq> c) (s @ c # t) = s"
  by (induction s) auto

lemma split_first_append: "c \<notin> set s \<Longrightarrow> split_first c (s @ c # t) = (s, t)"
  by (simp add: split_first_def takeWhile_upto)

lemma route_char_not: "route_char c \<Longrightarrow> c \<notin> {CHR '':'', CHR ''?'', CHR ''#'', CHR '';'', CHR ''/'', CHR 0x09, CHR 0x0D, CHR 0x0A}"
  by (auto simp: route_char_def ascii_alpha_def)

lemma url_path_query_route:
  assumes r: "r \<noteq> []" "list_all route_char r"
    and qs: "\<forall>c \<in> set qs. c \<notin> {CHR ''#'', CHR 0x09, CHR 0x0D, CHR 0x0A}"
  shows "url_path_query ((CHR ''/'' # r) @ CHR ''?'' # qs) = Some (CHR ''/'' # r, qs)"
proof -
  let ?t = "CHR ''/'' # r @ CHR ''?'' # qs"
  have rc: "\<forall>c \<in> set r. c \<notin> {CHR '':'', CHR ''?'', CHR ''#'', CHR '';'', CHR ''/'', CHR 0x09, CHR 0x0D, CHR 0x0A}"
    using r(2) route_char_not by (auto simp: list_all_iff)
  have clean: "url_clean ?t = ?t"
  proof -
    have "filter (\<lambda>c. c \<notin> {CHR 0x09, CHR 0x0D, CHR 0x0A}) r = r"
      using rc by (auto intro: filter_True)
    moreover have "filter (\<lambda>c. c \<notin> {CHR 0x09, CHR 0x0D, CHR 0x0A}) qs = qs"
      using qs by (auto intro: filter_True)
    ultimately show ?thesis by (simp add: url_clean_def)
  qed
  have scheme: "split_scheme ?t = ([], ?t)"
    by (simp add: split_scheme_def ascii_alpha_def)
  obtain c cs where rcs: "r = c # cs" using r(1) by (cases r) auto
  have "c \<noteq> CHR ''/''" using rc rcs by auto
  then have netloc: "split_netloc ?t = Some ([], ?t)"
    using rcs by (simp add: split_netloc_def)
  have nohash: "CHR ''#'' \<notin> set ?t" using rc qs by auto
  have "CHR ''?'' \<notin> set (CHR ''/'' # r)" using rc by auto
  then have split: "split_first CHR ''?'' ?t = (CHR ''/'' # r, qs)"
    using split_first_append [of "CHR ''?''" "CHR ''/'' # r" qs] by simp
  have nosemi: "CHR '';'' \<notin> set (CHR ''/'' # r)" using rc by auto
  show ?thesis
    using clean scheme netloc nohash split nosemi by (simp add: url_path_query_def)
qed

lemma qs_pairs_field:
  assumes "CHR ''='' \<notin> set name" "url_unquote_plus name = Some name"
  shows "qs_pairs ((name @ CHR ''='' # url_quote u) # rest) =
           (if u = [] then qs_pairs rest else map_option (Cons (name, u)) (qs_pairs rest))"
proof -
  have sp: "split_first CHR ''='' (name @ CHR ''='' # url_quote u) = (name, url_quote u)"
    using assms(1) by (rule split_first_append)
  show ?thesis
  proof (cases "u = []")
    case True
    then show ?thesis using sp by simp
  next
    case False
    then have "url_quote u \<noteq> []" by (rule url_quote_nonempty)
    then show ?thesis using sp False assms(2) url_unquote_plus_quote [of u]
      by (auto split: option.split)
  qed
qed

lemma quoted_query_chars:
  "\<forall>c \<in> set (url_quote u). c \<notin> {CHR ''#'', CHR 0x09, CHR 0x0D, CHR 0x0A, CHR ''&''}"
  using url_quote_chars [of u] by (auto simp: list_all_iff dest: quote_char_not)

lemma do_GET_url_target:
  assumes "r \<in> {''album'', ''album_full'', ''artist_info''}"
  shows "do_GET (''/'' @ r @ ''?url='' @ url_quote u) =
           Some (url_route (if r = ''album'' then GetAlbum else if r = ''album_full'' then GetAlbumFull else GetArtistInfo) u)"
proof -
  have rr: "r \<noteq> [] \<and> list_all route_char r" using assms by (auto simp: route_char_def ascii_alpha_def)
  have qs: "\<forall>c \<in> set (''url='' @ url_quote u). c \<notin> {CHR ''#'', CHR 0x09, CHR 0x0D, CHR 0x0A}"
    using quoted_query_chars [of u] by auto
  have "url_path_query ((CHR ''/'' # r) @ CHR ''?'' # (''url='' @ url_quote u)) = Some (CHR ''/'' # r, ''url='' @ url_quote u)"
    using rr qs by (intro url_path_query_route) auto
  moreover have "py_split CHR ''&'' (''url='' @ url_quote u) = [''url='' @ url_quote u]"
    using quoted_query_chars [of u] by (intro py_split_no_sep) auto
  moreover have "qs_pairs [''url='' @ url_quote u] = (if u = [] then Some [] else Some [(''url'', u)])"
    using qs_pairs_field [of "''url''" u "[]"] by (simp add: url_unquote_plus_def url_unquote_def)
  ultimately show ?thesis using assms
    by (auto simp: do_GET_def parse_qsl_def param_def url_route_def)
qed

lemma get_page_new_half_started:
  "half_started s \<Longrightarrow> get_page now f True s = (Inl (AttributeError ''new_page''), s\<lparr>last_used := now\<rparr>)"
  by (simp add: half_started_def get_page_def is_active_def start_def del: not_None_eq)

lemma half_started_last_used [simp]: "half_started (s\<lparr>last_used := t\<rparr>) = half_started s"
  by (simp add: half_started_def)

lemma preload_from_half_started:
  "half_started s \<Longrightarrow> \<exists>s'. preload_from A k (Suc n) s = (Some False, s') \<and> half_started s'"
proof (induction n arbitrary: k s)
  case 0
  then show ?case by (simp add: get_page_new_half_started)
next
  case (Suc n)
  have "preload_from A k (Suc (Suc n)) s = preload_from A (Suc k) (Suc n) (s\<lparr>last_used := pa_now (A k)\<rparr>)"
    using Suc.prems by (simp add: get_page_new_half_started)
  then show ?case using Suc.IH [of "s\<lparr>last_used := pa_now (A k)\<rparr>" "Suc k"] Suc.prems by simp
qed

lemma start_launch_fault_half_started:
  "session_inv s \<Longrightarrow> playwright s = None \<Longrightarrow> f \<in> {FailLaunch, FailContext} \<Longrightarrow>
   \<exists>e s1. get_page now f True s = (Inl e, s1) \<and> half_started s1"
  by (auto simp: get_page_def is_active_def start_def half_started_def session_inv_def Let_def)

lemma preload_from_defined: "fst (preload_from A k (Suc n) s) \<noteq> None"
  by (induction n arbitrary: k s) (auto simp: Let_def split: prod.split)

lemma preload_from_agree:
  "(\<forall>j. k \<le> j \<and> j < k + n \<longrightarrow> A j = B j) \<Longrightarrow> preload_from A k n s = preload_from B k n s"
proof (induction n arbitrary: k s)
  case 0
  then show ?case by simp
next
  case (Suc n)
  then have "\<And>s'. preload_from A (Suc k) n s' = preload_from B (Suc k) n s'" and "A k = B k" by simp_all
  then show ?case by (simp add: Let_def split: prod.split)
qed

lemma preload_from_True:
  "fst (preload_from A k n s) = Some True \<Longrightarrow> \<exists>j. k \<le> j \<and> j < k + n \<and> clean_home_page (A j)"
proof (induction n arbitrary: k s)
  case 0
  then show ?case by simp
next
  case (Suc n)
  obtain r s1 where g: "get_page (pa_now (A k)) (pa_fault (A k)) True s = (r, s1)" by fastforce
  show ?case
  proof (cases "clean_home_page (A k)")
    case True
    then show ?thesis by auto
  next
    case False
    then have "fst (preload_from A (Suc k) n s1) = Some True"
      using Suc.prems g
      by (auto simp: clean_home_page_def Let_def split: sum.splits option.splits prod.splits if_splits)
    from Suc.IH [OF this] obtain j where "Suc k \<le> j" "j < Suc k + n" "clean_home_page (A j)" by blast
    then show ?thesis by (intro exI [of _ j]) auto
  qed
qed

lemma preload_from_inv: "session_inv s \<Longrightarrow> session_inv (snd (preload_from A k n s))"
proof (induction n arbitrary: k s)
  case 0
  then show ?case by simp
next
  case (Suc n)
  obtain r s1 where g: "get_page (pa_now (A k)) (pa_fault (A k)) True s = (r, s1)" by fastforce
  have "session_inv s1" using get_page_inv_dest [OF g Suc.prems] .
  then show ?case using g Suc.IH [of s1 "Suc k"] by (simp add: Let_def)
qed

lemma handle_GET_inv: "proxy_inv st \<Longrightarrow> handle_GET w env target st = Some (v, st') \<Longrightarrow> proxy_inv st'"
  using operation_inv
  by (auto simp: handle_GET_def split: option.splits get_action.splits prod.splits) (metis snd_conv)

lemma clean_home_page_ok:
  "(case pa_nav a of
      Inr (page_title, dom_challenge) \<Rightarrow>
        \<not> (py_contains ''Just a moment'' page_title \<or> py_contains ''Checking your browser'' page_title)
        \<and> \<not> dom_challenge
    | Inl _ \<Rightarrow> False) \<longleftrightarrow> clean_home_page a"
  by (auto simp: clean_home_page_def split: sum.split)

lemma get_page_new_usable:
  assumes "is_active s \<or> playwright s = None \<and> f = NoFault"
  shows "\<exists>h s1. get_page now f True s = (Inr (Some h), s1) \<and> is_active s1"
  using assms by (auto simp: get_page_def is_active_def start_def start_monitor_def Let_def)

lemma preload_from_last:
  assumes "is_active s \<or> playwright s = None \<and> pa_fault (A k) = NoFault"
    and "\<forall>j. k \<le> j \<and> j < k + n \<longrightarrow> \<not> clean_home_page (A j)"
  shows "fst (preload_from A k (Suc n) s) = Some (clean_home_page (A (k + n)))"
  using assms
proof (induction n arbitrary: k s)
  case 0
  obtain h s1 where "get_page (pa_now (A k)) (pa_fault (A k)) True s = (Inr (Some h), s1)"
    using get_page_new_usable [OF "0.prems"(1)] by blast
  then show ?case by (simp add: Let_def clean_home_page_ok)
next
  case (Suc n)
  obtain h s1 where g: "get_page (pa_now (A k)) (pa_fault (A k)) True s = (Inr (Some h), s1)" and a: "is_active s1"
    using get_page_new_usable [OF Suc.prems(1)] by blast
  have "\<not> clean_home_page (A k)" using Suc.prems(2) by simp
  moreover have "fst (preload_from A (Suc k) (Suc n) s1) = Some (clean_home_page (A (Suc k + n)))"
    using Suc.IH [of s1 "Suc k"] a Suc.prems(2) by simp
  ultimately show ?case using g by (simp add: Let_def clean_home_page_ok)
qed

section \<open>Properties of the request handler and the start-up check\<close>

text \<open>
  C21. A search request whose artist and album are written with
  \<open>urllib.parse.quote\<close> reaches the album search (\<open>/search\<close>) or the search
  with full profile (\<open>/search_full\<close>) with exactly those names; an empty name
  arrives as the empty string, since \<open>parse_qs\<close> drops blank values.
\<close>

theorem search_request_roundtrip:
  assumes "r \<in> {''search'', ''search_full''}"
  shows "do_GET (''/'' @ r @ ''?artist='' @ url_quote a @ ''&album='' @ url_quote b) =
           Some (Call ((if r = ''search'' then SearchAlbums else SearchAlbumsFull) a b))"
proof -
  let ?qs = "(''artist='' @ url_quote a) @ CHR ''&'' # (''album='' @ url_quote b)"
  have rr: "r \<noteq> [] \<and> list_all route_char r" using assms by (auto simp: route_char_def ascii_alpha_def)
  have qs: "\<forall>c \<in> set ?qs. c \<notin> {CHR ''#'', CHR 0x09, CHR 0x0D, CHR 0x0A}"
    using quoted_query_chars [of a] quoted_query_chars [of b] by auto
  have t: "''/'' @ r @ ''?artist='' @ url_quote a @ ''&album='' @ url_quote b = (CHR ''/'' # r) @ CHR ''?'' # ?qs"
    by simp
  have "url_path_query ((CHR ''/'' # r) @ CHR ''?'' # ?qs) = Some (CHR ''/'' # r, ?qs)"
    using rr qs by (intro url_path_query_route) auto
  moreover have "py_split CHR ''&'' ?qs = [''artist='' @ url_quote a, ''album='' @ url_quote b]"
  proof -
    have h1: "CHR ''&'' \<notin> set (''artist='' @ url_quote a)" using quoted_query_chars [of a] by auto
    have h2: "CHR ''&'' \<notin> set (''album='' @ url_quote b)" using quoted_query_chars [of b] by auto
    show ?thesis by (simp only: py_split_append_sep [OF h1] py_split_no_sep [OF h2])
  qed
  moreover have "qs_pairs [''artist='' @ url_quote a, ''album='' @ url_quote b] =
      Some ((if a = [] then [] else [(''artist'', a)]) @ (if b = [] then [] else [(''album'', b)]))"
    using qs_pairs_field [of "''artist''" a "[''album='' @ url_quote b]"] qs_pairs_field [of "''album''" b "[]"]
    by (simp add: url_unquote_plus_def url_unquote_def)
  ultimately show ?thesis using assms unfolding t
    by (auto simp: do_GET_def parse_qsl_def param_def)
qed

theorem search_request_roundtrip_witness:
  "do_GET (''/search?artist='' @ url_quote ''Burzum'' @ ''&album='' @ url_quote ''Filosofem'')
   = Some (Call (SearchAlbums ''Burzum'' ''Filosofem''))"
  using search_request_roundtrip [of "''search''" "''Burzum''" "''Filosofem''"] by simp

text \<open>
  C31. The missing-parameter reply is sent exactly for the three URL routes
  (\<open>/album\<close>, \<open>/album_full\<close>, \<open>/artist_info\<close>) when the request has no
  non-blank \<open>url\<close> parameter: any other parameters do not matter, and a blank
  \<open>url=\<close> counts as absent, since \<open>parse_qs\<close> drops blank values. No other
  path gets this reply.
\<close>

theorem missing_url_reply_exactly:
  assumes "url_path_query target = Some (path, query)" and "parse_qsl query = Some params"
  shows "do_GET target = Some (Reply (err_obj msg_missing_url)) \<longleftrightarrow>
           path \<in> {''/album'', ''/album_full'', ''/artist_info''} \<and> param params ''url'' = []"
  using assms by (auto simp: do_GET_def url_route_def err_obj_def msg_missing_url_def quoted_def)

theorem missing_url_reply_exactly_witness:
  "do_GET ''/album?x=1&url='' = Some (Reply (err_obj msg_missing_url))"
proof -
  have u: "url_path_query ''/album?x=1&url='' = Some (''/album'', ''x=1&url='')" by code_simp
  have p: "parse_qsl ''x=1&url='' = Some [(''x'', ''1'')]" by code_simp
  show ?thesis using missing_url_reply_exactly [OF u p] by (simp add: param_def)
qed

text \<open>
  \<open>/favicon.ico\<close> gets no reply at all; any other path outside the six
  routes, a trailing slash included, gets the \<open>Invalid Path\<close> error.
\<close>

theorem unknown_and_favicon_paths:
  "do_GET ''/favicon.ico'' = Some NoReply
   \<and> do_GET ''/'' = Some (Reply (err_obj ''Invalid Path''))
   \<and> do_GET ''/search_artists?artist=Burzum'' = Some (Reply (err_obj ''Invalid Path''))
   \<and> do_GET ''/album/?url=x'' = Some (Reply (err_obj ''Invalid Path''))"
  by code_simp

text \<open>
  C25. When the first preload attempt's browser launch or context creation
  raises, every retry fails too: the half-started driver is reused, which
  gives no context for \<open>new_page\<close>, so the check reports \<open>False\<close> whatever the
  later attempts would meet.
\<close>

theorem preload_retries_useless_after_failed_launch:
  assumes "session_inv s" and "playwright s = None" and "pa_fault (A 1) \<in> {FailLaunch, FailContext}"
    and "0 < retries"
  shows "fst (preload_with_validation A retries s) = Some False"
proof -
  obtain n where n: "retries = Suc n" using assms(4) by (cases retries) auto
  obtain e s1 where g: "get_page (pa_now (A 1)) (pa_fault (A 1)) True s = (Inl e, s1)" and h: "half_started s1"
    using start_launch_fault_half_started [OF assms(1-3)] by blast
  show ?thesis
  proof (cases n)
    case 0
    then show ?thesis using g n by (simp add: preload_with_validation_def)
  next
    case (Suc m)
    obtain s' where "preload_from A 2 (Suc m) s1 = (Some False, s')"
      using preload_from_half_started [OF h] by blast
    then show ?thesis using g n Suc by (simp add: preload_with_validation_def numeral_2_eq_2)
  qed
qed

theorem preload_retries_useless_after_failed_launch_witness:
  "fst (preload_with_validation
          (\<lambda>k. \<lparr>pa_now = int k, pa_fault = if k = 1 then FailLaunch else NoFault,
                pa_nav = Inr (''Encyclopaedia Metallum'', False)\<rparr>) 3 (initial_session 0)) = Some False"
  by (rule preload_retries_useless_after_failed_launch) (fact session_inv_initial | simp add: initial_session_def)+

text \<open>
  C26. Every one of the \<open>retries\<close> attempts counts, and no more: when the
  session can be used (it is active, or absent and the first start meets no
  fault) and the attempts before the last all meet a challenge or an error,
  the verdict is that of attempt number \<open>retries\<close>: \<open>True\<close> exactly when it
  reaches a clean home page.
\<close>

theorem preload_verdict_of_last_attempt:
  assumes "is_active s \<or> playwright s = None \<and> pa_fault (A 1) = NoFault" and "0 < retries"
    and "\<forall>k \<in> {1..<retries}. \<not> clean_home_page (A k)"
  shows "fst (preload_with_validation A retries s) = Some (clean_home_page (A retries))"
proof -
  obtain n where n: "retries = Suc n" using assms(2) by (cases retries) auto
  have "\<forall>j. 1 \<le> j \<and> j < 1 + n \<longrightarrow> \<not> clean_home_page (A j)" using assms(3) n by auto
  with preload_from_last [OF assms(1) this] show ?thesis by (simp add: preload_with_validation_def n)
qed

theorem preload_verdict_of_last_attempt_witness:
  "fst (preload_with_validation
          (\<lambda>k. if k < 3 then \<lparr>pa_now = 0, pa_fault = NoFault, pa_nav = Inr (''Just a moment...'', False)\<rparr>
               else \<lparr>pa_now = 0, pa_fault = NoFault, pa_nav = Inr (''Encyclopaedia Metallum'', False)\<rparr>)
          3 (initial_session 0)) = Some True"
proof -
  let ?A = "\<lambda>k::nat. if k < 3 then \<lparr>pa_now = 0, pa_fault = NoFault, pa_nav = Inr (''Just a moment...'', False)\<rparr>
               else \<lparr>pa_now = 0, pa_fault = NoFault, pa_nav = Inr (''Encyclopaedia Metallum'', False)\<rparr>"
  have h1: "is_active (initial_session 0) \<or> playwright (initial_session 0) = None \<and> pa_fault (?A 1) = NoFault"
    by (simp add: initial_session_def)
  have h3: "\<forall>k \<in> {1..<3}. \<not> clean_home_page (?A k)" by (simp add: clean_home_page_def)
  have "clean_home_page (?A 3)" by (simp add: clean_home_page_def)
  with preload_verdict_of_last_attempt [OF h1 _ h3] show ?thesis by simp
qed

text \<open>
  The preload check reports success only if one of its attempts reached
  the home page with no challenge title and no challenge element.
\<close>

theorem preload_success_needs_clean_page:
  assumes "fst (preload_with_validation A retries s) = Some True"
  shows "\<exists>k. 1 \<le> k \<and> k \<le> retries \<and> clean_home_page (A k)"
  using preload_from_True [of A 1 retries s] assms by (auto simp: preload_with_validation_def)

theorem preload_success_needs_clean_page_witness:
  "\<exists>k::nat. 1 \<le> k \<and> k \<le> 3 \<and>
     clean_home_page (\<lparr>pa_now = 0, pa_fault = NoFault, pa_nav = Inr (''Encyclopaedia Metallum'', False)\<rparr>
                       :: preload_attempt)"
proof -
  let ?A = "\<lambda>k::nat. \<lparr>pa_now = 0, pa_fault = NoFault, pa_nav = Inr (''Encyclopaedia Metallum'', False)\<rparr>
                       :: preload_attempt"
  have "fst (preload_with_validation ?A 3 (initial_session 0)) = Some True"
    by (simp add: preload_with_validation_def numeral_3_eq_3 get_page_def is_active_def start_def
        start_monitor_def initial_session_def Let_def)
  from preload_success_needs_clean_page [OF this] show ?thesis by simp
qed

end
