(* ===== verification/Monitor.thy ===== *)
theory Monitor
  imports Session
begin

text \<open>
  The monitor thread of \<open>src/playwright_session.py\<close> (\<open>_start_monitor\<close>,
  lines 54-65) run on its own: its \<open>while True\<close> loop, each pass after
  \<open>time.sleep(60)\<close>, with no request in between. The loop may run forever,
  so it is modelled with fuel, the number of passes: \<open>None\<close> means that the
  thread has not left its loop after that many passes.
\<close>

section \<open>The loop\<close>

text \<open>
  From time \<open>now\<close>, \<open>n\<close> passes of thread \<open>t\<close>'s loop: sleep 60 s; if the session
  exists and has been idle longer than the limit, \<open>close()\<close> and \<open>break\<close>
  (\<open>monitor_tick\<close> of theory \<open>Session\<close> is that pass); otherwise sleep again.
  The result is the time the thread leaves the loop and the state then.
\<close>

fun monitor_loop :: "nat \<Rightarrow> instant \<Rightarrow> teardown set \<Rightarrow> handle \<Rightarrow> pw_session \<Rightarrow> (instant \<times> pw_session) option" where
  "monitor_loop 0 now fails t s = None"
| "monitor_loop (Suc n) now fails t s =
     (let now' = now + seconds 60 in
      if playwright s \<noteq> None \<and> now' - last_used s > inactivity_limit
      then Some (now', monitor_tick now' fails t s)
      else monitor_loop n now' fails t s)"

section \<open>Lemmas on the loop\<close>

lemma monitor_loop_wait:
  assumes "now + seconds 60 * int m - last_used s \<le> inactivity_limit"
  shows "monitor_loop (m + n) now fails t s = monitor_loop n (now + seconds 60 * int m) fails t s"
  using assms
proof (induction m arbitrary: now)
  case 0
  then show ?case by simp
next
  case (Suc m)
  have "now + seconds 60 - last_used s \<le> inactivity_limit"
    using Suc.prems by (simp add: seconds_def)
  moreover have "monitor_loop (m + n) (now + seconds 60) fails t s =
                 monitor_loop n (now + seconds 60 + seconds 60 * int m) fails t s"
    using Suc.IH [of "now + seconds 60"] Suc.prems by (simp add: algebra_simps seconds_def)
  ultimately show ?case by (simp add: Let_def algebra_simps seconds_def)
qed

lemma monitor_loop_close:
  assumes "t \<in> set (running_monitors s)" and "playwright s \<noteq> None"
    and "now + seconds 60 - last_used s > inactivity_limit"
  shows "monitor_loop (Suc n) now fails t s =
           Some (now + seconds 60, (snd (close fails s))\<lparr>running_monitors := remove1 t (running_monitors s)\<rparr>)"
  using assms by (simp add: monitor_tick_def)

lemma start_Inr_last_used: "start now f s = (Inr p, s') \<Longrightarrow> last_used s' = now"
  by (auto simp: start_def Let_def split: if_splits)

lemma get_page_Inr_last_used: "get_page now f new s = (Inr p, s') \<Longrightarrow> last_used s' = now"
  by (auto simp: get_page_def Let_def split: if_splits prod.splits sum.splits option.splits)

lemma div_seconds_60:
  fixes d :: int
  shows "seconds 60 * (d div seconds 60) \<le> d \<and> d < seconds 60 * (d div seconds 60) + seconds 60"
proof -
  have "d = seconds 60 * (d div seconds 60) + d mod seconds 60" by simp
  moreover have "0 \<le> d mod seconds 60" and "d mod seconds 60 < seconds 60" by (simp_all add: seconds_def)
  ultimately show ?thesis by linarith
qed

section \<open>Properties of the monitor loop\<close>

text \<open>
  C12. A running monitor thread closes an idle session within a minute of the
  idle limit: when the session exists and no request comes, the thread leaves
  its loop at the first pass later than 900 s after the last use, so at most
  960 s after it, with the session closed and itself removed from the running
  threads; enough passes for that are those of the idle time plus 16.
\<close>

theorem idle_session_closed_within_a_minute:
  assumes "t \<in> set (running_monitors s)" and "playwright s \<noteq> None" and "t0 \<le> last_used s"
    and "nat ((last_used s - t0) div seconds 60) + 16 \<le> n"
  shows "\<exists>T. monitor_loop n t0 fails t s =
               Some (T, (snd (close fails s))\<lparr>running_monitors := remove1 t (running_monitors s)\<rparr>)
           \<and> inactivity_limit < T - last_used s \<and> T - last_used s \<le> inactivity_limit + seconds 60"
proof -
  define q where "q = (last_used s - t0) div seconds 60"
  define m where "m = nat q + 15"
  have q: "seconds 60 * q \<le> last_used s - t0" "last_used s - t0 < seconds 60 * q + seconds 60"
    using div_seconds_60 [of "last_used s - t0"] by (simp_all add: q_def)
  have "0 \<le> q" using assms(3) by (simp add: q_def seconds_def)
  then have im: "int m = q + 15" by (simp add: m_def)
  have w: "t0 + seconds 60 * int m - last_used s \<le> inactivity_limit"
    using q(1) by (simp add: im inactivity_limit_def seconds_def algebra_simps)
  have c: "t0 + seconds 60 * int m + seconds 60 - last_used s > inactivity_limit"
    using q(2) by (simp add: im inactivity_limit_def seconds_def algebra_simps)
  have b: "t0 + seconds 60 * int m + seconds 60 - last_used s \<le> inactivity_limit + seconds 60"
    using q(1) by (simp add: im inactivity_limit_def seconds_def algebra_simps)
  define k where "k = n - Suc m"
  have n: "n = m + Suc k" using assms(4) by (simp add: k_def m_def q_def)
  have "monitor_loop n t0 fails t s = monitor_loop (Suc k) (t0 + seconds 60 * int m) fails t s"
    unfolding n by (rule monitor_loop_wait [OF w])
  also have "\<dots> = Some (t0 + seconds 60 * int m + seconds 60,
                       (snd (close fails s))\<lparr>running_monitors := remove1 t (running_monitors s)\<rparr>)"
    by (rule monitor_loop_close [OF assms(1,2) c])
  finally show ?thesis using c b by blast
qed

theorem idle_session_closed_within_a_minute_witness:
  "\<exists>T. monitor_loop 16 0 {} 4 (snd (start 0 NoFault (initial_session 0))) =
        Some (T, (snd (close {} (snd (start 0 NoFault (initial_session 0)))))\<lparr>running_monitors := []\<rparr>)
      \<and> inactivity_limit < T \<and> T \<le> inactivity_limit + seconds 60"
  using idle_session_closed_within_a_minute [of 4 "snd (start 0 NoFault (initial_session 0))" 0 16 "{}"]
  by (simp add: start_def start_monitor_def initial_session_def seconds_def)

text \<open>
  C13. The loop of a monitor thread whose session has been closed never ends:
  \<open>cls._playwright\<close> is \<open>None\<close>, so no pass breaks out, and with no new
  session the thread sleeps and checks forever, for any number of passes.
\<close>

theorem closed_session_monitor_never_exits:
  assumes "playwright s = None"
  shows "monitor_loop n now fails t s = None"
  using assms by (induction n arbitrary: now) (simp_all add: Let_def)

theorem closed_session_monitor_never_exits_witness:
  "monitor_loop 100 0 {} 4 (snd (close {} (snd (start 0 NoFault (initial_session 0))))) = None"
  by (rule closed_session_monitor_never_exits) (simp add: close_def)

text \<open>
  C14. A monitor pass cannot close the session under a request that has just
  used it: after \<open>start()\<close> or \<open>get_page()\<close> returned at time \<open>now\<close>, a pass
  at any time up to 900 s later leaves the session as it is. The navigation
  and wait of a request take at most 63 s, so the operations of the
  orchestrator may be modelled as atomic with respect to the monitor.
\<close>

theorem monitor_cannot_interrupt_request:
  assumes "(\<exists>p. start now f s = (Inr p, s')) \<or> (\<exists>new p. get_page now f new s = (Inr p, s'))" and "now' - now \<le> inactivity_limit"
  shows "monitor_tick now' fails t s' = s'"
proof -
  have "last_used s' = now" using assms(1) start_Inr_last_used get_page_Inr_last_used by blast
  then show ?thesis using assms(2) by (simp add: monitor_tick_def)
qed

theorem monitor_cannot_interrupt_request_witness:
  "monitor_tick (seconds 63) {} 4 (snd (start 0 NoFault (initial_session 0)))
   = snd (start 0 NoFault (initial_session 0))"
proof -
  have "start 0 NoFault (initial_session 0) = (Inr (Some 3), snd (start 0 NoFault (initial_session 0)))"
    by (simp add: start_def start_monitor_def initial_session_def)
  then have d: "(\<exists>p. start 0 NoFault (initial_session 0) = (Inr p, snd (start 0 NoFault (initial_session 0))))
                \<or> (\<exists>new p. get_page 0 NoFault new (initial_session 0) = (Inr p, snd (start 0 NoFault (initial_session 0))))"
    by blast
  have l: "seconds 63 - 0 \<le> inactivity_limit" by (simp add: inactivity_limit_def seconds_def)
  show ?thesis by (rule monitor_cannot_interrupt_request [OF d l])
qed

end
