(* ===== verification/Spec2Isabelle.thy ===== *)
theory Spec2Isabelle
  imports Service Monitor
begin

text \<open>
  \<^bold>\<open>A verification development for the Mp3Tag Metal Archives proxy.\<close>

  \<^bold>\<open>The program.\<close> \<open>src/proxy_ma.py\<close> is an HTTP server on localhost that
  the Mp3Tag web-source script queries. \<open>ProxyHandler.do_GET\<close> routes six
  paths to the six operations of the fetch orchestrator (\<open>search_albums\<close>,
  \<open>search_artists\<close>, \<open>search_albums_with_info\<close>, \<open>get_album\<close>,
  \<open>get_artist_info\<close>, \<open>get_album_with_artist_info\<close>). Each operation first
  consults the cache store of \<open>src/cache_ma.py\<close> (a \<open>shelve\<close> file with a
  15-day TTL), and on a miss drives the headless browser of
  \<open>src/playwright_session.py\<close> (\<open>PlaywrightSessionManager\<close>, a class-level
  singleton with an inactivity monitor thread), captures the site's AJAX
  payload or page, extracts a JSON record, saves it and returns it. On any
  exception the operation closes the browser session. At start-up the
  process runs \<open>preload_with_validation\<close>, a bounded retry loop that loads
  the home page and checks for a challenge, then sweeps the expired cache
  entries and serves requests.

  \<^bold>\<open>Theories.\<close>
  \<^item> \<open>Prelude\<close>: time as microseconds (\<open>instant\<close>), the JSON values the code
    passes around (\<open>json\<close>), the exceptions (\<open>exc\<close>), Python truthiness,
    generic lemmas on association lists.
  \<^item> \<open>Text\<close>: the str methods the code calls (\<open>strip\<close>, \<open>replace\<close>, \<open>zfill\<close>,
    \<open>lower\<close>, \<open>in\<close>, \<open>join\<close>) and \<open>urllib.parse.quote\<close>/\<open>unquote_plus\<close> over
    UTF-8, with the round trip \<open>url_unquote_plus (url_quote s) = Some s\<close>.
  \<^item> \<open>Regex\<close>: Python \<open>re\<close> as backtracking combinators that return every
    match in the engine's order of preference; \<open>rx_match\<close>, \<open>rx_search\<close> and
    \<open>rx_sub\<close> are \<open>re.match\<close>, \<open>re.search\<close> and \<open>re.sub\<close>.
  \<^item> \<open>Extractors\<close>: \<open>format_date\<close>, \<open>contains_unicode\<close> and the loop bodies
    over the AJAX rows of \<open>search_albums\<close> and \<open>search_artists\<close>.
  \<^item> \<open>Pages\<close>: the album page's track table (\<open>extract_tracks\<close>), liner notes
    (\<open>extract_addtional_info\<close>) and record, and the band page's record; the
    parsed document is given by what the code's BeautifulSoup queries return.
  \<^item> \<open>Cache\<close>: the shelf as an association list of (key, entry) and the four
    functions of \<open>cache_ma.py\<close> with the current time passed explicitly;
    \<open>cache_view\<close> is the abstract map of live entries and \<open>cache_inv\<close> the
    invariant (one entry per key).
  \<^item> \<open>Session\<close>: the class attributes as the record \<open>pw_session\<close>, object
    identities drawn from a counter, \<open>start\<close>, \<open>get_page\<close>, \<open>close\<close>,
    \<open>is_active\<close>, \<open>_handle_route\<close> and one pass of the monitor loop; the
    automation call that raises is chosen by a \<open>start_fault\<close> argument, and
    the assignments made before it are kept. \<open>reachable_session\<close> closes the
    methods and monitor passes under arbitrary interleaving.
  \<^item> \<open>Monitor\<close>: the monitor thread's \<open>while True\<close> loop run alone, with
    fuel (\<open>monitor_loop\<close>): when it closes an idle session, that it never
    ends once its session was closed, and that it cannot close a session a
    request has just used.
  \<^item> \<open>Orchestrator\<close>: the six operations over \<open>proxy_state\<close> (shelf and
    session), with the site as a \<open>web\<close> record (what each navigation and
    capture yields) and the request's time and faults as \<open>req_env\<close>; the
    \<open>operation\<close> datatype and \<open>run_operation\<close> are the interface the request
    handler calls.
  \<^item> \<open>Service\<close>: CPython's \<open>urlparse\<close> and \<open>parse_qs\<close> on request targets,
    \<open>do_GET\<close> as a choice of an \<open>operation\<close>, a reply or no reply,
    \<open>handle_GET\<close> running it, and the start-up check
    \<open>preload_with_validation\<close> with each attempt's outcome as input.
  \<^item> This theory: \<open>reachable_service\<close>, the states of the whole process
    (start-up, handled requests, monitor passes), \<open>shutdown\<close>, the
    \<open>finally\<close> block at exit, and the properties that span components.

  \<^bold>\<open>What the lemmas show.\<close> Cache: the save/get round trip, expiry and its
  exact boundary, the sweep removing exactly the expired entries, the
  invariant, and the refinement of the four functions to map operations on
  \<open>cache_view\<close>. Session: reuse on a second \<open>start\<close>, a fresh session after
  \<open>close\<close>, the idle close by the monitor, the handle-order invariant of every
  interleaved run, the isolation of the three teardown calls of \<open>close\<close>, and two
  defects (a half-started session after a failed launch; a monitor thread
  left running by \<open>close\<close>). Monitor: an idle session is closed at the
  first pass after 900 s of idleness, at most 960 s after its last use; the
  thread of a closed session loops forever; no pass within 900 s of a
  request's \<open>start()\<close> or \<open>get_page()\<close> changes the session. Extraction: the date normaliser's examples and
  output shape, the row loops, the track loop against a stateless reference,
  the lost line breaks of the notes, the records' shape, the album page that
  makes extraction raise. Orchestrator: cache hits touch no session, every
  successful result is cached and served again, errors close the session
  and write nothing, and the cache key shared by two operations. Service:
  the request round trips, exactly when the missing-parameter reply is sent,
  the preload verdict given by its last attempt, and the uselessness of its
  retries after a failed launch. Root: the
  process invariant in every reachable state, the link round trip, the route
  filter on the primary document, the repair of a half-started session, and
  the driver left running at exit by a half-started session.

  \<^bold>\<open>Bounds and fuel.\<close> Every loop of the code is a bounded \<open>for\<close> loop over a
  list or a \<open>range\<close> and is modelled by structural recursion; the regex
  repetition and \<open>re.sub\<close> recurse on a strictly shorter remainder, with
  termination proved by a length measure, so no fuel is needed. The TTL is
  \<open>DAYS_TO_EXPIRE = 15\<close> days and the idle limit 900 s, both as integers of
  microseconds; times are unbounded integers, like Python's \<open>datetime\<close>
  arithmetic, so no overflow arises. The monitor's \<open>while True\<close> loop is
  modelled by its single pass \<open>monitor_tick\<close>, repeated by the step relation,
  and, for the thread alone, by \<open>monitor_loop\<close> with fuel counting passes of
  60 s: \<open>None\<close> is a thread still in its loop. The fuel that suffices is the
  idle time at the start in whole minutes plus 16, since the limit of 900 s is
  15 passes. Requests are modelled as atomic steps: a request's session call
  sets \<open>_last_used\<close>, and its navigation and wait (timeouts 60 s and 3 s) end
  long before a monitor pass could find it idle.

  \<^bold>\<open>Not modelled.\<close> The bodies of Playwright and BeautifulSoup (their
  results enter as inputs: navigation outcomes, captured payloads, selector
  results); HTML parsing and CSS matching; printing, logging and the debug
  files written under \<open>debug/\<close>; \<open>time.sleep\<close> between retries; the HTTP
  server loop, signal handling and \<open>graceful_shutdown\<close>; the response
  encoding of \<open>_send_json\<close> beyond the JSON value sent.
\<close>

inductive reachable_service :: "proxy_state \<Rightarrow> bool" where
  boot: "cache_inv c \<Longrightarrow> preload_with_validation A 3 (initial_session t0) = (r, s)
         \<Longrightarrow> cleanup_expired_cache now c = Inr c' \<Longrightarrow> reachable_service \<lparr>shelf = c', session = s\<rparr>"
| request: "reachable_service st \<Longrightarrow> handle_GET w env target st = Some (v, st') \<Longrightarrow> reachable_service st'"
| tick: "reachable_service st \<Longrightarrow>
         reachable_service \<lparr>shelf = shelf st, session = monitor_tick now fails th (session st)\<rparr>"

text \<open>
  The \<open>finally\<close> block of \<open>__main__\<close> (lines 670-673): at exit the session is
  closed only if \<open>is_active()\<close> holds.
\<close>

definition shutdown :: "teardown set \<Rightarrow> proxy_state \<Rightarrow> proxy_state" where
  "shutdown fails st =
     (if is_active (session st) then \<lparr>shelf = shelf st, session = snd (close fails (session st))\<rparr> else st)"

text \<open>
  The process invariant holds in every reachable state of the service: after
  start-up (the preload check, then the sweep of the shelf), after any
  sequence of handled requests, and after any pass of the monitor thread, the
  shelf has one entry per key and the session attributes are consistent.
\<close>

theorem reachable_service_inv: "reachable_service st \<Longrightarrow> proxy_inv st"
proof (induction rule: reachable_service.induct)
  case (boot c A t0 r s now c')
  have "session_inv s"
    using preload_from_inv [OF session_inv_initial, of A 1 3 t0] boot(2) by (simp add: preload_with_validation_def)
  moreover have "cache_inv c'" using cache_inv_cleanup [OF boot(1) boot(3)] .
  ultimately show ?case by (simp add: proxy_inv_def)
next
  case (request st w env target v st')
  then show ?case using handle_GET_inv by blast
next
  case (tick st now fails th)
  then show ?case by (simp add: proxy_inv_def session_inv_tick)
qed

text \<open>
  C22. Round trip between the search results and the request handler: the proxy
  link a search row carries for a non-empty page URL is the path of its route
  with the URL quoted, and a request to that link calls the route's operation on
  exactly that URL.
\<close>

theorem result_link_roundtrip:
  assumes "r \<in> {''album'', ''album_full'', ''artist_info''}" and "u \<noteq> []"
  shows "proxy_link r u = ''http://localhost:'' @ PORT @ ''/'' @ r @ ''?url='' @ url_quote u
         \<and> do_GET (''/'' @ r @ ''?url='' @ url_quote u) =
             Some (Call ((if r = ''album'' then GetAlbum else if r = ''album_full'' then GetAlbumFull else GetArtistInfo) u))"
  using do_GET_url_target [OF assms(1), of u] assms(2) by (simp add: proxy_link_def url_route_def)

theorem result_link_roundtrip_witness:
  "do_GET (''/album?url='' @ url_quote ''https://www.metal-archives.com/albums/Burzum/Filosofem/600'')
   = Some (Call (GetAlbum ''https://www.metal-archives.com/albums/Burzum/Filosofem/600''))"
  using result_link_roundtrip [of "''album''" "''https://www.metal-archives.com/albums/Burzum/Filosofem/600''"]
  by simp

text \<open>
  On the spec's example row, whose links are single-quoted, the album search
  returns a record whose proxy link carries an empty \<open>url\<close> parameter, and
  following that link is answered with the missing-parameter error.
\<close>

theorem spec_example_link_rejected:
  "fst (search_albums (results_web [JArr [JStr ''<a href='x'>Band</a>'', JStr ''<a href='y'>Album</a>'',
                                          JStr ''Full-length'', JStr ''<!-- 2002-07-23 -->Jul 2002'']])
          (env_at 0) ''Band'' ''Album'' idle_state)
   = JObj [(''results'', JArr [JObj [(''artist'', JStr ''Band''), (''album'', JStr []),
        (''metal_archives_album_url'', JStr (''http://localhost:'' @ PORT @ ''/album?url='')),
        (''metal_archives_type'', JStr ''Full-length''), (''year'', JStr ''2002-07-23'')]])]
   \<and> do_GET ''/album?url='' = Some (Reply (err_obj msg_missing_url))"
  by code_simp

text \<open>
  C23. The route filter of the session inspects the whole URL of every request,
  the primary document included: an album search for a band name containing
  \<open>doubleclick\<close> navigates to a search URL the filter aborts.
\<close>

theorem search_document_blocked_by_route_rule:
  assumes "album_query a b = Some q" and "py_contains ''doubleclick'' a"
  shows "handle_route (ALBUMS_URL @ q) ''document'' = RouteAbort"
proof -
  obtain x y where a: "a = x @ ''doubleclick'' @ y" using assms(2) by (auto simp: py_contains_iff)
  then have "a \<noteq> []" by simp
  then obtain rest where "q = ALBUMS_QUERY @ ''&bandName='' @ url_quote a @ rest"
    using assms(1) by (auto simp: album_query_def split: if_splits)
  moreover have "url_quote a = url_quote x @ ''doubleclick'' @ url_quote y"
    using a by (simp only: url_quote_append url_quote_doubleclick)
  ultimately have "py_contains ''doubleclick'' (ALBUMS_URL @ q)"
    unfolding py_contains_iff by (metis append.assoc)
  then show ?thesis by (simp add: handle_route_def)
qed

theorem search_document_blocked_by_route_rule_witness:
  "handle_route (ALBUMS_URL @ ALBUMS_QUERY @ ''&bandName=doubleclick'') ''document'' = RouteAbort"
proof -
  have "album_query ''doubleclick'' [] = Some (ALBUMS_QUERY @ ''&bandName='' @ url_quote ''doubleclick'')"
    by (simp add: album_query_def)
  from search_document_blocked_by_route_rule [OF this] show ?thesis
    by (simp add: url_quote_doubleclick)
qed

text \<open>
  C24. A session left half started (a driver without browser context) makes the
  next album search that misses the cache fail with the \<open>AttributeError\<close> of
  \<open>None.on\<close>; the search then closes the session, so the following request
  starts afresh.
\<close>

theorem half_started_session_repaired_by_next_search:
  assumes "proxy_inv st" and "half_started (session st)" and "album_query a b = Some q"
    and "cache_view (req_now env) (shelf st) (''search:'' @ a @ ''|'' @ b) = None"
  shows "fst (search_albums w env a b st) = err_obj (exc_str (none_attr ''on''))
         \<and> playwright (session (snd (search_albums w env a b st))) = None
         \<and> browser (session (snd (search_albums w env a b st))) = None"
proof -
  have "page (session st) = None"
    using assms(1,2) by (auto simp: proxy_inv_def session_inv_def half_started_def is_active_def)
  moreover have "playwright (session st) \<noteq> None" using assms(2) by (simp add: half_started_def)
  ultimately have "start (req_now env) (req_fault env) (session st) = (Inr None, (session st)\<lparr>last_used := req_now env\<rparr>)"
    using start_live by simp
  then show ?thesis using assms(3) cache_lookup_miss [OF assms(4)]
    by (simp add: search_albums_def ajax_search_def fail_def close_def Let_def)
qed

theorem half_started_session_repaired_by_next_search_witness:
  "fst (search_albums offline_web (env_at 5) ''Burzum'' []
          \<lparr>shelf = [], session = snd (start 0 FailLaunch (initial_session 0))\<rparr>)
     = err_obj (exc_str (none_attr ''on''))"
proof -
  let ?st = "\<lparr>shelf = [], session = snd (start 0 FailLaunch (initial_session 0))\<rparr>"
  have "proxy_inv ?st"
    using session_inv_start [OF session_inv_initial, of 0 FailLaunch 0] by (simp add: proxy_inv_def cache_inv_def)
  moreover have "half_started (session ?st)" by (simp add: half_started_def start_def initial_session_def)
  moreover have "album_query ''Burzum'' [] = Some (ALBUMS_QUERY @ ''&bandName='' @ url_quote ''Burzum'')"
    by (simp add: album_query_def)
  moreover have "cache_view (req_now (env_at 5)) (shelf ?st) (''search:'' @ ''Burzum'' @ ''|'' @ []) = None"
    by (simp add: cache_view_def)
  ultimately show ?thesis using half_started_session_repaired_by_next_search by blast
qed

theorem reachable_service_inv_witness:
  "proxy_inv \<lparr>shelf = [], session = snd (preload_with_validation (\<lambda>_. \<lparr>pa_now = 0, pa_fault = FailLaunch,
                 pa_nav = Inl (EngineError ''offline'')\<rparr>) 3 (initial_session 0))\<rparr>"
proof -
  obtain r s where p: "preload_with_validation (\<lambda>_. \<lparr>pa_now = 0, pa_fault = FailLaunch,
                 pa_nav = Inl (EngineError ''offline'')\<rparr>) 3 (initial_session 0) = (r, s)" by fastforce
  have "reachable_service \<lparr>shelf = [], session = s\<rparr>"
  proof (rule reachable_service.boot [OF _ p])
    show "cleanup_expired_cache 0 [] = Inr []" by (simp add: cleanup_expired_cache_def)
  qed (simp add: cache_inv_def)
  with p show ?thesis by (simp add: reachable_service_inv)
qed

lemma inactive_half_started:
  "session_inv s \<Longrightarrow> \<not> is_active s \<Longrightarrow> playwright s \<noteq> None \<Longrightarrow> half_started s"
  by (auto simp: session_inv_def is_active_def half_started_def)

text \<open>
  C15. At exit the \<open>finally\<close> block stops the automation driver of every
  reachable state except a half-started one: \<open>is_active()\<close> is false when a
  launch or context creation raised, so \<open>close()\<close> is skipped and the driver
  process is left running.
\<close>

theorem exit_leaves_half_started_driver:
  assumes "reachable_service st"
  shows "playwright (session (shutdown fails st)) = None \<longleftrightarrow> \<not> half_started (session st)"
proof -
  have i: "session_inv (session st)" using reachable_service_inv [OF assms] by (simp add: proxy_inv_def)
  show ?thesis
  proof (cases "is_active (session st)")
    case True
    then show ?thesis by (simp add: shutdown_def close_def half_started_def is_active_def)
  next
    case False
    then show ?thesis using i inactive_half_started [OF i False]
      by (auto simp: shutdown_def half_started_def session_inv_def is_active_def)
  qed
qed

theorem exit_leaves_half_started_driver_witness:
  "playwright (session (shutdown {} \<lparr>shelf = [], session = snd (preload_with_validation (\<lambda>_. \<lparr>pa_now = 0,
      pa_fault = FailLaunch, pa_nav = Inl (EngineError ''offline'')\<rparr>) 3 (initial_session 0))\<rparr>)) \<noteq> None"
proof -
  obtain r s where p: "preload_with_validation (\<lambda>_. \<lparr>pa_now = 0, pa_fault = FailLaunch,
                 pa_nav = Inl (EngineError ''offline'')\<rparr>) 3 (initial_session 0) = (r, s)" by fastforce
  have "reachable_service \<lparr>shelf = [], session = s\<rparr>"
  proof (rule reachable_service.boot [OF _ p])
    show "cleanup_expired_cache 0 [] = Inr []" by (simp add: cleanup_expired_cache_def)
  qed (simp add: cache_inv_def)
  moreover have "half_started s"
    using p [symmetric] by (simp add: numeral_3_eq_3 preload_with_validation_def get_page_def start_def initial_session_def
        is_active_def half_started_def Let_def)
  ultimately show ?thesis using exit_leaves_half_started_driver [of "\<lparr>shelf = [], session = s\<rparr>" "{}"] p by simp
qed

end
